(* ===== verification/Prelude.thy ===== *)
theory Prelude
  imports Main "HOL-Library.Word"
begin

text \<open>
  Shared vocabulary of the development: the machine integer types of the C sources, the
  program type \<open>('w, 'a) prog\<close> in which every routine with effects is written, the
  loops over it, and the generic lemmas on lists and words that the component theories
  use.

  A program takes the state \<open>'w\<close> of everything outside the sources (the verbs library, the
  operating system, the peer) and returns a value or a fault, together with the new outside
  state. A fault is a place where the C code does not go on: a failed \<open>assert\<close>, a step
  whose behaviour the language leaves undefined (a null or wild pointer, a write past the end
  of a buffer), or a loop that has not ended after the given number of iterations.
\<close>

section \<open>Machine integers, bytes\<close>

type_synonym u8 = "8 word"
type_synonym u16 = "16 word"
type_synonym u32 = "32 word"
type_synonym u64 = "64 word"

text \<open>\<open>size_t\<close> of an LP64 target, and the contents of a \<open>char\<close> buffer.\<close>

type_synonym size_t = "64 word"
type_synonym bytes = "char list"

abbreviation NUL :: char where
  "NUL \<equiv> CHR 0x00"

section \<open>Lemma collections\<close>

named_theorems prog_simps \<open>unfolding the program combinators\<close>
named_theorems unat_simps \<open>moving word arithmetic to the natural numbers\<close>

section \<open>Programs\<close>

datatype fault =
    Assert_failed
  | Undefined_behaviour
  | Out_of_fuel

type_synonym ('w, 'a) prog = "'w \<Rightarrow> (fault + 'a) \<times> 'w"

definition ret :: "'a \<Rightarrow> ('w, 'a) prog" where
  "ret x = (\<lambda>w. (Inr x, w))"

definition fail :: "fault \<Rightarrow> ('w, 'a) prog" where
  "fail e = (\<lambda>w. (Inl e, w))"

definition bnd :: "('w, 'a) prog \<Rightarrow> ('a \<Rightarrow> ('w, 'b) prog) \<Rightarrow> ('w, 'b) prog" where
  "bnd m f = (\<lambda>w. case m w of (Inl e, w') \<Rightarrow> (Inl e, w') | (Inr x, w') \<Rightarrow> f x w')"

text \<open>A call into the outside world, and the checks that can stop a program.\<close>

definition call :: "('w \<Rightarrow> 'a \<times> 'w) \<Rightarrow> ('w, 'a) prog" where
  "call f = (\<lambda>w. case f w of (x, w') \<Rightarrow> (Inr x, w'))"

definition c_assert :: "bool \<Rightarrow> ('w, unit) prog" where
  "c_assert b = (if b then ret () else fail Assert_failed)"

definition defined :: "bool \<Rightarrow> ('w, unit) prog" where
  "defined b = (if b then ret () else fail Undefined_behaviour)"

text \<open>Dereferencing a pointer that may be null, and a computation that may be undefined.\<close>

definition deref :: "'a option \<Rightarrow> ('w, 'a) prog" where
  "deref p = (case p of None \<Rightarrow> fail Undefined_behaviour | Some x \<Rightarrow> ret x)"

definition pure_prog :: "fault + 'a \<Rightarrow> ('w, 'a) prog" where
  "pure_prog r = (\<lambda>w. (r, w))"

lemma ret_apply [prog_simps]: "ret x w = (Inr x, w)"
  by (simp add: ret_def)

lemma fail_apply [prog_simps]: "fail e w = (Inl e, w)"
  by (simp add: fail_def)

lemma call_apply [prog_simps]: "call f w = (Inr (fst (f w)), snd (f w))"
  by (simp add: call_def split_beta)

lemma bnd_apply [prog_simps]:
  "bnd m f w = (case fst (m w) of Inl e \<Rightarrow> (Inl e, snd (m w)) | Inr x \<Rightarrow> f x (snd (m w)))"
  by (cases "m w") (auto simp: bnd_def split: sum.splits)

lemma c_assert_apply [prog_simps]:
  "c_assert b w = (if b then Inr () else Inl Assert_failed, w)"
  by (simp add: c_assert_def prog_simps)

lemma defined_apply [prog_simps]:
  "defined b w = (if b then Inr () else Inl Undefined_behaviour, w)"
  by (simp add: defined_def prog_simps)

lemma deref_apply [prog_simps]:
  "deref p w = (case p of None \<Rightarrow> Inl Undefined_behaviour | Some x \<Rightarrow> Inr x, w)"
  by (simp add: deref_def prog_simps split: option.splits)

lemma pure_prog_apply [prog_simps]: "pure_prog r w = (r, w)"
  by (simp add: pure_prog_def)

lemma bnd_ret [simp]: "bnd (ret x) f = f x"
  by (simp add: bnd_def ret_def)

lemma bnd_ret_right [simp]: "bnd m ret = m"
  by (rule ext) (simp add: bnd_def ret_def split: prod.splits sum.splits)

lemma bnd_assoc: "bnd (bnd m f) g = bnd m (\<lambda>x. bnd (f x) g)"
  by (rule ext) (simp add: bnd_def split: prod.splits sum.splits)

lemma bnd_fail [simp]: "bnd (fail e) f = fail e"
  by (simp add: bnd_def fail_def)

text \<open>Inversion of a run that ended in a value.\<close>

lemma bnd_Inr_iff:
  "bnd m f w = (Inr y, w') \<longleftrightarrow> (\<exists>x w1. m w = (Inr x, w1) \<and> f x w1 = (Inr y, w'))"
  by (auto simp: bnd_def split: prod.splits sum.splits)

lemma deref_Inr_iff: "deref p w = (Inr x, w') \<longleftrightarrow> p = Some x \<and> w' = w"
  by (auto simp: deref_def ret_def fail_def split: option.splits)

lemma defined_Inr_iff: "defined b w = (Inr x, w') \<longleftrightarrow> b \<and> w' = w"
  by (auto simp: defined_def ret_def fail_def)

lemma c_assert_Inr_iff: "c_assert b w = (Inr x, w') \<longleftrightarrow> b \<and> w' = w"
  by (auto simp: c_assert_def ret_def fail_def)

lemma ret_Inr_iff: "ret x w = (Inr y, w') \<longleftrightarrow> x = y \<and> w' = w"
  by (auto simp: ret_def)

lemma fail_Inr_iff: "fail e w \<noteq> (Inr y, w')"
  by (simp add: fail_def)

lemma pure_prog_Inr_iff: "pure_prog r w = (Inr y, w') \<longleftrightarrow> r = Inr y \<and> w' = w"
  by (auto simp: pure_prog_def)

lemma call_Inr_iff: "call f w = (Inr y, w') \<longleftrightarrow> f w = (y, w')"
  by (auto simp: call_def split: prod.splits)

lemmas run_iffs = bnd_Inr_iff deref_Inr_iff defined_Inr_iff c_assert_Inr_iff ret_Inr_iff fail_Inr_iff
  pure_prog_Inr_iff call_Inr_iff

text \<open>
  Total correctness of a run: it ends without a fault in a value and an outside state that
  satisfy \<open>Q\<close>.
\<close>

definition returns :: "('w, 'a) prog \<Rightarrow> 'w \<Rightarrow> ('a \<Rightarrow> 'w \<Rightarrow> bool) \<Rightarrow> bool" where
  "returns m w Q \<longleftrightarrow> (case m w of (Inl e, w') \<Rightarrow> False | (Inr x, w') \<Rightarrow> Q x w')"

lemma returns_iff: "returns m w Q \<longleftrightarrow> (\<exists>x w'. m w = (Inr x, w') \<and> Q x w')"
  by (auto simp: returns_def split: prod.splits sum.splits)

lemma returns_ret [simp]: "returns (ret x) w Q = Q x w"
  by (simp add: returns_def ret_def)

lemma returns_fail [simp]: "\<not> returns (fail e) w Q"
  by (simp add: returns_def fail_def)

lemma returns_call [simp]: "returns (call f) w Q = Q (fst (f w)) (snd (f w))"
  by (simp add: returns_def call_def split_beta)

lemma returns_bnd [simp]: "returns (bnd m f) w Q = returns m w (\<lambda>x w'. returns (f x) w' Q)"
  by (auto simp: returns_def bnd_def split: prod.splits sum.splits)

lemma returns_c_assert [simp]: "returns (c_assert b) w Q = (b \<and> Q () w)"
  by (simp add: c_assert_def)

lemma returns_defined [simp]: "returns (defined b) w Q = (b \<and> Q () w)"
  by (simp add: defined_def)

lemma returns_deref [simp]: "returns (deref p) w Q = (\<exists>x. p = Some x \<and> Q x w)"
  by (auto simp: deref_def split: option.splits)

lemma returns_pure_prog [simp]: "returns (pure_prog r) w Q = (\<exists>x. r = Inr x \<and> Q x w)"
  by (auto simp: returns_def pure_prog_def split: sum.splits)

lemma returns_mono:
  "returns m w P \<Longrightarrow> (\<And>x w'. P x w' \<Longrightarrow> Q x w') \<Longrightarrow> returns m w Q"
  by (auto simp: returns_iff)

section \<open>Computations that may be undefined\<close>

definition sbnd :: "fault + 'a \<Rightarrow> ('a \<Rightarrow> fault + 'b) \<Rightarrow> fault + 'b" where
  "sbnd r f = (case r of Inl e \<Rightarrow> Inl e | Inr x \<Rightarrow> f x)"

lemma sbnd_simps [simp]: "sbnd (Inl e) f = Inl e" "sbnd (Inr x) f = f x"
  by (simp_all add: sbnd_def)

lemma sbnd_Inr_iff: "sbnd r f = Inr y \<longleftrightarrow> (\<exists>x. r = Inr x \<and> f x = Inr y)"
  by (cases r) auto

text \<open>A \<open>for\<close> loop over the given indices, stopping at the first fault.\<close>

fun for_each :: "('i \<Rightarrow> 's \<Rightarrow> fault + 's) \<Rightarrow> 'i list \<Rightarrow> 's \<Rightarrow> fault + 's" where
  "for_each f [] s = Inr s"
| "for_each f (i # is) s = sbnd (f i s) (for_each f is)"

lemma for_each_cong:
  "(\<And>i s. i \<in> set is \<Longrightarrow> f i s = g i s) \<Longrightarrow> for_each f is s = for_each g is s"
  by (induction "is" arbitrary: s) (simp_all add: sbnd_def split: sum.splits)

lemma for_each_append: "for_each f (xs @ ys) s = sbnd (for_each f xs s) (for_each f ys)"
  by (induction xs arbitrary: s) (auto simp: sbnd_def split: sum.splits)

text \<open>A loop keeps an invariant that each iteration keeps.\<close>

lemma for_each_invariant:
  assumes "for_each f is s = Inr t" and "P s"
    and "\<And>i s s'. i \<in> set is \<Longrightarrow> P s \<Longrightarrow> f i s = Inr s' \<Longrightarrow> P s'"
  shows "P t"
  using assms by (induction "is" arbitrary: s) (auto simp: sbnd_Inr_iff)

section \<open>Memory copies\<close>

text \<open>
  \<open>memcpy(d + i, s, length s)\<close> into a buffer whose contents are \<open>d\<close>: undefined when the
  copied range is not inside the buffer.
\<close>

definition memcpy_at :: "'a list \<Rightarrow> nat \<Rightarrow> 'a list \<Rightarrow> fault + 'a list" where
  "memcpy_at d i s =
     (if i + length s \<le> length d then Inr (take i d @ s @ drop (i + length s) d)
      else Inl Undefined_behaviour)"

text \<open>Reading \<open>n\<close> elements from position \<open>i\<close> of a buffer.\<close>

definition read_at :: "'a list \<Rightarrow> nat \<Rightarrow> nat \<Rightarrow> fault + 'a list" where
  "read_at d i n = (if i + n \<le> length d then Inr (take n (drop i d)) else Inl Undefined_behaviour)"

lemma memcpy_at_length: "memcpy_at d i s = Inr d' \<Longrightarrow> length d' = length d"
  by (auto simp: memcpy_at_def split: if_splits)

lemma memcpy_at_ok: "i + length s \<le> length d \<Longrightarrow>
  memcpy_at d i s = Inr (take i d @ s @ drop (i + length s) d)"
  by (simp add: memcpy_at_def)

lemma read_at_ok: "i + n \<le> length d \<Longrightarrow> read_at d i n = Inr (take n (drop i d))"
  by (simp add: read_at_def)

text \<open>Two adjacent copies are one copy of the concatenation.\<close>

lemma memcpy_at_append:
  assumes "i + length s + length t \<le> length d"
  shows "(case memcpy_at d i s of Inl e \<Rightarrow> Inl e | Inr d' \<Rightarrow> memcpy_at d' (i + length s) t)
    = memcpy_at d i (s @ t)"
  using assms by (simp add: memcpy_at_def add.commute add.left_commute)

section \<open>Lists\<close>

lemma take_replicate_min: "take n (replicate m x) = replicate (min n m) x"
  by simp

lemma concat_map_length_const:
  "(\<And>x. x \<in> set xs \<Longrightarrow> length (f x) = n) \<Longrightarrow> length (concat (map f xs)) = n * length xs"
  by (induction xs) auto

text \<open>Concatenating equal blocks: the block at index \<open>j\<close> is the slice from \<open>n * j\<close>.\<close>

lemma concat_block:
  assumes "\<And>x. x \<in> set xs \<Longrightarrow> length x = n" and "j < length xs"
  shows "take n (drop (n * j) (concat xs)) = xs ! j"
  using assms
proof (induction xs arbitrary: j)
  case Nil
  then show ?case by simp
next
  case (Cons x xs)
  then show ?case by (cases j) auto
qed

lemma takeWhile_append_stop:
  "(\<And>x. x \<in> set xs \<Longrightarrow> P x) \<Longrightarrow> \<not> P y \<Longrightarrow> takeWhile P (xs @ y # ys) = xs"
  by (induction xs) auto

lemma dropWhile_append_stop:
  "(\<And>x. x \<in> set xs \<Longrightarrow> P x) \<Longrightarrow> \<not> P y \<Longrightarrow> dropWhile P (xs @ y # ys) = y # ys"
  by (induction xs) auto

section \<open>Words\<close>

lemma unat_u8_bound: "unat (x :: u8) < 256"
  using unsigned_less [of x, where ?'a = nat] by simp

lemma unat_u16_bound: "unat (x :: u16) < 65536"
  using unsigned_less [of x, where ?'a = nat] by simp

lemma unat_u32_bound: "unat (x :: u32) < 4294967296"
  using unsigned_less [of x, where ?'a = nat] by simp

lemma unat_u64_bound: "unat (x :: u64) < 18446744073709551616"
  using unsigned_less [of x, where ?'a = nat] by simp

lemma unat_add_no_wrap [unat_simps]:
  "unat x + unat y < 2 ^ LENGTH('a) \<Longrightarrow> unat (x + y) = unat x + unat (y :: 'a :: len word)"
  by (simp add: unat_word_ariths)

lemma unat_mult_no_wrap [unat_simps]:
  "unat x * unat y < 2 ^ LENGTH('a) \<Longrightarrow> unat (x * y) = unat x * unat (y :: 'a :: len word)"
  by (simp add: unat_word_ariths)

lemma unat_of_nat_small [unat_simps]:
  "n < 2 ^ LENGTH('a) \<Longrightarrow> unat (of_nat n :: 'a :: len word) = n"
  by (simp add: unat_of_nat)

lemma unat_ucast_u32_u64 [unat_simps, simp]: "unat (ucast (x :: u32) :: u64) = unat x"
  by transfer (simp add: take_bit_eq_mod)

section \<open>Host byte order\<close>

text \<open>
  A 32-bit object in memory is four bytes, most significant first on a big-endian host and
  last on a little-endian one. \<open>htonl\<close> and \<open>ntohl\<close> reverse the bytes of a word on a
  little-endian host and do nothing on a big-endian one.
\<close>

datatype endian = Little | Big

definition be32 :: "u8 list \<Rightarrow> u32" where
  "be32 bs = of_nat (foldl (\<lambda>a b. 256 * a + unat b) 0 bs)"

definition to_be32 :: "u32 \<Rightarrow> u8 list" where
  "to_be32 v = [of_nat (unat v div 16777216), of_nat (unat v div 65536),
                of_nat (unat v div 256), of_nat (unat v)]"

definition load32 :: "endian \<Rightarrow> u8 list \<Rightarrow> u32" where
  "load32 e bs = (case e of Little \<Rightarrow> be32 (rev bs) | Big \<Rightarrow> be32 bs)"

definition store32 :: "endian \<Rightarrow> u32 \<Rightarrow> u8 list" where
  "store32 e v = (case e of Little \<Rightarrow> rev (to_be32 v) | Big \<Rightarrow> to_be32 v)"

definition htonl :: "endian \<Rightarrow> u32 \<Rightarrow> u32" where
  "htonl e v = (case e of Little \<Rightarrow> be32 (rev (to_be32 v)) | Big \<Rightarrow> v)"

definition ntohl :: "endian \<Rightarrow> u32 \<Rightarrow> u32" where
  "ntohl e v = htonl e v"

lemma length_to_be32 [simp]: "length (to_be32 v) = 4"
  by (simp add: to_be32_def)

lemma length_store32 [simp]: "length (store32 e v) = 4"
  by (simp add: store32_def split: endian.splits)

lemma length_4_cases:
  assumes "length xs = 4"
  obtains a b c d where "xs = [a, b, c, d]"
  using assms by (auto simp: numeral_eq_Suc length_Suc_conv)

lemma horner_bytes:
  assumes "a < 256" "b < 256" "c < 256" "d < (256::nat)"
  defines "n \<equiv> 256 * (256 * (256 * a + b) + c) + d"
  shows "n < 2 ^ 32" "n div 16777216 = a" "n div 65536 mod 256 = b" "n div 256 mod 256 = c"
    "n mod 256 = d"
proof -
  have d1: "n div 256 = 256 * (256 * a + b) + c" using assms by simp
  have d2: "n div 65536 = 256 * a + b"
    using div_mult2_eq [of n 256 256] d1 assms(3) by simp
  have d3: "n div 16777216 = a"
    using div_mult2_eq [of n 65536 256] d2 assms(2) by simp
  show "n div 16777216 = a" by (rule d3)
  show "n div 65536 mod 256 = b" using d2 assms(2) by simp
  show "n div 256 mod 256 = c"
    unfolding d1 using assms(3) by (simp only: mod_mult_self4 mod_less)
  show "n mod 256 = d" unfolding n_def using assms(4) by (simp only: mod_mult_self4 mod_less)
  show "n < 2 ^ 32" using assms(1-4) by (simp add: n_def)
qed

lemma be32_unat:
  "unat (be32 [a, b, c, d]) = 256 * (256 * (256 * unat a + unat b) + unat c) + unat d"
proof -
  have "foldl (\<lambda>x y. 256 * x + unat y) 0 [a, b, c, d]
      = 256 * (256 * (256 * unat a + unat b) + unat c) + unat d" by simp
  moreover have "256 * (256 * (256 * unat a + unat b) + unat c) + unat d < 2 ^ LENGTH(32)"
    using horner_bytes(1) [of "unat a" "unat b" "unat c" "unat d"] by (simp add: unat_u8_bound)
  ultimately show ?thesis
    unfolding be32_def by (metis unat_of_nat_small)
qed

lemma to_be32_unat:
  "map unat (to_be32 v) = [unat v div 16777216, unat v div 65536 mod 256,
     unat v div 256 mod 256, unat v mod 256]"
  using unat_u32_bound [of v] unfolding to_be32_def by (simp add: unat_of_nat unsigned_ucast_eq take_bit_eq_mod)

lemma to_be32_be32 [simp]: "length bs = 4 \<Longrightarrow> to_be32 (be32 bs) = bs"
proof (erule length_4_cases)
  fix a b c d :: u8
  assume bs: "bs = [a, b, c, d]"
  have "map unat (to_be32 (be32 bs)) = map unat bs"
    unfolding to_be32_unat bs be32_unat
    using horner_bytes [of "unat a" "unat b" "unat c" "unat d"] by (simp add: unat_u8_bound)
  then show "to_be32 (be32 bs) = bs"
    by (simp add: inj_map_eq_map [OF inj_onI] word_unat_eq_iff)
qed

lemma be32_to_be32 [simp]: "be32 (to_be32 v) = v"
proof -
  obtain a b c d where t: "to_be32 v = [a, b, c, d]" by (rule length_4_cases [OF length_to_be32])
  have u: "unat a = unat v div 16777216" "unat b = unat v div 65536 mod 256"
    "unat c = unat v div 256 mod 256" "unat d = unat v mod 256"
    using to_be32_unat [of v] by (simp_all add: t)
  have "unat v div 256 div 256 = unat v div 65536" "unat v div 65536 div 256 = unat v div 16777216"
    by (simp_all flip: div_mult2_eq)
  then have "unat (be32 (to_be32 v)) = unat v"
    unfolding t be32_unat u by (metis mult_div_mod_eq)
  then show ?thesis by (simp add: word_unat_eq_iff)
qed

lemma store32_load32: "length bs = 4 \<Longrightarrow> store32 e (load32 e bs) = bs"
  by (simp add: store32_def load32_def split: endian.splits)

lemma load32_store32: "load32 e (store32 e v) = v"
  by (simp add: store32_def load32_def split: endian.splits)

text \<open>The network value of a stored word does not depend on the host.\<close>

lemma htonl_load32: "length bs = 4 \<Longrightarrow> htonl e (load32 e bs) = be32 bs"
  by (simp add: htonl_def load32_def split: endian.splits)

lemma store32_ntohl: "store32 e (ntohl e v) = to_be32 v"
  by (simp add: ntohl_def htonl_def store32_def split: endian.splits)

end
