(* ===== verification/CFormat.thy ===== *)
theory CFormat
  imports Prelude
begin

text \<open>
  The part of C's formatted input and output that the sources use: the conversions
  \<open>%0Nx\<close>, \<open>%0Nlu\<close> and \<open>%d\<close> of \<open>sprintf\<close>, and \<open>%x\<close>, \<open>%lu\<close>, \<open>%s\<close>
  (with an optional maximum field width) and literal characters of \<open>sscanf\<close>, as the C
  standard describes them. The scanner skips white space before a conversion, accepts a sign
  and, for \<open>%x\<close>, a \<open>0x\<close> prefix, and stops at the first conversion that does not match;
  a number that does not fit the object it is stored into is undefined behaviour.

  The main facts: what is printed is scanned back (\<open>scan_uint_print\<close>), the exact
  condition under which a padded number fills its field (\<open>length_print_padded_iff\<close>), and
  the locale \<open>record_codec\<close> for tables of fixed-width text records.
\<close>

section \<open>Digits\<close>

definition digit_char :: "nat \<Rightarrow> char" where
  "digit_char d = (if d < 10 then char_of (48 + d) else char_of (87 + d))"

definition digit_val :: "char \<Rightarrow> nat option" where
  "digit_val c =
     (let n = (of_char c :: nat) in
      if 48 \<le> n \<and> n \<le> 57 then Some (n - 48)
      else if 97 \<le> n \<and> n \<le> 102 then Some (n - 87)
      else if 65 \<le> n \<and> n \<le> 70 then Some (n - 55)
      else None)"

definition is_digit :: "nat \<Rightarrow> char \<Rightarrow> bool" where
  "is_digit base c = (case digit_val c of None \<Rightarrow> False | Some d \<Rightarrow> d < base)"

definition is_space :: "char \<Rightarrow> bool" where
  "is_space c = (let n = (of_char c :: nat) in n = 32 \<or> (9 \<le> n \<and> n \<le> 13))"

lemma digit_val_digit_char: "d < 16 \<Longrightarrow> digit_val (digit_char d) = Some d"
  by (auto simp: digit_val_def digit_char_def Let_def)

lemma is_digit_digit_char: "d < base \<Longrightarrow> base \<le> 16 \<Longrightarrow> is_digit base (digit_char d)"
  by (simp add: is_digit_def digit_val_digit_char)

lemma is_digit_not_space: "is_digit base c \<Longrightarrow> \<not> is_space c"
  by (auto simp: is_digit_def is_space_def digit_val_def Let_def split: if_splits)

lemma is_digit_specials:
  "\<not> is_digit base (CHR ''x'')" "\<not> is_digit base (CHR ''X'')" "\<not> is_digit base (CHR '':'')"
  "\<not> is_digit base (CHR ''-'')" "\<not> is_digit base (CHR ''+'')" "\<not> is_digit base NUL"
  by (simp_all add: is_digit_def digit_val_def)

section \<open>Printing\<close>

fun digits :: "nat \<Rightarrow> nat \<Rightarrow> string" where
  "digits base n =
     (if base < 2 \<or> n < base then [digit_char n]
      else digits base (n div base) @ [digit_char (n mod base)])"

declare digits.simps [simp del]

text \<open>\<open>sprintf\<close> with \<open>%0wx\<close> (base 16) or \<open>%0wlu\<close> (base 10).\<close>

definition print_padded :: "nat \<Rightarrow> nat \<Rightarrow> nat \<Rightarrow> string" where
  "print_padded base w n = replicate (w - length (digits base n)) (CHR ''0'') @ digits base n"

text \<open>\<open>sprintf\<close> with \<open>%d\<close>.\<close>

definition print_d :: "int \<Rightarrow> string" where
  "print_d i = (if i < 0 then CHR ''-'' # digits 10 (nat (- i)) else digits 10 (nat i))"

definition digits_value :: "nat \<Rightarrow> string \<Rightarrow> nat" where
  "digits_value base cs = foldl (\<lambda>a c. base * a + the (digit_val c)) 0 cs"

lemma digits_nonempty: "digits base n \<noteq> []"
  by (subst digits.simps) simp

lemma digits_all_digits:
  "2 \<le> base \<Longrightarrow> base \<le> 16 \<Longrightarrow> c \<in> set (digits base n) \<Longrightarrow> is_digit base c"
proof (induction base n rule: digits.induct)
  case (1 base n)
  then show ?case
    by (auto simp: digits.simps [of base n] is_digit_digit_char split: if_splits)
qed

lemma digits_value_digits: "2 \<le> base \<Longrightarrow> base \<le> 16 \<Longrightarrow> digits_value base (digits base n) = n"
proof (induction base n rule: digits.induct)
  case (1 base n)
  show ?case
  proof (cases "n < base")
    case True
    with 1 show ?thesis
      by (simp add: digits.simps [of base n] digits_value_def digit_val_digit_char)
  next
    case False
    have "n mod base < 16" using 1(2,3) by (intro less_le_trans [OF mod_less_divisor]) auto
    with False 1 show ?thesis
      by (simp add: digits.simps [of base n] digits_value_def digit_val_digit_char)
  qed
qed

lemma length_digits_le_iff:
  "2 \<le> base \<Longrightarrow> length (digits base n) \<le> Suc w \<longleftrightarrow> n < base ^ Suc w"
proof (induction w arbitrary: n)
  case 0
  then show ?case
    by (auto simp: digits.simps [of base n] digits_nonempty)
next
  case (Suc w)
  show ?case
  proof (cases "n < base")
    case True
    have "1 \<le> base ^ Suc w" using Suc.prems by (intro one_le_power) simp
    then have "base \<le> base * base ^ Suc w" by simp
    with True have "n < base ^ Suc (Suc w)" unfolding power_Suc [of base "Suc w"] by linarith
    with True show ?thesis by (simp add: digits.simps [of base n])
  next
    case False
    have "length (digits base n) \<le> Suc (Suc w) \<longleftrightarrow> length (digits base (n div base)) \<le> Suc w"
      using False Suc.prems by (simp add: digits.simps [of base n])
    also have "\<dots> \<longleftrightarrow> n div base < base ^ Suc w" by (rule Suc.IH [OF Suc.prems])
    also have "\<dots> \<longleftrightarrow> n < base ^ Suc (Suc w)"
      using Suc.prems by (simp add: div_less_iff_less_mult mult.commute)
    finally show ?thesis .
  qed
qed

lemma print_padded_nonempty: "print_padded base w n \<noteq> []"
  by (simp add: print_padded_def digits_nonempty)

text \<open>A padded number fills its field exactly when it has at most that many digits.\<close>

lemma length_print_padded_iff:
  assumes "2 \<le> base" and "0 < w"
  shows "length (print_padded base w n) = w \<longleftrightarrow> n < base ^ w"
proof -
  obtain v where w: "w = Suc v" using assms(2) by (cases w) auto
  have "length (print_padded base w n) = w \<longleftrightarrow> length (digits base n) \<le> w"
    by (auto simp: print_padded_def)
  with length_digits_le_iff [OF assms(1), of n v] show ?thesis by (simp only: w)
qed

lemma length_print_padded_ge: "w \<le> length (print_padded base w n)"
  by (simp add: print_padded_def)

lemma zero_is_digit: "2 \<le> base \<Longrightarrow> is_digit base (CHR ''0'')"
  by (simp add: is_digit_def digit_val_def)

lemma print_padded_all_digits:
  "2 \<le> base \<Longrightarrow> base \<le> 16 \<Longrightarrow> c \<in> set (print_padded base w n) \<Longrightarrow> is_digit base c"
  by (auto simp: print_padded_def digits_all_digits zero_is_digit)

lemma foldl_replicate_zero:
  "foldl (\<lambda>a c. base * a + the (digit_val c)) 0 (replicate k (CHR ''0'')) = (0::nat)"
  by (induction k) (auto simp: digit_val_def)

lemma digits_value_print_padded:
  "2 \<le> base \<Longrightarrow> base \<le> 16 \<Longrightarrow> digits_value base (print_padded base w n) = n"
  using digits_value_digits [of base n]
  by (simp add: digits_value_def print_padded_def foldl_replicate_zero)

section \<open>Scanning\<close>

text \<open>One unsigned conversion: \<open>Inr None\<close> is a matching or input failure.\<close>

definition scan_uint :: "nat \<Rightarrow> nat \<Rightarrow> nat option \<Rightarrow> string \<Rightarrow> fault + (nat \<times> string) option" where
  "scan_uint base bits width s =
     (let s1 = dropWhile is_space s;
          item = (case width of None \<Rightarrow> s1 | Some k \<Rightarrow> take k s1);
          neg = (item \<noteq> [] \<and> hd item = CHR ''-'');
          item1 = (if item \<noteq> [] \<and> (hd item = CHR ''-'' \<or> hd item = CHR ''+'')
                   then tl item else item);
          item2 = (if base = 16 \<and> (take 2 item1 = ''0x'' \<or> take 2 item1 = ''0X'')
                   then drop 2 item1 else item1);
          ds = takeWhile (is_digit base) item2;
          n = digits_value base ds;
          used = length item - length item2 + length ds
      in if ds = [] then Inr None
         else if 2 ^ bits \<le> n then Inl Undefined_behaviour
         else Inr (Some (if neg then (2 ^ bits - n) mod 2 ^ bits else n, drop used s1)))"

definition scan_str :: "nat option \<Rightarrow> string \<Rightarrow> (string \<times> string) option" where
  "scan_str width s =
     (let s1 = dropWhile is_space s;
          item = (case width of None \<Rightarrow> s1 | Some k \<Rightarrow> take k s1);
          cs = takeWhile (\<lambda>c. \<not> is_space c) item
      in if cs = [] then None else Some (cs, drop (length cs) s1))"

datatype directive =
    Scan_x "nat option"
  | Scan_lu "nat option"
  | Scan_s "nat option"
  | Scan_lit char

datatype scanned = Num nat | Str string

text \<open>The values assigned, in order, up to the first directive that fails.\<close>

fun scan_all :: "directive list \<Rightarrow> string \<Rightarrow> fault + scanned list" where
  "scan_all [] s = Inr []"
| "scan_all (Scan_lit c # ds) s =
     (case s of [] \<Rightarrow> Inr [] | x # xs \<Rightarrow> if x = c then scan_all ds xs else Inr [])"
| "scan_all (Scan_x k # ds) s =
     (case scan_uint 16 32 k s of
        Inl e \<Rightarrow> Inl e
      | Inr None \<Rightarrow> Inr []
      | Inr (Some (n, r)) \<Rightarrow> map_sum id (\<lambda>vs. Num n # vs) (scan_all ds r))"
| "scan_all (Scan_lu k # ds) s =
     (case scan_uint 10 64 k s of
        Inl e \<Rightarrow> Inl e
      | Inr None \<Rightarrow> Inr []
      | Inr (Some (n, r)) \<Rightarrow> map_sum id (\<lambda>vs. Num n # vs) (scan_all ds r))"
| "scan_all (Scan_s k # ds) s =
     (case scan_str k s of
        None \<Rightarrow> Inr []
      | Some (cs, r) \<Rightarrow> map_sum id (\<lambda>vs. Str cs # vs) (scan_all ds r))"

text \<open>The C string in a buffer: the characters before the first NUL.\<close>

definition c_string :: "bytes \<Rightarrow> string" where
  "c_string b = takeWhile (\<lambda>c. c \<noteq> NUL) b"

text \<open>\<open>sscanf\<close> on a buffer that has no terminating NUL reads past its end.\<close>

definition sscanf :: "directive list \<Rightarrow> bytes \<Rightarrow> fault + scanned list" where
  "sscanf ds b = (if NUL \<in> set b then scan_all ds (c_string b) else Inl Undefined_behaviour)"

section \<open>What is printed is scanned back\<close>

lemma scan_uint_digits:
  assumes dig: "\<And>c. c \<in> set p \<Longrightarrow> is_digit base c" and ne: "p \<noteq> []"
    and stop: "width = None \<and> (r = [] \<or> \<not> is_digit base (hd r)) \<or> width = Some (length p)"
    and pre: "base = 16 \<Longrightarrow> 2 \<le> length p"
    and fits: "digits_value base p < 2 ^ bits"
  shows "scan_uint base bits width (p @ r) = Inr (Some (digits_value base p, r))"
proof -
  obtain c p' where p: "p = c # p'" using ne by (cases p) auto
  have c: "is_digit base c" using dig p by simp
  have sp: "dropWhile is_space (p @ r) = p @ r"
    using is_digit_not_space [OF c] by (simp add: p)
  define item where "item = (case width of None \<Rightarrow> p @ r | Some k \<Rightarrow> take k (p @ r))"
  have item: "\<exists>r'. item = p @ r' \<and> (r' = [] \<or> \<not> is_digit base (hd r'))"
    using stop by (auto simp: item_def)
  then obtain r' where it: "item = p @ r'" and r': "r' = [] \<or> \<not> is_digit base (hd r')" by blast
  have tw: "takeWhile (is_digit base) item = p"
    using r' dig by (cases r') (auto simp: it takeWhile_append takeWhile_append_stop)
  have sign: "c \<noteq> CHR ''-''" "c \<noteq> CHR ''+''" using c is_digit_specials by metis+
  have x: "base = 16 \<Longrightarrow> take 2 item \<noteq> ''0x'' \<and> take 2 item \<noteq> ''0X''"
  proof -
    assume "base = 16"
    with pre p obtain d p'' where p': "p' = d # p''" by (cases p') auto
    have "is_digit base d" using dig p p' by simp
    then have "d \<noteq> CHR ''x''" "d \<noteq> CHR ''X''" using is_digit_specials by metis+
    then show ?thesis by (simp add: it p p' numeral_2_eq_2)
  qed
  have hd: "item \<noteq> []" "hd item = c" by (simp_all add: it p)
  have "scan_uint base bits width (p @ r) =
      (let ds = takeWhile (is_digit base) item; n = digits_value base ds
       in if ds = [] then Inr None else if 2 ^ bits \<le> n then Inl Undefined_behaviour
          else Inr (Some (n, drop (length ds) (p @ r))))"
    unfolding scan_uint_def sp Let_def item_def [symmetric] using sign hd x by auto
  then show ?thesis using fits ne by (simp add: tw)
qed

lemma scan_uint_print:
  assumes "base = 10 \<or> base = 16" and "2 \<le> w" and "n < 2 ^ bits"
    and "width = None \<and> (r = [] \<or> \<not> is_digit base (hd r))
         \<or> width = Some (length (print_padded base w n))"
  shows "scan_uint base bits width (print_padded base w n @ r) = Inr (Some (n, r))"
proof -
  have b: "2 \<le> base" "base \<le> 16" using assms(1) by auto
  have "2 \<le> length (print_padded base w n)"
    using assms(2) length_print_padded_ge [of w base n] by linarith
  then show ?thesis
    using scan_uint_digits [of "print_padded base w n" base width r bits] assms(3,4)
    by (auto simp add: print_padded_all_digits [OF b] print_padded_nonempty
        digits_value_print_padded [OF b])
qed

lemma scan_str_whole:
  assumes "s \<noteq> []" and "\<And>c. c \<in> set s \<Longrightarrow> \<not> is_space c"
    and "width = None \<or> (\<exists>k. width = Some k \<and> length s \<le> k)"
  shows "scan_str width s = Some (s, [])"
proof -
  have dw: "dropWhile is_space s = s" using assms(1,2) by (cases s) auto
  have tw: "takeWhile (\<lambda>c. \<not> is_space c) s = s" using assms(2) by (simp add: takeWhile_eq_all_conv)
  show ?thesis using assms(1,3) by (auto simp: scan_str_def Let_def dw tw)
qed

lemma scan_str_prefix:
  assumes "s \<noteq> []" and "\<And>c. c \<in> set s \<Longrightarrow> \<not> is_space c"
  shows "scan_str (Some (length s)) (s @ r) = Some (s, r)"
proof -
  have dw: "dropWhile is_space (s @ r) = s @ r" using assms by (cases s) auto
  have tw: "takeWhile (\<lambda>c. \<not> is_space c) s = s" using assms(2) by (simp add: takeWhile_eq_all_conv)
  show ?thesis using assms(1) by (simp add: scan_str_def Let_def dw tw)
qed

lemma c_string_append_NUL: "NUL \<notin> set s \<Longrightarrow> c_string (s @ NUL # r) = s"
  unfolding c_string_def by (rule takeWhile_append_stop) auto

lemma sscanf_terminated:
  "NUL \<notin> set s \<Longrightarrow> sscanf ds (s @ NUL # r) = scan_all ds s"
  by (simp add: sscanf_def c_string_append_NUL)

lemma digit_not_NUL: "is_digit base c \<Longrightarrow> c \<noteq> NUL"
  using is_digit_specials(6) by metis

lemma print_padded_no_NUL:
  "2 \<le> base \<Longrightarrow> base \<le> 16 \<Longrightarrow> NUL \<notin> set (print_padded base w n)"
  using print_padded_all_digits is_digit_specials(6) by metis

section \<open>Tables of fixed-width text records\<close>

text \<open>
  Several messages of the program are tables: records printed one after the other, each with
  the same width, and read back by slicing the text at multiples of that width. The locale
  states the contract of one record and derives the round trip of the table.
\<close>

locale record_codec =
  fixes enc :: "'r \<Rightarrow> string" and dec :: "string \<Rightarrow> 'r option"
    and width :: nat and ok :: "'r \<Rightarrow> bool"
  assumes enc_width: "ok r \<Longrightarrow> length (enc r) = width"
    and dec_enc: "ok r \<Longrightarrow> dec (enc r) = Some r"
begin

lemma table_length: "\<forall>r \<in> set rs. ok r \<Longrightarrow> length (concat (map enc rs)) = width * length rs"
  by (rule concat_map_length_const) (simp add: enc_width)

lemma table_slice:
  assumes "\<forall>r \<in> set rs. ok r" and "j < length rs"
  shows "take width (drop (width * j) (concat (map enc rs) @ t)) = enc (rs ! j)"
proof -
  have "take width (drop (width * j) (concat (map enc rs))) = map enc rs ! j"
    using assms by (intro concat_block) (auto simp: enc_width)
  moreover have "width * Suc j \<le> width * length rs" using assms(2) by (intro mult_le_mono) auto
  ultimately show ?thesis using assms table_length [OF assms(1)] by (simp add: algebra_simps)
qed

lemma table_decode:
  assumes "\<forall>r \<in> set rs. ok r" and "j < length rs"
  shows "dec (take width (drop (width * j) (concat (map enc rs) @ t))) = Some (rs ! j)"
  unfolding table_slice [OF assms] using assms by (simp add: dec_enc)

lemma table_decode_all:
  assumes "\<forall>r \<in> set rs. ok r"
  shows "map (\<lambda>j. dec (take width (drop (width * j) (concat (map enc rs) @ t)))) [0..<length rs]
    = map Some rs"
  using assms by (intro nth_equalityI) (simp_all add: table_decode del: take_append drop_append)

lemma enc_inject: "ok r \<Longrightarrow> ok r' \<Longrightarrow> enc r = enc r' \<Longrightarrow> r = r'"
  by (metis dec_enc option.inject)

end

end
