(* ===== verification/Verbs.thy ===== *)
theory Verbs
  imports Prelude
begin

text \<open>
  The boundary of the program: the data it exchanges with the verbs library and the
  operating system, and the record \<open>'w verbs\<close> of their entry points. None of that code is
  part of the repository, so each entry point is a parameter: a function of its arguments
  and of an outside state \<open>'w\<close> about which nothing is assumed. Documented behaviour that a
  theorem relies on is a named predicate on the record, stated where it is used.

  Flag words and enumerations are kept symbolic: the sources only combine the names.
\<close>

section \<open>Data of the verbs interface\<close>

text \<open>Opaque pointers to objects of the library, never null; a null result is \<open>None\<close>.\<close>

type_synonym handle = nat

datatype ibv_port_state = IBV_PORT_ACTIVE | IBV_PORT_not_active nat

datatype ibv_link_layer =
    IBV_LINK_LAYER_UNSPECIFIED
  | IBV_LINK_LAYER_INFINIBAND
  | IBV_LINK_LAYER_ETHERNET
  | IBV_LINK_LAYER_other nat

record ibv_port_attr =
  pa_state :: ibv_port_state
  pa_lid :: u16
  pa_link_layer :: ibv_link_layer

text \<open>\<open>union ibv_gid\<close>: sixteen raw bytes, of which the last eight are the interface id.\<close>

record ibv_gid =
  raw :: "u8 list"

definition gid_ok :: "ibv_gid \<Rightarrow> bool" where
  "gid_ok g \<longleftrightarrow> length (raw g) = 16"

definition gid_zero :: ibv_gid where
  "gid_zero = \<lparr>raw = replicate 16 0\<rparr>"

definition interface_id_nonzero :: "ibv_gid \<Rightarrow> bool" where
  "interface_id_nonzero g \<longleftrightarrow> (\<exists>b \<in> set (drop 8 (raw g)). b \<noteq> 0)"

datatype ibv_mtu = IBV_MTU_256 | IBV_MTU_512 | IBV_MTU_1024 | IBV_MTU_2048 | IBV_MTU_4096

datatype ibv_access = IBV_ACCESS_LOCAL_WRITE | IBV_ACCESS_REMOTE_WRITE | IBV_ACCESS_REMOTE_READ

datatype ibv_qp_type = IBV_QPT_RC | IBV_QPT_UD | IBV_QPT_RAW_PACKET | IBV_QPT_other nat

datatype ibv_qp_state =
  IBV_QPS_RESET | IBV_QPS_INIT | IBV_QPS_RTR | IBV_QPS_RTS | IBV_QPS_SQD | IBV_QPS_SQE | IBV_QPS_ERR

datatype ibv_qp_attr_mask =
    IBV_QP_STATE | IBV_QP_PKEY_INDEX | IBV_QP_PORT | IBV_QP_ACCESS_FLAGS | IBV_QP_QKEY
  | IBV_QP_AV | IBV_QP_PATH_MTU | IBV_QP_DEST_QPN | IBV_QP_RQ_PSN | IBV_QP_MAX_DEST_RD_ATOMIC
  | IBV_QP_MIN_RNR_TIMER | IBV_QP_TIMEOUT | IBV_QP_RETRY_CNT | IBV_QP_RNR_RETRY | IBV_QP_SQ_PSN
  | IBV_QP_MAX_QP_RD_ATOMIC

record ibv_mr =
  mr_handle :: handle
  mr_addr :: u64
  mr_lkey :: u32
  mr_rkey :: u32

record ibv_qp =
  qp_handle :: handle
  qp_num :: u32

record ibv_comp_channel =
  channel_handle :: handle
  channel_fd :: int

record ibv_qp_init_attr =
  qia_send_cq :: handle
  qia_recv_cq :: handle
  qia_srq :: "handle option"
  qia_max_send_wr :: u32
  qia_max_recv_wr :: u32
  qia_max_send_sge :: u32
  qia_max_recv_sge :: u32
  qia_max_inline_data :: u32
  qia_qp_type :: ibv_qp_type
  qia_sq_sig_all :: int

record ibv_ah_attr =
  ah_is_global :: u8
  ah_dgid :: ibv_gid
  ah_sgid_index :: u8
  ah_hop_limit :: u8
  ah_dlid :: u16
  ah_sl :: u8
  ah_src_path_bits :: u8
  ah_port_num :: u8

record ibv_qp_attr =
  qp_state :: ibv_qp_state
  pkey_index :: u16
  port_num :: u8
  qp_access_flags :: "ibv_access list"
  qkey :: u32
  path_mtu :: "ibv_mtu option"
  dest_qp_num :: u32
  rq_psn :: u32
  max_dest_rd_atomic :: u8
  min_rnr_timer :: u8
  ah_attr :: ibv_ah_attr
  timeout :: u8
  retry_cnt :: u8
  rnr_retry :: u8
  sq_psn :: u32
  max_rd_atomic :: u8

text \<open>The attributes after \<open>= {}\<close> or \<open>memset(&qpa, 0, sizeof qpa)\<close>.\<close>

definition ah_attr_zero :: ibv_ah_attr where
  "ah_attr_zero = \<lparr>ah_is_global = 0, ah_dgid = gid_zero, ah_sgid_index = 0, ah_hop_limit = 0,
     ah_dlid = 0, ah_sl = 0, ah_src_path_bits = 0, ah_port_num = 0\<rparr>"

definition qp_attr_zero :: ibv_qp_attr where
  "qp_attr_zero = \<lparr>qp_state = IBV_QPS_RESET, pkey_index = 0, port_num = 0, qp_access_flags = [],
     qkey = 0, path_mtu = None, dest_qp_num = 0, rq_psn = 0, max_dest_rd_atomic = 0,
     min_rnr_timer = 0, ah_attr = ah_attr_zero, timeout = 0, retry_cnt = 0, rnr_retry = 0,
     sq_psn = 0, max_rd_atomic = 0\<rparr>"

datatype ibv_wr_opcode = IBV_WR_SEND | IBV_WR_RDMA_WRITE | IBV_WR_RDMA_READ | IBV_WR_other nat

record ibv_sge =
  sge_addr :: u64
  sge_length :: u32
  sge_lkey :: u32

text \<open>A work request; the \<open>next\<close> chain of a posted request is a list of them.\<close>

record ibv_send_wr =
  swr_id :: u64
  swr_sg_list :: "ibv_sge list"
  swr_opcode :: ibv_wr_opcode
  swr_signaled :: bool
  swr_remote_addr :: u64
  swr_rkey :: u32

record ibv_recv_wr =
  rwr_id :: u64
  rwr_sg_list :: "ibv_sge list"

datatype ibv_wc_status = IBV_WC_SUCCESS | IBV_WC_failed nat

record ibv_wc =
  wc_wr_id :: u64
  wc_status :: ibv_wc_status
  wc_byte_len :: u32

text \<open>
  \<open>ibv_poll_cq\<close> returns a negative number, or the number of work completions it has stored
  in the caller's array; the stored completions are the list.
\<close>

datatype poll_result = Poll_error int | Completions "ibv_wc list"

section \<open>Entry points\<close>

record 'w verbs =
  ibv_get_device_list :: "'w \<Rightarrow> handle list option \<times> 'w"
  ibv_free_device_list :: "'w \<Rightarrow> unit \<times> 'w"
  ibv_get_device_name :: "handle \<Rightarrow> string"
  ibv_open_device :: "handle \<Rightarrow> 'w \<Rightarrow> handle option \<times> 'w"
  ibv_close_device :: "handle \<Rightarrow> 'w \<Rightarrow> int \<times> 'w"
  ibv_query_port :: "handle \<Rightarrow> int \<Rightarrow> 'w \<Rightarrow> (int \<times> ibv_port_attr) \<times> 'w"
  ibv_query_gid :: "handle \<Rightarrow> int \<Rightarrow> int \<Rightarrow> 'w \<Rightarrow> (int \<times> ibv_gid) \<times> 'w"
  ibv_alloc_pd :: "handle \<Rightarrow> 'w \<Rightarrow> handle option \<times> 'w"
  ibv_dealloc_pd :: "handle \<Rightarrow> 'w \<Rightarrow> int \<times> 'w"
  ibv_create_comp_channel :: "handle \<Rightarrow> 'w \<Rightarrow> ibv_comp_channel option \<times> 'w"
  ibv_destroy_comp_channel :: "ibv_comp_channel \<Rightarrow> 'w \<Rightarrow> int \<times> 'w"
  ibv_create_cq :: "handle \<Rightarrow> int \<Rightarrow> ibv_comp_channel option \<Rightarrow> 'w \<Rightarrow> handle option \<times> 'w"
  ibv_destroy_cq :: "handle \<Rightarrow> 'w \<Rightarrow> int \<times> 'w"
  ibv_req_notify_cq :: "handle \<Rightarrow> 'w \<Rightarrow> int \<times> 'w"
  ibv_poll_cq :: "handle \<Rightarrow> int \<Rightarrow> 'w \<Rightarrow> poll_result \<times> 'w"
  ibv_get_cq_event :: "ibv_comp_channel \<Rightarrow> 'w \<Rightarrow> (int \<times> handle) \<times> 'w"
  ibv_ack_cq_events :: "handle \<Rightarrow> u32 \<Rightarrow> 'w \<Rightarrow> unit \<times> 'w"
  ibv_create_qp :: "handle \<Rightarrow> ibv_qp_init_attr \<Rightarrow> 'w \<Rightarrow> ibv_qp option \<times> 'w"
  ibv_destroy_qp :: "ibv_qp \<Rightarrow> 'w \<Rightarrow> int \<times> 'w"
  ibv_modify_qp :: "ibv_qp \<Rightarrow> ibv_qp_attr \<Rightarrow> ibv_qp_attr_mask list \<Rightarrow> 'w \<Rightarrow> int \<times> 'w"
  ibv_create_srq :: "handle \<Rightarrow> u32 \<Rightarrow> u32 \<Rightarrow> 'w \<Rightarrow> handle option \<times> 'w"
  ibv_post_srq_recv :: "handle \<Rightarrow> ibv_recv_wr \<Rightarrow> 'w \<Rightarrow> int \<times> 'w"
  ibv_post_send :: "ibv_qp \<Rightarrow> ibv_send_wr list \<Rightarrow> 'w \<Rightarrow> int \<times> 'w"
  ibv_post_recv :: "ibv_qp \<Rightarrow> ibv_recv_wr \<Rightarrow> 'w \<Rightarrow> int \<times> 'w"
  ibv_reg_mr :: "handle \<Rightarrow> u64 \<Rightarrow> size_t \<Rightarrow> ibv_access list \<Rightarrow> 'w \<Rightarrow> ibv_mr option \<times> 'w"
  ibv_dereg_mr :: "ibv_mr \<Rightarrow> 'w \<Rightarrow> int \<times> 'w"

section \<open>The operating system and the C library's allocator\<close>

text \<open>
  Sockets, process services and allocations. An allocation (\<open>calloc\<close>, \<open>malloc\<close> of a
  struct, \<open>asprintf\<close>) gives a block or nothing; \<open>getaddrinfo\<close> gives its status and the
  list of addresses; \<open>read\<close> gives its result and the bytes that were stored.
\<close>

record 'w sys =
  sys_alloc :: "'w \<Rightarrow> handle option \<times> 'w"
  sys_free :: "handle \<Rightarrow> 'w \<Rightarrow> unit \<times> 'w"
  sys_memalign :: "int \<Rightarrow> size_t \<Rightarrow> 'w \<Rightarrow> u64 option \<times> 'w"
  sys_free_buf :: "u64 \<Rightarrow> 'w \<Rightarrow> unit \<times> 'w"
  sys_page_size :: "'w \<Rightarrow> int \<times> 'w"
  sys_lrand48 :: "'w \<Rightarrow> u32 \<times> 'w"
  sys_getaddrinfo :: "string option \<Rightarrow> int \<Rightarrow> 'w \<Rightarrow> (int \<times> handle list) \<times> 'w"
  sys_freeaddrinfo :: "'w \<Rightarrow> unit \<times> 'w"
  sys_socket :: "handle \<Rightarrow> 'w \<Rightarrow> int \<times> 'w"
  sys_setsockopt :: "int \<Rightarrow> 'w \<Rightarrow> int \<times> 'w"
  sys_connect :: "int \<Rightarrow> handle \<Rightarrow> 'w \<Rightarrow> int \<times> 'w"
  sys_bind :: "int \<Rightarrow> handle \<Rightarrow> 'w \<Rightarrow> int \<times> 'w"
  sys_listen :: "int \<Rightarrow> int \<Rightarrow> 'w \<Rightarrow> int \<times> 'w"
  sys_accept :: "int \<Rightarrow> 'w \<Rightarrow> int \<times> 'w"
  sys_peer_host :: "int \<Rightarrow> 'w \<Rightarrow> string option \<times> 'w"
  sys_close :: "int \<Rightarrow> 'w \<Rightarrow> int \<times> 'w"
  sys_write :: "int \<Rightarrow> bytes \<Rightarrow> 'w \<Rightarrow> int \<times> 'w"
  sys_read :: "int \<Rightarrow> nat \<Rightarrow> 'w \<Rightarrow> (int \<times> bytes) \<times> 'w"

section \<open>Watching an environment\<close>

text \<open>
  Programs are generic in the outside state, so they can be run in an environment that
  carries a ghost beside the state of an arbitrary one. The lifted environments below do
  nothing with the ghost; a watcher replaces the calls it is interested in.
\<close>

definition unseen :: "('w \<Rightarrow> 'x \<times> 'w) \<Rightarrow> 'w \<times> 'g \<Rightarrow> 'x \<times> ('w \<times> 'g)" where
  "unseen f = (\<lambda>(w, g). case f w of (x, w') \<Rightarrow> (x, (w', g)))"

definition lift_verbs :: "'w verbs \<Rightarrow> ('w \<times> 'g) verbs" where
  "lift_verbs V = \<lparr>
     ibv_get_device_list = unseen (ibv_get_device_list V),
     ibv_free_device_list = unseen (ibv_free_device_list V),
     ibv_get_device_name = ibv_get_device_name V,
     ibv_open_device = (\<lambda>a. unseen (ibv_open_device V a)),
     ibv_close_device = (\<lambda>a. unseen (ibv_close_device V a)),
     ibv_query_port = (\<lambda>a b. unseen (ibv_query_port V a b)),
     ibv_query_gid = (\<lambda>a b c. unseen (ibv_query_gid V a b c)),
     ibv_alloc_pd = (\<lambda>a. unseen (ibv_alloc_pd V a)),
     ibv_dealloc_pd = (\<lambda>a. unseen (ibv_dealloc_pd V a)),
     ibv_create_comp_channel = (\<lambda>a. unseen (ibv_create_comp_channel V a)),
     ibv_destroy_comp_channel = (\<lambda>a. unseen (ibv_destroy_comp_channel V a)),
     ibv_create_cq = (\<lambda>a b c. unseen (ibv_create_cq V a b c)),
     ibv_destroy_cq = (\<lambda>a. unseen (ibv_destroy_cq V a)),
     ibv_req_notify_cq = (\<lambda>a. unseen (ibv_req_notify_cq V a)),
     ibv_poll_cq = (\<lambda>a b. unseen (ibv_poll_cq V a b)),
     ibv_get_cq_event = (\<lambda>a. unseen (ibv_get_cq_event V a)),
     ibv_ack_cq_events = (\<lambda>a b. unseen (ibv_ack_cq_events V a b)),
     ibv_create_qp = (\<lambda>a b. unseen (ibv_create_qp V a b)),
     ibv_destroy_qp = (\<lambda>a. unseen (ibv_destroy_qp V a)),
     ibv_modify_qp = (\<lambda>a b c. unseen (ibv_modify_qp V a b c)),
     ibv_create_srq = (\<lambda>a b c. unseen (ibv_create_srq V a b c)),
     ibv_post_srq_recv = (\<lambda>a b. unseen (ibv_post_srq_recv V a b)),
     ibv_post_send = (\<lambda>a b. unseen (ibv_post_send V a b)),
     ibv_post_recv = (\<lambda>a b. unseen (ibv_post_recv V a b)),
     ibv_reg_mr = (\<lambda>a b c d. unseen (ibv_reg_mr V a b c d)),
     ibv_dereg_mr = (\<lambda>a. unseen (ibv_dereg_mr V a))\<rparr>"

definition lift_sys :: "'w sys \<Rightarrow> ('w \<times> 'g) sys" where
  "lift_sys S = \<lparr>
     sys_alloc = unseen (sys_alloc S),
     sys_free = (\<lambda>a. unseen (sys_free S a)),
     sys_memalign = (\<lambda>a b. unseen (sys_memalign S a b)),
     sys_free_buf = (\<lambda>a. unseen (sys_free_buf S a)),
     sys_page_size = unseen (sys_page_size S),
     sys_lrand48 = unseen (sys_lrand48 S),
     sys_getaddrinfo = (\<lambda>a b. unseen (sys_getaddrinfo S a b)),
     sys_freeaddrinfo = unseen (sys_freeaddrinfo S),
     sys_socket = (\<lambda>a. unseen (sys_socket S a)),
     sys_setsockopt = (\<lambda>a. unseen (sys_setsockopt S a)),
     sys_connect = (\<lambda>a b. unseen (sys_connect S a b)),
     sys_bind = (\<lambda>a b. unseen (sys_bind S a b)),
     sys_listen = (\<lambda>a b. unseen (sys_listen S a b)),
     sys_accept = (\<lambda>a. unseen (sys_accept S a)),
     sys_peer_host = (\<lambda>a. unseen (sys_peer_host S a)),
     sys_close = (\<lambda>a. unseen (sys_close S a)),
     sys_write = (\<lambda>a b. unseen (sys_write S a b)),
     sys_read = (\<lambda>a b. unseen (sys_read S a b))\<rparr>"

named_theorems watch_simps \<open>effect of watched calls on the ghost\<close>

lemma unseen_apply [watch_simps]: "unseen f (w, g) = (fst (f w), (snd (f w), g))"
  by (cases "f w") (simp add: unseen_def)

lemma lift_verbs_sel [simp]:
  "ibv_get_device_list (lift_verbs V) = unseen (ibv_get_device_list V)"
  "ibv_free_device_list (lift_verbs V) = unseen (ibv_free_device_list V)"
  "ibv_get_device_name (lift_verbs V) = ibv_get_device_name V"
  "ibv_open_device (lift_verbs V) = (\<lambda>a. unseen (ibv_open_device V a))"
  "ibv_close_device (lift_verbs V) = (\<lambda>a. unseen (ibv_close_device V a))"
  "ibv_query_port (lift_verbs V) = (\<lambda>a b. unseen (ibv_query_port V a b))"
  "ibv_query_gid (lift_verbs V) = (\<lambda>a b c. unseen (ibv_query_gid V a b c))"
  "ibv_alloc_pd (lift_verbs V) = (\<lambda>a. unseen (ibv_alloc_pd V a))"
  "ibv_dealloc_pd (lift_verbs V) = (\<lambda>a. unseen (ibv_dealloc_pd V a))"
  "ibv_create_comp_channel (lift_verbs V) = (\<lambda>a. unseen (ibv_create_comp_channel V a))"
  "ibv_destroy_comp_channel (lift_verbs V) = (\<lambda>a. unseen (ibv_destroy_comp_channel V a))"
  "ibv_create_cq (lift_verbs V) = (\<lambda>a b c. unseen (ibv_create_cq V a b c))"
  "ibv_destroy_cq (lift_verbs V) = (\<lambda>a. unseen (ibv_destroy_cq V a))"
  "ibv_req_notify_cq (lift_verbs V) = (\<lambda>a. unseen (ibv_req_notify_cq V a))"
  "ibv_poll_cq (lift_verbs V) = (\<lambda>a b. unseen (ibv_poll_cq V a b))"
  "ibv_get_cq_event (lift_verbs V) = (\<lambda>a. unseen (ibv_get_cq_event V a))"
  "ibv_ack_cq_events (lift_verbs V) = (\<lambda>a b. unseen (ibv_ack_cq_events V a b))"
  "ibv_create_qp (lift_verbs V) = (\<lambda>a b. unseen (ibv_create_qp V a b))"
  "ibv_destroy_qp (lift_verbs V) = (\<lambda>a. unseen (ibv_destroy_qp V a))"
  "ibv_modify_qp (lift_verbs V) = (\<lambda>a b c. unseen (ibv_modify_qp V a b c))"
  "ibv_create_srq (lift_verbs V) = (\<lambda>a b c. unseen (ibv_create_srq V a b c))"
  "ibv_post_srq_recv (lift_verbs V) = (\<lambda>a b. unseen (ibv_post_srq_recv V a b))"
  "ibv_post_send (lift_verbs V) = (\<lambda>a b. unseen (ibv_post_send V a b))"
  "ibv_post_recv (lift_verbs V) = (\<lambda>a b. unseen (ibv_post_recv V a b))"
  "ibv_reg_mr (lift_verbs V) = (\<lambda>a b c d. unseen (ibv_reg_mr V a b c d))"
  "ibv_dereg_mr (lift_verbs V) = (\<lambda>a. unseen (ibv_dereg_mr V a))"
  by (simp_all add: lift_verbs_def)

lemma lift_sys_sel [simp]:
  "sys_alloc (lift_sys S) = unseen (sys_alloc S)"
  "sys_free (lift_sys S) = (\<lambda>a. unseen (sys_free S a))"
  "sys_memalign (lift_sys S) = (\<lambda>a b. unseen (sys_memalign S a b))"
  "sys_free_buf (lift_sys S) = (\<lambda>a. unseen (sys_free_buf S a))"
  "sys_page_size (lift_sys S) = unseen (sys_page_size S)"
  "sys_lrand48 (lift_sys S) = unseen (sys_lrand48 S)"
  "sys_getaddrinfo (lift_sys S) = (\<lambda>a b. unseen (sys_getaddrinfo S a b))"
  "sys_freeaddrinfo (lift_sys S) = unseen (sys_freeaddrinfo S)"
  "sys_socket (lift_sys S) = (\<lambda>a. unseen (sys_socket S a))"
  "sys_setsockopt (lift_sys S) = (\<lambda>a. unseen (sys_setsockopt S a))"
  "sys_connect (lift_sys S) = (\<lambda>a b. unseen (sys_connect S a b))"
  "sys_bind (lift_sys S) = (\<lambda>a b. unseen (sys_bind S a b))"
  "sys_listen (lift_sys S) = (\<lambda>a b. unseen (sys_listen S a b))"
  "sys_accept (lift_sys S) = (\<lambda>a. unseen (sys_accept S a))"
  "sys_peer_host (lift_sys S) = (\<lambda>a. unseen (sys_peer_host S a))"
  "sys_close (lift_sys S) = (\<lambda>a. unseen (sys_close S a))"
  "sys_write (lift_sys S) = (\<lambda>a b. unseen (sys_write S a b))"
  "sys_read (lift_sys S) = (\<lambda>a b. unseen (sys_read S a b))"
  by (simp_all add: lift_sys_def)

text \<open>A watcher that logs events beside a call.\<close>

definition logging_call :: "'e list \<Rightarrow> ('w \<Rightarrow> 'x \<times> 'w) \<Rightarrow> 'w \<times> 'e list \<Rightarrow> 'x \<times> ('w \<times> 'e list)" where
  "logging_call es f = (\<lambda>(w, g). case f w of (x, w') \<Rightarrow> (x, (w', g @ es)))"

lemma logging_call_apply [watch_simps]:
  "logging_call es f (w, g) = (fst (f w), (snd (f w), g @ es))"
  by (cases "f w") (simp add: logging_call_def)

text \<open>Programs that leave the ghost alone.\<close>

definition ghost_free :: "('w \<times> 'g, 'a) prog \<Rightarrow> bool" where
  "ghost_free m \<longleftrightarrow> (\<forall>w g. snd (snd (m (w, g))) = g)"

lemma ghost_freeD: "ghost_free m \<Longrightarrow> m (w, g) = (r, (w', g')) \<Longrightarrow> g' = g"
  unfolding ghost_free_def by (metis snd_conv)

lemma ghost_free_ret [simp]: "ghost_free (ret x)"
  and ghost_free_fail [simp]: "ghost_free (fail e)"
  and ghost_free_call [simp]: "ghost_free (call (unseen f))"
  and ghost_free_deref [simp]: "ghost_free (deref p)"
  and ghost_free_defined [simp]: "ghost_free (defined b)"
  and ghost_free_c_assert [simp]: "ghost_free (c_assert b)"
  and ghost_free_pure_prog [simp]: "ghost_free (pure_prog y)"
  by (simp_all add: ghost_free_def prog_simps watch_simps)

lemma ghost_free_bnd [simp]:
  assumes "ghost_free m" and "\<And>x. ghost_free (f x)"
  shows "ghost_free (bnd m f)"
  unfolding ghost_free_def
proof (intro allI)
  fix w g
  obtain r w1 g1 where m: "m (w, g) = (r, (w1, g1))" by (metis prod.exhaust)
  have "g1 = g" using ghost_freeD [OF assms(1) m] .
  then show "snd (snd (bnd m f (w, g))) = g"
    using assms(2) by (cases r) (auto simp: bnd_apply m ghost_free_def)
qed

end
