(* ===== verification/Pingpong.thy ===== *)
theory Pingpong
  imports CFormat Verbs
begin

text \<open>
  \<open>debug/pingpong.c\<close>: the MTU table, the port queries, and the text form of a GID that
  both parts of the repository put on the wire (\<open>rdma/Infiniband.cc\<close> has the same two
  routines). The buffer arguments are the contents of the C arrays, so a write past the end
  of one is a fault; the host's byte order is a parameter.

  The lemmas show that the wire text of a GID is the hexadecimal form of its sixteen bytes on
  every host, and that two hosts of any byte orders agree on the GID they exchange.
\<close>

section \<open>Definitions\<close>

definition pp_mtu_to_enum :: "int \<Rightarrow> ibv_mtu" where
  "pp_mtu_to_enum mtu =
     (if mtu = 256 then IBV_MTU_256
      else if mtu = 512 then IBV_MTU_512
      else if mtu = 1024 then IBV_MTU_1024
      else if mtu = 2048 then IBV_MTU_2048
      else if mtu = 4096 then IBV_MTU_4096
      else IBV_MTU_1024)"

definition pp_get_local_lid :: "'w verbs \<Rightarrow> handle \<Rightarrow> int \<Rightarrow> ('w, u16) prog" where
  "pp_get_local_lid V ctx port =
     bnd (call (ibv_query_port V ctx port)) (\<lambda>(r, attr).
     if r \<noteq> 0 then ret 0 else ret (pa_lid attr))"

definition pp_get_port_info ::
    "'w verbs \<Rightarrow> handle \<Rightarrow> int \<Rightarrow> ('w, int \<times> ibv_port_attr) prog" where
  "pp_get_port_info V ctx port = call (ibv_query_port V ctx port)"

text \<open>
  One iteration of \<open>wire_gid_to_gid\<close>: eight characters are copied to \<open>tmp\<close>, whose ninth
  is NUL, and scanned into \<open>v32\<close>, which keeps its value when the scan fails.
\<close>

definition wire_gid_group ::
    "endian \<Rightarrow> bytes \<Rightarrow> nat \<Rightarrow> u32 \<times> u8 list \<Rightarrow> fault + u32 \<times> u8 list" where
  "wire_gid_group e wgid i st =
     (case st of (v32, raw_bytes) \<Rightarrow>
        sbnd (read_at wgid (i * 8) 8) (\<lambda>tmp.
        sbnd (sscanf [Scan_x None] (tmp @ [NUL])) (\<lambda>vs.
        let v = (case vs of [Num n] \<Rightarrow> of_nat n | _ \<Rightarrow> v32) in
        sbnd (memcpy_at raw_bytes (i * 4) (store32 e (ntohl e v))) (\<lambda>raw_bytes'.
        Inr (v, raw_bytes')))))"

text \<open>\<open>v0\<close> is the indeterminate initial value of the local \<open>v32\<close>.\<close>

definition wire_gid_to_gid :: "endian \<Rightarrow> u32 \<Rightarrow> bytes \<Rightarrow> ibv_gid \<Rightarrow> fault + ibv_gid" where
  "wire_gid_to_gid e v0 wgid gid =
     sbnd (for_each (wire_gid_group e wgid) [0, 1, 2, 3] (v0, raw gid)) (\<lambda>(v, bs).
     Inr (gid\<lparr>raw := bs\<rparr>))"

definition gid_wire_group :: "endian \<Rightarrow> ibv_gid \<Rightarrow> nat \<Rightarrow> bytes \<Rightarrow> fault + bytes" where
  "gid_wire_group e gid i wgid =
     sbnd (read_at (raw gid) (i * 4) 4) (\<lambda>bs.
     memcpy_at wgid (i * 8) (print_padded 16 8 (unat (htonl e (load32 e bs))) @ [NUL]))"

definition gid_to_wire_gid :: "endian \<Rightarrow> ibv_gid \<Rightarrow> bytes \<Rightarrow> fault + bytes" where
  "gid_to_wire_gid e gid wgid = for_each (gid_wire_group e gid) [0, 1, 2, 3] wgid"

section \<open>The text of a GID\<close>

text \<open>The specification: the four big-endian words of the raw bytes, eight digits each.\<close>

definition gid_words :: "ibv_gid \<Rightarrow> u32 list" where
  "gid_words g = map (\<lambda>i. be32 (take 4 (drop (i * 4) (raw g)))) [0, 1, 2, 3]"

definition hex8 :: "u32 \<Rightarrow> string" where
  "hex8 v = print_padded 16 8 (unat v)"

definition unhex8 :: "string \<Rightarrow> u32 option" where
  "unhex8 s = (case sscanf [Scan_x None] (s @ [NUL]) of Inr [Num n] \<Rightarrow> Some (of_nat n) | _ \<Rightarrow> None)"

definition gid_text :: "ibv_gid \<Rightarrow> string" where
  "gid_text g = concat (map hex8 (gid_words g))"

lemma length_hex8 [simp]: "length (hex8 v) = 8"
  using length_print_padded_iff [of 16 8 "unat v"] unat_u32_bound [of v] by (simp add: hex8_def)

lemma hex8_digits: "c \<in> set (hex8 v) \<Longrightarrow> is_digit 16 c"
  unfolding hex8_def by (rule print_padded_all_digits) auto

lemma NUL_not_in_hex8 [simp]: "NUL \<notin> set (hex8 v)"
  unfolding hex8_def by (rule print_padded_no_NUL) auto

lemma scan_uint_hex8:
  "r = [] \<or> \<not> is_digit 16 (hd r) \<Longrightarrow> scan_uint 16 32 None (hex8 v @ r) = Inr (Some (unat v, r))"
  unfolding hex8_def by (rule scan_uint_print) (auto simp: unat_u32_bound)

lemma sscanf_hex8: "sscanf [Scan_x None] (hex8 v @ [NUL]) = Inr [Num (unat v)]"
  using scan_uint_hex8 [of "[]" v] by (simp add: sscanf_terminated)

interpretation gidgroup: record_codec hex8 unhex8 8 "\<lambda>_. True"
  by unfold_locales (simp_all add: unhex8_def sscanf_hex8)

lemma length_gid_words [simp]: "length (gid_words g) = 4"
  by (simp add: gid_words_def)

lemma length_gid_text [simp]: "length (gid_text g) = 32"
  unfolding gid_text_def using gidgroup.table_length [of "gid_words g"] by simp

lemma gid_text_digits: "c \<in> set (gid_text g) \<Longrightarrow> is_digit 16 c"
  by (auto simp: gid_text_def hex8_digits)

lemma NUL_not_in_gid_text: "NUL \<notin> set (gid_text g)"
  using gid_text_digits digit_not_NUL by blast

lemma gid_word_bytes:
  "gid_ok g \<Longrightarrow> i < 4 \<Longrightarrow> to_be32 (gid_words g ! i) = take 4 (drop (i * 4) (raw g))"
  by (auto simp: gid_words_def gid_ok_def less_Suc_eq numeral_eq_Suc)

lemma gid_raw_words: "gid_ok g \<Longrightarrow> concat (map to_be32 (gid_words g)) = raw g"
proof -
  assume ok: "gid_ok g"
  then have "concat (map to_be32 (gid_words g)) =
      take 4 (raw g) @ take 4 (drop 4 (raw g)) @ take 4 (drop 8 (raw g)) @ take 4 (drop 12 (raw g))"
    by (simp add: gid_words_def gid_ok_def)
  also have "\<dots> = take 16 (raw g)"
    using take_add [of 12 4 "raw g"] take_add [of 8 4 "raw g"] take_add [of 4 4 "raw g"] by simp
  finally show ?thesis using ok by (simp add: gid_ok_def)
qed

text \<open>Printing: four groups, each ending in a NUL that the next group overwrites.\<close>

lemma gid_wire_group_step:
  assumes "gid_ok g" and "i < 4" and "length d = 33"
  shows "gid_wire_group e g i d =
    Inr (take (i * 8) d @ hex8 (gid_words g ! i) @ NUL # drop (i * 8 + 9) d)"
proof -
  have "read_at (raw g) (i * 4) 4 = Inr (take 4 (drop (i * 4) (raw g)))"
    using assms by (simp add: read_at_def gid_ok_def)
  moreover have "htonl e (load32 e (take 4 (drop (i * 4) (raw g)))) = gid_words g ! i"
    using assms by (auto simp: htonl_load32 gid_ok_def gid_words_def less_Suc_eq numeral_eq_Suc)
  ultimately show ?thesis
    using assms by (simp add: gid_wire_group_def memcpy_at_def flip: hex8_def)
qed

lemma upt4_words: "gid_words g = [gid_words g ! 0, gid_words g ! 1, gid_words g ! 2, gid_words g ! 3]"
  by (simp add: gid_words_def numeral_eq_Suc)

lemma gid_text_groups:
  "gid_text g = hex8 (gid_words g ! 0) @ hex8 (gid_words g ! 1) @ hex8 (gid_words g ! 2)
     @ hex8 (gid_words g ! 3)"
  unfolding gid_text_def by (subst upt4_words) simp

lemma gid_to_wire_gid_eq:
  assumes "gid_ok g" and "length d = 33"
  shows "gid_to_wire_gid e g d = Inr (gid_text g @ [NUL])"
  using assms by (simp add: gid_to_wire_gid_def gid_wire_group_step gid_text_groups)

text \<open>Scanning one group of a wire text writes the corresponding four raw bytes.\<close>

lemma wire_gid_group_step:
  assumes "i < 4" and "length bs = 16"
  shows "wire_gid_group e (gid_text g @ r) i (v0, bs) =
    Inr (gid_words g ! i,
         take (i * 4) bs @ to_be32 (gid_words g ! i) @ drop (i * 4 + 4) bs)"
proof -
  have sl: "take 8 (drop (8 * i) (gid_text g @ r)) = hex8 (gid_words g ! i)"
    unfolding gid_text_def using assms by (intro gidgroup.table_slice) auto
  have "read_at (gid_text g @ r) (i * 8) 8 = Inr (hex8 (gid_words g ! i))"
    unfolding read_at_def mult.commute [of i] sl using assms by simp
  then show ?thesis
    using assms by (simp add: wire_gid_group_def sscanf_hex8 store32_ntohl memcpy_at_def Let_def)
qed

lemma wire_gid_to_gid_eq:
  assumes "gid_ok g" and "gid_ok g0"
  shows "wire_gid_to_gid e v0 (gid_text g @ r) g0 = Inr g"
proof -
  have "for_each (wire_gid_group e (gid_text g @ r)) [0, 1, 2, 3] (v0, raw g0) =
      Inr (gid_words g ! 3, concat (map to_be32 (gid_words g)))"
    using assms(2) by (subst (2) upt4_words) (simp add: gid_ok_def wire_gid_group_step)
  moreover have "g0\<lparr>raw := raw g\<rparr> = g" by (cases g, cases g0) simp
  ultimately show ?thesis
    by (simp add: wire_gid_to_gid_def gid_raw_words [OF assms(1)])
qed

section \<open>Properties\<close>

text \<open>
  \<open>gid_to_wire_gid\<close> fills its 33-byte buffer with the 32 hexadecimal digits of the
  GID and a NUL, and nothing is written outside the buffer. The text is the same on a
  little-endian and on a big-endian host.
\<close>

theorem gid_to_wire_gid_text:
  assumes "gid_ok g" and "length d = 33"
  shows "gid_to_wire_gid e g d = Inr (gid_text g @ [NUL])"
  using assms by (rule gid_to_wire_gid_eq)

definition sample_gid :: ibv_gid where
  "sample_gid = \<lparr>raw = [0xfe, 0x80, 0, 0, 0, 0, 0, 0, 0, 2, 0xc9, 3, 0, 0x1a, 0x2b, 0x3c]\<rparr>"

theorem gid_to_wire_gid_text_witness:
  "gid_ok sample_gid \<and>
   gid_to_wire_gid Little sample_gid (replicate 33 NUL) = Inr (gid_text sample_gid @ [NUL])"
proof -
  have "gid_ok sample_gid" by (simp add: gid_ok_def sample_gid_def)
  then show ?thesis using gid_to_wire_gid_text [of sample_gid "replicate 33 NUL" Little] by simp
qed

text \<open>
  C30. Two hosts of any byte orders agree on an exchanged GID: what one prints with
  \<open>gid_to_wire_gid\<close>, the other reads back unchanged with \<open>wire_gid_to_gid\<close>, whatever its
  buffers held before.
\<close>

theorem gid_wire_roundtrip:
  assumes "gid_ok g" and "gid_ok g0" and "length d = 33"
  shows "sbnd (gid_to_wire_gid e g d) (\<lambda>wgid. wire_gid_to_gid e' v0 wgid g0) = Inr g"
  using assms by (simp add: gid_to_wire_gid_eq wire_gid_to_gid_eq)

theorem gid_wire_roundtrip_witness:
  "gid_ok sample_gid \<and> gid_ok gid_zero \<and>
   sbnd (gid_to_wire_gid Little sample_gid (replicate 33 NUL))
     (\<lambda>wgid. wire_gid_to_gid Big 7 wgid gid_zero) = Inr sample_gid"
proof -
  have "gid_ok sample_gid" "gid_ok gid_zero"
    by (simp_all add: gid_ok_def sample_gid_def gid_zero_def)
  then show ?thesis
    using gid_wire_roundtrip [of sample_gid gid_zero "replicate 33 NUL" Little Big 7] by simp
qed

end
