(* ===== verification/Ledger.thy ===== *)
theory Ledger
  imports Verbs "HOL-Library.Multiset"
begin

text \<open>
  Accounting for the objects that a program opens at the boundary. A ledger holds the
  objects that are open and whether every release so far named an open object. The tracked
  environments run an arbitrary environment and keep the ledger beside its state: an entry
  is added when the environment hands out an object, and removed when its release is
  requested. Programs are generic in the outside state, so a statement about a program in a
  tracked environment is a statement about the calls it makes in every environment.
\<close>

section \<open>Ledgers\<close>

datatype resource =
    R_mem handle | R_dev handle | R_chan handle | R_pd handle | R_cq handle | R_qp handle
  | R_mr handle

record ledger =
  held :: "resource multiset"
  sound :: bool

definition ledger_empty :: ledger where
  "ledger_empty = \<lparr>held = {#}, sound = True\<rparr>"

definition ledger_add :: "resource \<Rightarrow> ledger \<Rightarrow> ledger" where
  "ledger_add r l = l\<lparr>held := add_mset r (held l)\<rparr>"

definition ledger_remove :: "resource \<Rightarrow> ledger \<Rightarrow> ledger" where
  "ledger_remove r l = \<lparr>held = held l - {#r#}, sound = (sound l \<and> r \<in># held l)\<rparr>"

definition gaining :: "('x \<Rightarrow> resource) \<Rightarrow> ('w \<Rightarrow> 'x option \<times> 'w) \<Rightarrow>
    'w \<times> ledger \<Rightarrow> 'x option \<times> ('w \<times> ledger)" where
  "gaining res f = (\<lambda>(w, l). case f w of
     (None, w') \<Rightarrow> (None, (w', l)) | (Some x, w') \<Rightarrow> (Some x, (w', ledger_add (res x) l)))"

definition losing :: "resource \<Rightarrow> ('w \<Rightarrow> 'x \<times> 'w) \<Rightarrow> 'w \<times> ledger \<Rightarrow> 'x \<times> ('w \<times> ledger)" where
  "losing r f = (\<lambda>(w, l). case f w of (x, w') \<Rightarrow> (x, (w', ledger_remove r l)))"

section \<open>Tracked environments\<close>

definition tracked_verbs :: "'w verbs \<Rightarrow> ('w \<times> ledger) verbs" where
  "tracked_verbs V = (lift_verbs V)\<lparr>
     ibv_open_device := (\<lambda>a. gaining R_dev (ibv_open_device V a)),
     ibv_close_device := (\<lambda>a. losing (R_dev a) (ibv_close_device V a)),
     ibv_alloc_pd := (\<lambda>a. gaining R_pd (ibv_alloc_pd V a)),
     ibv_dealloc_pd := (\<lambda>a. losing (R_pd a) (ibv_dealloc_pd V a)),
     ibv_create_comp_channel := (\<lambda>a. gaining (R_chan \<circ> channel_handle) (ibv_create_comp_channel V a)),
     ibv_destroy_comp_channel := (\<lambda>a. losing ((R_chan \<circ> channel_handle) a) (ibv_destroy_comp_channel V a)),
     ibv_create_cq := (\<lambda>a b c. gaining R_cq (ibv_create_cq V a b c)),
     ibv_destroy_cq := (\<lambda>a. losing (R_cq a) (ibv_destroy_cq V a)),
     ibv_create_qp := (\<lambda>a b. gaining (R_qp \<circ> qp_handle) (ibv_create_qp V a b)),
     ibv_destroy_qp := (\<lambda>a. losing ((R_qp \<circ> qp_handle) a) (ibv_destroy_qp V a)),
     ibv_reg_mr := (\<lambda>a b c d. gaining (R_mr \<circ> mr_handle) (ibv_reg_mr V a b c d)),
     ibv_dereg_mr := (\<lambda>a. losing ((R_mr \<circ> mr_handle) a) (ibv_dereg_mr V a))\<rparr>"

definition tracked_sys :: "'w sys \<Rightarrow> ('w \<times> ledger) sys" where
  "tracked_sys S = (lift_sys S)\<lparr>
     sys_alloc := gaining R_mem (sys_alloc S),
     sys_free := (\<lambda>a. losing (R_mem a) (sys_free S a))\<rparr>"

lemma held_ledger_add [watch_simps]: "held (ledger_add r l) = add_mset r (held l)"
  and sound_ledger_add [watch_simps]: "sound (ledger_add r l) = sound l"
  and held_ledger_remove [watch_simps]: "held (ledger_remove r l) = held l - {#r#}"
  and sound_ledger_remove [watch_simps]: "sound (ledger_remove r l) = (sound l \<and> r \<in># held l)"
  by (simp_all add: ledger_add_def ledger_remove_def)

lemma gaining_apply [watch_simps]:
  "gaining res f (w, l) = (fst (f w), (snd (f w),
     case fst (f w) of None \<Rightarrow> l | Some x \<Rightarrow> ledger_add (res x) l))"
  by (cases "f w") (simp add: gaining_def split: option.splits)

lemma losing_apply [watch_simps]:
  "losing r f (w, l) = (fst (f w), (snd (f w), ledger_remove r l))"
  by (cases "f w") (simp add: losing_def)

lemma tracked_verbs_sel [simp]:
  "ibv_open_device (tracked_verbs V) = (\<lambda>a. gaining R_dev (ibv_open_device V a))"
  "ibv_close_device (tracked_verbs V) = (\<lambda>a. losing (R_dev a) (ibv_close_device V a))"
  "ibv_alloc_pd (tracked_verbs V) = (\<lambda>a. gaining R_pd (ibv_alloc_pd V a))"
  "ibv_dealloc_pd (tracked_verbs V) = (\<lambda>a. losing (R_pd a) (ibv_dealloc_pd V a))"
  "ibv_create_comp_channel (tracked_verbs V) = (\<lambda>a. gaining (R_chan \<circ> channel_handle) (ibv_create_comp_channel V a))"
  "ibv_destroy_comp_channel (tracked_verbs V) = (\<lambda>a. losing ((R_chan \<circ> channel_handle) a) (ibv_destroy_comp_channel V a))"
  "ibv_create_cq (tracked_verbs V) = (\<lambda>a b c. gaining R_cq (ibv_create_cq V a b c))"
  "ibv_destroy_cq (tracked_verbs V) = (\<lambda>a. losing (R_cq a) (ibv_destroy_cq V a))"
  "ibv_create_qp (tracked_verbs V) = (\<lambda>a b. gaining (R_qp \<circ> qp_handle) (ibv_create_qp V a b))"
  "ibv_destroy_qp (tracked_verbs V) = (\<lambda>a. losing ((R_qp \<circ> qp_handle) a) (ibv_destroy_qp V a))"
  "ibv_reg_mr (tracked_verbs V) = (\<lambda>a b c d. gaining (R_mr \<circ> mr_handle) (ibv_reg_mr V a b c d))"
  "ibv_dereg_mr (tracked_verbs V) = (\<lambda>a. losing ((R_mr \<circ> mr_handle) a) (ibv_dereg_mr V a))"
  "ibv_get_device_list (tracked_verbs V) = unseen (ibv_get_device_list V)"
  "ibv_free_device_list (tracked_verbs V) = unseen (ibv_free_device_list V)"
  "ibv_get_device_name (tracked_verbs V) = ibv_get_device_name V"
  "ibv_query_port (tracked_verbs V) = (\<lambda>a b. unseen (ibv_query_port V a b))"
  "ibv_query_gid (tracked_verbs V) = (\<lambda>a b c. unseen (ibv_query_gid V a b c))"
  "ibv_req_notify_cq (tracked_verbs V) = (\<lambda>a. unseen (ibv_req_notify_cq V a))"
  "ibv_poll_cq (tracked_verbs V) = (\<lambda>a b. unseen (ibv_poll_cq V a b))"
  "ibv_get_cq_event (tracked_verbs V) = (\<lambda>a. unseen (ibv_get_cq_event V a))"
  "ibv_ack_cq_events (tracked_verbs V) = (\<lambda>a b. unseen (ibv_ack_cq_events V a b))"
  "ibv_modify_qp (tracked_verbs V) = (\<lambda>a b c. unseen (ibv_modify_qp V a b c))"
  "ibv_create_srq (tracked_verbs V) = (\<lambda>a b c. unseen (ibv_create_srq V a b c))"
  "ibv_post_srq_recv (tracked_verbs V) = (\<lambda>a b. unseen (ibv_post_srq_recv V a b))"
  "ibv_post_send (tracked_verbs V) = (\<lambda>a b. unseen (ibv_post_send V a b))"
  "ibv_post_recv (tracked_verbs V) = (\<lambda>a b. unseen (ibv_post_recv V a b))"
  by (simp_all add: tracked_verbs_def)

lemma tracked_sys_sel [simp]:
  "sys_alloc (tracked_sys S) = gaining R_mem (sys_alloc S)"
  "sys_free (tracked_sys S) = (\<lambda>a. losing (R_mem a) (sys_free S a))"
  "sys_memalign (tracked_sys S) = (\<lambda>a b. unseen (sys_memalign S a b))"
  "sys_free_buf (tracked_sys S) = (\<lambda>a. unseen (sys_free_buf S a))"
  "sys_page_size (tracked_sys S) = unseen (sys_page_size S)"
  "sys_lrand48 (tracked_sys S) = unseen (sys_lrand48 S)"
  "sys_getaddrinfo (tracked_sys S) = (\<lambda>a b. unseen (sys_getaddrinfo S a b))"
  "sys_freeaddrinfo (tracked_sys S) = unseen (sys_freeaddrinfo S)"
  "sys_socket (tracked_sys S) = (\<lambda>a. unseen (sys_socket S a))"
  "sys_setsockopt (tracked_sys S) = (\<lambda>a. unseen (sys_setsockopt S a))"
  "sys_connect (tracked_sys S) = (\<lambda>a b. unseen (sys_connect S a b))"
  "sys_bind (tracked_sys S) = (\<lambda>a b. unseen (sys_bind S a b))"
  "sys_listen (tracked_sys S) = (\<lambda>a b. unseen (sys_listen S a b))"
  "sys_accept (tracked_sys S) = (\<lambda>a. unseen (sys_accept S a))"
  "sys_peer_host (tracked_sys S) = (\<lambda>a. unseen (sys_peer_host S a))"
  "sys_close (tracked_sys S) = (\<lambda>a. unseen (sys_close S a))"
  "sys_write (tracked_sys S) = (\<lambda>a b. unseen (sys_write S a b))"
  "sys_read (tracked_sys S) = (\<lambda>a b. unseen (sys_read S a b))"
  by (simp_all add: tracked_sys_def)

section \<open>Objects with a builder and a destructor\<close>

text \<open>
  The contract of a routine that builds an object out of boundary resources and of the
  routine that takes it down: what a successful build adds to the ledger is what a
  successful destroy removes.
\<close>

locale lifecycle =
  fixes build :: "'a \<Rightarrow> ('w \<times> ledger, 'r option) prog"
    and destroy :: "'r \<Rightarrow> ('w \<times> ledger, int) prog"
    and res :: "'r \<Rightarrow> resource multiset"
  assumes build_holds: "build a (w, l) = (Inr (Some r), (w', l')) \<Longrightarrow>
      held l' = held l + res r \<and> sound l' = sound l"
    and destroy_releases: "destroy r (w, l) = (Inr 0, (w', l')) \<Longrightarrow> res r \<subseteq># held l \<Longrightarrow>
      held l' = held l - res r \<and> sound l' = sound l"
begin

lemma build_destroy:
  assumes "build a (w, l) = (Inr (Some r), (w1, l1))" and "destroy r (w1, l1) = (Inr 0, (w2, l2))"
  shows "held l2 = held l" and "sound l2 = sound l"
  using build_holds [OF assms(1)] destroy_releases [OF assms(2)] by simp_all

text \<open>Other objects built in between are left alone.\<close>

lemma build_build_destroy:
  assumes "build a (w, l) = (Inr (Some r), (w1, l1))" and "build b (w1, l1) = (Inr (Some s), (w2, l2))"
    and "destroy r (w2, l2) = (Inr 0, (w3, l3))"
  shows "held l3 = held l + res s" and "sound l3 = sound l"
  using build_holds [OF assms(1)] build_holds [OF assms(2)] destroy_releases [OF assms(3)]
  by (simp_all add: add.commute add.left_commute subset_mset.add_increasing2)

end

end
