(* ===== verification/SampleEnv.thy ===== *)
theory SampleEnv
  imports Ledger
begin

text \<open>
  A concrete environment in which every call succeeds and every new object gets a fresh
  handle: the outside state is the next handle. The closed instances of theorems with
  hypotheses about the environment are evaluated in it, or in a variation of it.
\<close>

definition sample_verbs :: "nat verbs" where
  "sample_verbs = \<lparr>
     ibv_get_device_list = (\<lambda>w. (Some [7, 8], w)),
     ibv_free_device_list = (\<lambda>w. ((), w)),
     ibv_get_device_name = (\<lambda>a. if a = 7 then ''mlx4_0'' else ''mlx5_0''),
     ibv_open_device = (\<lambda>a w. (Some w, Suc w)),
     ibv_close_device = (\<lambda>a w. (0, w)),
     ibv_query_port = (\<lambda>a b w. ((0, \<lparr>pa_state = IBV_PORT_ACTIVE, pa_lid = 9, pa_link_layer = IBV_LINK_LAYER_ETHERNET\<rparr>), w)),
     ibv_query_gid = (\<lambda>a b c w. ((0, gid_zero), w)),
     ibv_alloc_pd = (\<lambda>a w. (Some w, Suc w)),
     ibv_dealloc_pd = (\<lambda>a w. (0, w)),
     ibv_create_comp_channel = (\<lambda>a w. (Some \<lparr>channel_handle = w, channel_fd = 5\<rparr>, Suc w)),
     ibv_destroy_comp_channel = (\<lambda>a w. (0, w)),
     ibv_create_cq = (\<lambda>a b c w. (Some w, Suc w)),
     ibv_destroy_cq = (\<lambda>a w. (0, w)),
     ibv_req_notify_cq = (\<lambda>a w. (0, w)),
     ibv_poll_cq = (\<lambda>a b w. (Completions [], w)),
     ibv_get_cq_event = (\<lambda>a w. ((0, 0), w)),
     ibv_ack_cq_events = (\<lambda>a b w. ((), w)),
     ibv_create_qp = (\<lambda>a b w. (Some \<lparr>qp_handle = w, qp_num = 21\<rparr>, Suc w)),
     ibv_destroy_qp = (\<lambda>a w. (0, w)),
     ibv_modify_qp = (\<lambda>a b c w. (0, w)),
     ibv_create_srq = (\<lambda>a b c w. (Some w, Suc w)),
     ibv_post_srq_recv = (\<lambda>a b w. (0, w)),
     ibv_post_send = (\<lambda>a b w. (0, w)),
     ibv_post_recv = (\<lambda>a b w. (0, w)),
     ibv_reg_mr = (\<lambda>a b c d w. (Some \<lparr>mr_handle = w, mr_addr = b, mr_lkey = 1, mr_rkey = 2\<rparr>, Suc w)),
     ibv_dereg_mr = (\<lambda>a w. (0, w))\<rparr>"

definition sample_sys :: "nat sys" where
  "sample_sys = \<lparr>
     sys_alloc = (\<lambda>w. (Some w, Suc w)),
     sys_free = (\<lambda>a w. ((), w)),
     sys_memalign = (\<lambda>a b w. (Some 4096, w)),
     sys_free_buf = (\<lambda>a w. ((), w)),
     sys_page_size = (\<lambda>w. (4096, w)),
     sys_lrand48 = (\<lambda>w. (12345, w)),
     sys_getaddrinfo = (\<lambda>a b w. ((0, [1]), w)),
     sys_freeaddrinfo = (\<lambda>w. ((), w)),
     sys_socket = (\<lambda>a w. (3, w)),
     sys_setsockopt = (\<lambda>a w. (0, w)),
     sys_connect = (\<lambda>a b w. (0, w)),
     sys_bind = (\<lambda>a b w. (0, w)),
     sys_listen = (\<lambda>a b w. (0, w)),
     sys_accept = (\<lambda>a w. (4, w)),
     sys_peer_host = (\<lambda>a w. (Some ''10.0.0.1'', w)),
     sys_close = (\<lambda>a w. (0, w)),
     sys_write = (\<lambda>a b w. (int (length b), w)),
     sys_read = (\<lambda>a b w. ((int b, replicate b NUL), w))\<rparr>"

text \<open>A device whose ports are down.\<close>

definition dead_port :: ibv_port_attr where
  "dead_port =
     \<lparr>pa_state = IBV_PORT_not_active 1, pa_lid = 9, pa_link_layer = IBV_LINK_LAYER_ETHERNET\<rparr>"

definition dead_ports_verbs :: "nat verbs" where
  "dead_ports_verbs = sample_verbs\<lparr>ibv_query_port := (\<lambda>a b w. ((0, dead_port), w))\<rparr>"

end
