(* ===== verification/SocketContext.thy ===== *)
theory SocketContext
  imports Pingpong SampleEnv
begin

text \<open>
  \<open>debug/rdma_socket.h\<close> and the first part of \<open>debug/rdma_socket.c\<close>: the context of one
  connection, how it is built from verbs objects (\<open>init_rdma_context\<close>), torn down
  (\<open>rdma_close_ctx\<close>), how memory is registered with it, and how a device is found.

  The lemmas account for every verbs object and the context's memory on every path: an
  environment that logs what is opened and closed is wrapped around an arbitrary one, and the
  objects still open at the end are computed.
\<close>

section \<open>Data\<close>

record rdma_mem =
  rm_mr :: ibv_mr
  rm_buf :: u64
  rm_size :: size_t
  rm_ptr :: handle

record rdma_task =
  task_mem :: rdma_mem
  task_opcode :: ibv_wr_opcode
  task_size :: size_t
  task_rkey :: u32
  task_remote_addr :: u64
  task_id :: u64

record info_con =
  ic_lid :: u32
  ic_qpn :: u32
  ic_psn :: u32
  ic_rkey :: u32
  ic_addr :: u64
  ic_gid :: ibv_gid

record init_params =
  p_port :: int
  p_ib_port :: int
  p_gidx :: int
  p_use_event :: int
  p_rx_depth :: int
  p_sockfd :: int
  p_mem_size :: size_t
  p_mtu :: ibv_mtu
  p_ib_devname :: "string option"
  p_sr :: int

text \<open>\<open>ctx_ptr\<close> is the address of the structure itself; null pointers are \<open>None\<close>.\<close>

record rdma_context =
  ctx_ptr :: handle
  ctx_context :: "handle option"
  ctx_channel :: "ibv_comp_channel option"
  ctx_pd :: "handle option"
  ctx_recv_cq :: "handle option"
  ctx_send_cq :: "handle option"
  ctx_qp :: "ibv_qp option"
  ctx_remote_info :: "info_con option"
  ctx_id :: int
  ctx_pending :: int
  ctx_page_size :: int
  ctx_ib_port :: int
  ctx_portinfo :: ibv_port_attr
  ctx_rw :: "rdma_mem option"
  ctx_fd :: int
  ctx_peer_host :: "string option"

definition port_attr_zero :: ibv_port_attr where
  "port_attr_zero =
     \<lparr>pa_state = IBV_PORT_not_active 0, pa_lid = 0, pa_link_layer = IBV_LINK_LAYER_UNSPECIFIED\<rparr>"

text \<open>A context fresh from \<open>calloc\<close>.\<close>

definition ctx_zero :: "handle \<Rightarrow> rdma_context" where
  "ctx_zero p = \<lparr>ctx_ptr = p, ctx_context = None, ctx_channel = None, ctx_pd = None,
     ctx_recv_cq = None, ctx_send_cq = None, ctx_qp = None, ctx_remote_info = None, ctx_id = 0,
     ctx_pending = 0, ctx_page_size = 0, ctx_ib_port = 0, ctx_portinfo = port_attr_zero,
     ctx_rw = None, ctx_fd = 0, ctx_peer_host = None\<rparr>"

section \<open>Building a context\<close>

text \<open>
  The labels of \<open>init_rdma_context\<close>, from the last to the first: each releases its object
  and falls through to the next.
\<close>

definition clean_ctx :: "'w sys \<Rightarrow> rdma_context \<Rightarrow> ('w, rdma_context option) prog" where
  "clean_ctx S ctx = bnd (call (sys_free S (ctx_ptr ctx))) (\<lambda>_. ret None)"

definition clean_device ::
    "'w verbs \<Rightarrow> 'w sys \<Rightarrow> rdma_context \<Rightarrow> ('w, rdma_context option) prog" where
  "clean_device V S ctx =
     bnd (deref (ctx_context ctx)) (\<lambda>c.
     bnd (call (ibv_close_device V c)) (\<lambda>_. clean_ctx S ctx))"

definition clean_comp_channel ::
    "'w verbs \<Rightarrow> 'w sys \<Rightarrow> rdma_context \<Rightarrow> ('w, rdma_context option) prog" where
  "clean_comp_channel V S ctx =
     (case ctx_channel ctx of
        None \<Rightarrow> clean_device V S ctx
      | Some ch \<Rightarrow> bnd (call (ibv_destroy_comp_channel V ch)) (\<lambda>_. clean_device V S ctx))"

definition clean_pd ::
    "'w verbs \<Rightarrow> 'w sys \<Rightarrow> rdma_context \<Rightarrow> ('w, rdma_context option) prog" where
  "clean_pd V S ctx =
     bnd (deref (ctx_pd ctx)) (\<lambda>pd.
     bnd (call (ibv_dealloc_pd V pd)) (\<lambda>_. clean_comp_channel V S ctx))"

definition clean_cq ::
    "'w verbs \<Rightarrow> 'w sys \<Rightarrow> rdma_context \<Rightarrow> ('w, rdma_context option) prog" where
  "clean_cq V S ctx =
     bnd (deref (ctx_send_cq ctx)) (\<lambda>scq.
     bnd (call (ibv_destroy_cq V scq)) (\<lambda>_.
     bnd (deref (ctx_recv_cq ctx)) (\<lambda>rcq.
     bnd (call (ibv_destroy_cq V rcq)) (\<lambda>_. clean_pd V S ctx))))"

definition clean_qp ::
    "'w verbs \<Rightarrow> 'w sys \<Rightarrow> rdma_context \<Rightarrow> ('w, rdma_context option) prog" where
  "clean_qp V S ctx =
     bnd (deref (ctx_qp ctx)) (\<lambda>qp.
     bnd (call (ibv_destroy_qp V qp)) (\<lambda>_. clean_cq V S ctx))"

text \<open>The two probes for an active port: \<open>None\<close> is an early \<open>return NULL\<close>.\<close>

definition probe_port ::
    "'w verbs \<Rightarrow> handle \<Rightarrow> rdma_context \<Rightarrow> ('w, rdma_context option) prog" where
  "probe_port V c ctx =
     bnd (call (ibv_query_port V c 1)) (\<lambda>(r, info).
     if r \<noteq> 0 then ret None
     else if pa_state info = IBV_PORT_ACTIVE
     then ret (Some (ctx\<lparr>ctx_portinfo := info, ctx_ib_port := 1\<rparr>))
     else
       bnd (call (ibv_query_port V c 2)) (\<lambda>(r2, info2).
       if r2 \<noteq> 0 then ret None
       else if pa_state info2 \<noteq> IBV_PORT_ACTIVE then ret None
       else ret (Some (ctx\<lparr>ctx_portinfo := info2, ctx_ib_port := 2\<rparr>))))"

definition init_attr :: "handle \<Rightarrow> handle \<Rightarrow> int \<Rightarrow> ibv_qp_init_attr" where
  "init_attr send_cq recv_cq rx_depth =
     \<lparr>qia_send_cq = send_cq, qia_recv_cq = recv_cq, qia_srq = None, qia_max_send_wr = 10000,
      qia_max_recv_wr = of_int rx_depth, qia_max_send_sge = 1, qia_max_recv_sge = 1,
      qia_max_inline_data = 0, qia_qp_type = IBV_QPT_RC, qia_sq_sig_all = 0\<rparr>"

definition to_init_attr :: "int \<Rightarrow> ibv_qp_attr" where
  "to_init_attr port = qp_attr_zero\<lparr>qp_state := IBV_QPS_INIT, pkey_index := 0, port_num := of_int port,
     qp_access_flags := [IBV_ACCESS_REMOTE_WRITE, IBV_ACCESS_REMOTE_READ]\<rparr>"

definition to_init_mask :: "ibv_qp_attr_mask list" where
  "to_init_mask = [IBV_QP_STATE, IBV_QP_PKEY_INDEX, IBV_QP_PORT, IBV_QP_ACCESS_FLAGS]"

text \<open>The queue pair and its INIT state, once both completion queues exist.\<close>

definition init_queue_pair ::
    "'w verbs \<Rightarrow> 'w sys \<Rightarrow> handle \<Rightarrow> handle \<Rightarrow> handle \<Rightarrow> int \<Rightarrow> rdma_context \<Rightarrow>
     ('w, rdma_context option) prog" where
  "init_queue_pair V S pdh rcqh scqh rx_depth ctx =
     bnd (call (ibv_create_qp V pdh (init_attr scqh rcqh rx_depth))) (\<lambda>qp.
     case qp of None \<Rightarrow> clean_cq V S ctx | Some q \<Rightarrow>
     let ctx = ctx\<lparr>ctx_qp := Some q\<rparr> in
     bnd (call (ibv_modify_qp V q (to_init_attr (ctx_ib_port ctx)) to_init_mask)) (\<lambda>r.
     if r \<noteq> 0 then clean_qp V S ctx else ret (Some ctx)))"

text \<open>The protection domain and the two completion queues.\<close>

definition init_queues ::
    "'w verbs \<Rightarrow> 'w sys \<Rightarrow> handle \<Rightarrow> int \<Rightarrow> rdma_context \<Rightarrow> ('w, rdma_context option) prog" where
  "init_queues V S c rx_depth ctx =
     bnd (call (ibv_alloc_pd V c)) (\<lambda>pd.
     case pd of None \<Rightarrow> clean_comp_channel V S ctx | Some pdh \<Rightarrow>
     let ctx = ctx\<lparr>ctx_pd := Some pdh\<rparr> in
     bnd (call (ibv_create_cq V c (rx_depth + 1) (ctx_channel ctx))) (\<lambda>rcq.
     bnd (call (ibv_create_cq V c (rx_depth + 1) None)) (\<lambda>scq.
     let ctx = ctx\<lparr>ctx_recv_cq := rcq, ctx_send_cq := scq\<rparr> in
     case (rcq, scq) of
       (Some rcqh, Some scqh) \<Rightarrow> init_queue_pair V S pdh rcqh scqh rx_depth ctx
     | _ \<Rightarrow> clean_pd V S ctx)))"

text \<open>The completion channel, when events are asked for, then the queues.\<close>

definition init_channel ::
    "'w verbs \<Rightarrow> 'w sys \<Rightarrow> handle \<Rightarrow> int \<Rightarrow> int \<Rightarrow> rdma_context \<Rightarrow> ('w, rdma_context option) prog" where
  "init_channel V S ch rx_depth use_event ctx =
     (if use_event \<noteq> 0
      then bnd (call (ibv_create_comp_channel V ch)) (\<lambda>chan.
           case chan of None \<Rightarrow> clean_device V S ctx
           | Some cc \<Rightarrow> init_queues V S ch rx_depth (ctx\<lparr>ctx_channel := Some cc\<rparr>))
      else init_queues V S ch rx_depth (ctx\<lparr>ctx_channel := None\<rparr>))"

text \<open>
  \<open>port\<close> is overwritten with the active port before it is used, and \<open>is_server\<close> is not
  used at all.
\<close>

definition init_rdma_context ::
    "'w verbs \<Rightarrow> 'w sys \<Rightarrow> handle \<Rightarrow> int \<Rightarrow> int \<Rightarrow> int \<Rightarrow> int \<Rightarrow> ('w, rdma_context option) prog" where
  "init_rdma_context V S ib_dev rx_depth port use_event is_server =
     bnd (call (sys_alloc S)) (\<lambda>p.
     case p of None \<Rightarrow> ret None | Some ptr \<Rightarrow>
     let ctx = ctx_zero ptr in
     bnd (call (ibv_open_device V ib_dev)) (\<lambda>c.
     case c of None \<Rightarrow> clean_ctx S ctx | Some ch \<Rightarrow>
     bnd (probe_port V ch (ctx\<lparr>ctx_context := Some ch\<rparr>)) (\<lambda>probed.
     case probed of None \<Rightarrow> ret None
     | Some ctx \<Rightarrow> init_channel V S ch rx_depth use_event ctx)))"

definition rdma_close_ctx :: "'w verbs \<Rightarrow> 'w sys \<Rightarrow> rdma_context \<Rightarrow> ('w, int) prog" where
  "rdma_close_ctx V S ctx =
     bnd (deref (ctx_qp ctx)) (\<lambda>qp.
     bnd (call (ibv_destroy_qp V qp)) (\<lambda>r.
     if r \<noteq> 0 then ret 1 else
     bnd (deref (ctx_send_cq ctx)) (\<lambda>scq.
     bnd (call (ibv_destroy_cq V scq)) (\<lambda>r.
     if r \<noteq> 0 then ret 1 else
     bnd (deref (ctx_recv_cq ctx)) (\<lambda>rcq.
     bnd (call (ibv_destroy_cq V rcq)) (\<lambda>r.
     if r \<noteq> 0 then ret 1 else
     bnd (deref (ctx_pd ctx)) (\<lambda>pd.
     bnd (call (ibv_dealloc_pd V pd)) (\<lambda>r.
     if r \<noteq> 0 then ret 1 else
     bnd (case ctx_channel ctx of None \<Rightarrow> ret 0
          | Some ch \<Rightarrow> call (ibv_destroy_comp_channel V ch)) (\<lambda>r.
     if r \<noteq> 0 then ret 1 else
     bnd (deref (ctx_context ctx)) (\<lambda>c.
     bnd (call (ibv_close_device V c)) (\<lambda>r.
     if r \<noteq> 0 then ret 1 else
     bnd (call (sys_free S (ctx_ptr ctx))) (\<lambda>_. ret 0))))))))))))"

section \<open>Registered memory, finding a device\<close>

definition rdma_reg_mr ::
    "'w verbs \<Rightarrow> 'w sys \<Rightarrow> rdma_context \<Rightarrow> u64 \<Rightarrow> size_t \<Rightarrow> ('w, rdma_mem option) prog" where
  "rdma_reg_mr V S ctx buf sz =
     bnd (deref (ctx_pd ctx)) (\<lambda>pd.
     bnd (call (ibv_reg_mr V pd buf sz
            [IBV_ACCESS_LOCAL_WRITE, IBV_ACCESS_REMOTE_WRITE, IBV_ACCESS_REMOTE_READ])) (\<lambda>m.
     case m of None \<Rightarrow> ret None | Some mr \<Rightarrow>
     bnd (call (sys_alloc S)) (\<lambda>p.
     bnd (deref p) (\<lambda>ptr.
     ret (Some \<lparr>rm_mr = mr, rm_buf = buf, rm_size = sz, rm_ptr = ptr\<rparr>)))))"

definition rdma_dereg_mr :: "'w verbs \<Rightarrow> 'w sys \<Rightarrow> rdma_mem option \<Rightarrow> ('w, int) prog" where
  "rdma_dereg_mr V S mem =
     bnd (deref mem) (\<lambda>m.
     bnd (call (ibv_dereg_mr V (rm_mr m))) (\<lambda>r.
     if r \<noteq> 0 then ret (- 1)
     else bnd (call (sys_free S (rm_ptr m))) (\<lambda>_. ret 0)))"

fun link_layer_str :: "ibv_link_layer \<Rightarrow> string" where
  "link_layer_str IBV_LINK_LAYER_UNSPECIFIED = ''IB''"
| "link_layer_str IBV_LINK_LAYER_INFINIBAND = ''IB''"
| "link_layer_str IBV_LINK_LAYER_ETHERNET = ''Ethernet''"
| "link_layer_str (IBV_LINK_LAYER_other _) = ''Unknown''"

text \<open>
  The loop of \<open>get_device\<close> over the device list. A failed \<open>ibv_open_device\<close> gives a null
  context that \<open>ibv_query_port\<close> then dereferences, and a search that finds nothing runs off
  the end of a function that has to return a value.
\<close>

fun get_device_loop :: "'w verbs \<Rightarrow> string \<Rightarrow> handle list \<Rightarrow> ('w, string) prog" where
  "get_device_loop V name [] = fail Undefined_behaviour"
| "get_device_loop V name (d # ds) =
     bnd (call (ibv_open_device V d)) (\<lambda>c.
     bnd (deref c) (\<lambda>ch.
     bnd (call (ibv_query_port V ch 1)) (\<lambda>(r, attr).
     if r = 0 \<and> name = link_layer_str (pa_link_layer attr) then ret (ibv_get_device_name V d)
     else get_device_loop V name ds)))"

definition get_device :: "'w verbs \<Rightarrow> string \<Rightarrow> ('w, string) prog" where
  "get_device V name =
     bnd (call (ibv_get_device_list V)) (\<lambda>l.
     bnd (deref l) (get_device_loop V name))"

section \<open>Accounting\<close>

definition opt_res :: "('x \<Rightarrow> resource) \<Rightarrow> 'x option \<Rightarrow> resource multiset" where
  "opt_res f x = (case x of None \<Rightarrow> {#} | Some y \<Rightarrow> {#f y#})"

lemma opt_res_simps [simp]: "opt_res f None = {#}" "opt_res f (Some y) = {#f y#}"
  by (simp_all add: opt_res_def)

text \<open>The objects a context owns: those its fields point to, and its own memory.\<close>

definition ctx_resources :: "rdma_context \<Rightarrow> resource multiset" where
  "ctx_resources ctx = {#R_mem (ctx_ptr ctx)#} + opt_res R_dev (ctx_context ctx)
     + opt_res (R_chan \<circ> channel_handle) (ctx_channel ctx) + opt_res R_pd (ctx_pd ctx)
     + opt_res R_cq (ctx_recv_cq ctx) + opt_res R_cq (ctx_send_cq ctx)
     + opt_res (R_qp \<circ> qp_handle) (ctx_qp ctx)"

text \<open>A complete context, as \<open>init_rdma_context\<close> returns it.\<close>

definition ctx_wf :: "rdma_context \<Rightarrow> bool" where
  "ctx_wf ctx \<longleftrightarrow> ctx_context ctx \<noteq> None \<and> ctx_pd ctx \<noteq> None \<and> ctx_recv_cq ctx \<noteq> None
     \<and> ctx_send_cq ctx \<noteq> None \<and> ctx_qp ctx \<noteq> None"

text \<open>
  What running a clean-up label does: it returns NULL and releases the given objects, each of
  which is held.
\<close>

definition releases :: "('w \<times> ledger, rdma_context option) prog \<Rightarrow> resource multiset \<Rightarrow> bool" where
  "releases m R \<longleftrightarrow> (\<forall>w l. R \<subseteq># held l \<longrightarrow>
     (\<exists>w' l'. m (w, l) = (Inr None, (w', l')) \<and> held l' = held l - R \<and> sound l' = sound l))"

lemma releasesD:
  "releases m R \<Longrightarrow> R \<subseteq># held l \<Longrightarrow>
   \<exists>w' l'. m (w, l) = (Inr None, (w', l')) \<and> held l' = held l - R \<and> sound l' = sound l"
  by (simp add: releases_def)

text \<open>One release in front of a label.\<close>

lemma releases_losing:
  assumes "releases m R"
  shows "releases (bnd (call (losing r f)) (\<lambda>_. m)) (add_mset r R)"
  unfolding releases_def
proof (intro allI impI)
  fix w and l :: ledger assume sub: "add_mset r R \<subseteq># held l"
  then have "R \<subseteq># held (ledger_remove r l)" and r: "r \<in># held l"
    by (auto simp: watch_simps insert_subset_eq_iff)
  from releasesD [OF assms this(1), of "snd (f w)"] r
  show "\<exists>w' l'. bnd (call (losing r f)) (\<lambda>_. m) (w, l) = (Inr None, (w', l')) \<and>
      held l' = held l - add_mset r R \<and> sound l' = sound l"
    by (auto simp: prog_simps watch_simps)
qed

lemma releases_losing_eq:
  "releases m R \<Longrightarrow> R' = add_mset r R \<Longrightarrow> releases (bnd (call (losing r f)) (\<lambda>_. m)) R'"
  using releases_losing by simp

lemma releases_ret_None: "releases (ret None) {#}"
  by (simp add: releases_def ret_def)

lemma releases_clean_ctx: "releases (clean_ctx (tracked_sys S) ctx) {#R_mem (ctx_ptr ctx)#}"
  by (simp add: clean_ctx_def releases_losing [OF releases_ret_None])

lemma releases_clean_device:
  "ctx_context ctx = Some c \<Longrightarrow>
   releases (clean_device (tracked_verbs V) (tracked_sys S) ctx) {#R_dev c, R_mem (ctx_ptr ctx)#}"
  using releases_losing [OF releases_clean_ctx]
  by (simp add: clean_device_def deref_def)

lemma releases_clean_comp_channel:
  "ctx_context ctx = Some c \<Longrightarrow>
   releases (clean_comp_channel (tracked_verbs V) (tracked_sys S) ctx)
     (opt_res (R_chan \<circ> channel_handle) (ctx_channel ctx) + {#R_dev c, R_mem (ctx_ptr ctx)#})"
  by (auto simp: clean_comp_channel_def split: option.splits
      intro: releases_clean_device releases_losing_eq [OF releases_clean_device])

lemma releases_clean_pd:
  "ctx_context ctx = Some c \<Longrightarrow> ctx_pd ctx = Some pd \<Longrightarrow>
   releases (clean_pd (tracked_verbs V) (tracked_sys S) ctx)
     (add_mset (R_pd pd) (opt_res (R_chan \<circ> channel_handle) (ctx_channel ctx)
        + {#R_dev c, R_mem (ctx_ptr ctx)#}))"
  using releases_losing [OF releases_clean_comp_channel]
  by (simp add: clean_pd_def deref_def)

lemma releases_clean_cq:
  "ctx_context ctx = Some c \<Longrightarrow> ctx_pd ctx = Some pd \<Longrightarrow> ctx_send_cq ctx = Some scq \<Longrightarrow>
   ctx_recv_cq ctx = Some rcq \<Longrightarrow>
   releases (clean_cq (tracked_verbs V) (tracked_sys S) ctx)
     (add_mset (R_cq scq) (add_mset (R_cq rcq) (add_mset (R_pd pd)
       (opt_res (R_chan \<circ> channel_handle) (ctx_channel ctx) + {#R_dev c, R_mem (ctx_ptr ctx)#}))))"
  using releases_losing [OF releases_losing [OF releases_clean_pd]]
  by (simp add: clean_cq_def deref_def)

lemma releases_clean_qp:
  "ctx_wf ctx \<Longrightarrow>
   releases (clean_qp (tracked_verbs V) (tracked_sys S) ctx) (ctx_resources ctx)"
  by (auto simp: clean_qp_def deref_def ctx_wf_def ctx_resources_def
      intro!: releases_losing_eq [OF releases_clean_cq])

lemma releases_rest:
  "releases m R \<Longrightarrow> held l = R + X \<Longrightarrow>
   \<exists>w' l'. m (w, l) = (Inr None, (w', l')) \<and> held l' = X \<and> sound l' = sound l"
  using releasesD [of m R l w] by auto

text \<open>
  How far a construction gets, read off the answers of the environment alone: what could not be
  obtained, or the finished context. \<open>No_port\<close> has the memory and the device, \<open>No_cq\<close> the two
  answers of \<open>ibv_create_cq\<close>.
\<close>

datatype stage = No_memory | No_device | No_port handle handle | No_channel | No_pd
  | No_cq "handle option" "handle option" | No_qp | Not_init | Built rdma_context

definition queue_pair_stage :: "'w verbs \<Rightarrow> handle \<Rightarrow> handle \<Rightarrow> handle \<Rightarrow> int \<Rightarrow> rdma_context \<Rightarrow> 'w \<Rightarrow> stage" where
  "queue_pair_stage V pd rcq scq rx ctx w =
     (case ibv_create_qp V pd (init_attr scq rcq rx) w of
        (None, w1) \<Rightarrow> No_qp
      | (Some q, w1) \<Rightarrow>
          if fst (ibv_modify_qp V q (to_init_attr (ctx_ib_port ctx)) to_init_mask w1) \<noteq> 0 then Not_init
          else Built (ctx\<lparr>ctx_qp := Some q\<rparr>))"

definition queues_stage :: "'w verbs \<Rightarrow> handle \<Rightarrow> int \<Rightarrow> rdma_context \<Rightarrow> 'w \<Rightarrow> stage" where
  "queues_stage V c rx ctx w =
     (case ibv_alloc_pd V c w of
        (None, w1) \<Rightarrow> No_pd
      | (Some pd, w1) \<Rightarrow>
          (case ibv_create_cq V c (rx + 1) (ctx_channel ctx) w1 of (rcq, w2) \<Rightarrow>
           case ibv_create_cq V c (rx + 1) None w2 of (scq, w3) \<Rightarrow>
           if rcq = None \<or> scq = None then No_cq rcq scq
           else queue_pair_stage V pd (the rcq) (the scq) rx
             (ctx\<lparr>ctx_pd := Some pd, ctx_recv_cq := rcq, ctx_send_cq := scq\<rparr>) w3))"

definition channel_stage :: "'w verbs \<Rightarrow> handle \<Rightarrow> int \<Rightarrow> int \<Rightarrow> rdma_context \<Rightarrow> 'w \<Rightarrow> stage" where
  "channel_stage V c rx use_event ctx w =
     (if use_event = 0 then queues_stage V c rx (ctx\<lparr>ctx_channel := None\<rparr>) w
      else case ibv_create_comp_channel V c w of
        (None, w1) \<Rightarrow> No_channel
      | (Some cc, w1) \<Rightarrow> queues_stage V c rx (ctx\<lparr>ctx_channel := Some cc\<rparr>) w1)"

text \<open>The first of the ports 1 and 2 that is active; port 2 is asked only when port 1 is down.\<close>

definition usable_port :: "'w verbs \<Rightarrow> handle \<Rightarrow> 'w \<Rightarrow> (int \<times> ibv_port_attr) option \<times> 'w" where
  "usable_port V c w =
     (case ibv_query_port V c 1 w of ((r, info), w1) \<Rightarrow>
      if r \<noteq> 0 then (None, w1)
      else if pa_state info = IBV_PORT_ACTIVE then (Some (1, info), w1)
      else case ibv_query_port V c 2 w1 of ((r2, info2), w2) \<Rightarrow>
        (if r2 = 0 \<and> pa_state info2 = IBV_PORT_ACTIVE then Some (2, info2) else None, w2))"

definition init_stage :: "'w verbs \<Rightarrow> 'w sys \<Rightarrow> handle \<Rightarrow> int \<Rightarrow> int \<Rightarrow> 'w \<Rightarrow> stage" where
  "init_stage V S dev rx use_event w =
     (case sys_alloc S w of
        (None, w1) \<Rightarrow> No_memory
      | (Some p, w1) \<Rightarrow>
          (case ibv_open_device V dev w1 of
             (None, w2) \<Rightarrow> No_device
           | (Some c, w2) \<Rightarrow>
               (case usable_port V c w2 of
                  (None, w3) \<Rightarrow> No_port p c
                | (Some (i, info), w3) \<Rightarrow> channel_stage V c rx use_event
                    ((ctx_zero p)\<lparr>ctx_context := Some c, ctx_portinfo := info, ctx_ib_port := i\<rparr>) w3)))"

text \<open>What is left open after each of them.\<close>

definition stage_held :: "stage \<Rightarrow> resource multiset" where
  "stage_held st =
     (case st of Built ctx \<Rightarrow> ctx_resources ctx | No_port p c \<Rightarrow> {#R_mem p, R_dev c#}
      | No_cq rcq scq \<Rightarrow> opt_res R_cq rcq + opt_res R_cq scq | _ \<Rightarrow> {#})"

definition stage_result :: "stage \<Rightarrow> rdma_context option" where
  "stage_result st = (case st of Built ctx \<Rightarrow> Some ctx | _ \<Rightarrow> None)"

lemmas stage_simps = stage_held_def stage_result_def

text \<open>The outcome of building, with \<open>X\<close> held besides the parts of the unfinished context.\<close>

definition build_outcome ::
    "stage \<Rightarrow> resource multiset \<Rightarrow> ledger \<Rightarrow> (fault + rdma_context option) \<times> ('w \<times> ledger) \<Rightarrow> bool" where
  "build_outcome st X l out \<longleftrightarrow> (\<exists>w' l'. out = (Inr (stage_result st), (w', l')) \<and> sound l' = sound l
     \<and> held l' = X + stage_held st \<and> (\<forall>ctx. st = Built ctx \<longrightarrow> ctx_wf ctx))"

lemma build_outcome_label:
  assumes "releases m R" and "held l = R + (X + stage_held st)" and "stage_result st = None" and "sound l = sound l0"
  shows "build_outcome st X l0 (m (w, l))"
proof -
  obtain w' l' where "m (w, l) = (Inr None, (w', l'))" "held l' = X + stage_held st" "sound l' = sound l"
    using releases_rest [OF assms(1,2)] by blast
  then show ?thesis using assms(3,4) by (auto simp: build_outcome_def stage_result_def)
qed

lemma init_queue_pair_outcome:
  assumes f: "ctx_context ctx = Some c" "ctx_pd ctx = Some pd" "ctx_recv_cq ctx = Some rcq"
      "ctx_send_cq ctx = Some scq" "ctx_qp ctx = None"
    and l: "held l = X + ctx_resources ctx"
  shows "build_outcome (queue_pair_stage V pd rcq scq rx ctx w) X l
    (init_queue_pair (tracked_verbs V) (tracked_sys S) pd rcq scq rx ctx (w, l))"
proof (cases "ibv_create_qp V pd (init_attr scq rcq rx) w")
  case (Pair qp w1)
  show ?thesis
  proof (cases qp)
    case None
    then show ?thesis
      using build_outcome_label [OF releases_clean_cq [OF f(1,2,4,3)], of l X No_qp l] l f Pair
      by (simp add: prog_simps watch_simps init_queue_pair_def ctx_resources_def queue_pair_stage_def stage_simps)
  next
    case (Some q)
    define ctx' where "ctx' = ctx\<lparr>ctx_qp := Some q\<rparr>"
    have wf: "ctx_wf ctx'" and r: "ctx_resources ctx' = add_mset (R_qp (qp_handle q)) (ctx_resources ctx)"
      using f by (simp_all add: ctx'_def ctx_wf_def ctx_resources_def)
    define l' where "l' = ledger_add (R_qp (qp_handle q)) l"
    have l': "held l' = ctx_resources ctx' + X" "sound l' = sound l"
      by (simp_all add: l'_def watch_simps l r)
    have fail: "build_outcome Not_init X l (clean_qp (tracked_verbs V) (tracked_sys S) ctx' (w', l'))" for w'
      by (rule build_outcome_label [OF releases_clean_qp [OF wf] _ _ l'(2)]) (simp_all add: stage_simps l')
    have succ: "build_outcome (Built ctx') X l (Inr (Some ctx'), (w', l'))" for w' :: 'a
      using wf l' by (simp add: build_outcome_def stage_simps)
    from Pair Some fail succ show ?thesis
      by (auto simp: prog_simps watch_simps init_queue_pair_def queue_pair_stage_def Let_def ctx'_def l'_def)
  qed
qed

lemma init_queues_outcome:
  assumes c: "ctx_context ctx = Some c" and none: "ctx_qp ctx = None"
    and l: "held l = opt_res (R_chan \<circ> channel_handle) (ctx_channel ctx)
              + {#R_dev c, R_mem (ctx_ptr ctx)#} + X"
  shows "build_outcome (queues_stage V c rx ctx w) X l (init_queues (tracked_verbs V) (tracked_sys S) c rx ctx (w, l))"
proof (cases "ibv_alloc_pd V c w")
  case (Pair pdo w1)
  note step = prog_simps watch_simps init_queues_def queues_stage_def Let_def
  show ?thesis
  proof (cases pdo)
    case None
    then show ?thesis
      using build_outcome_label [OF releases_clean_comp_channel [OF c], of l X No_pd l] l Pair
      by (simp add: step stage_simps)
  next
    case (Some pd)
    obtain rcq w2 where r: "ibv_create_cq V c (rx + 1) (ctx_channel ctx) w1 = (rcq, w2)" by (metis prod.exhaust)
    obtain scq w3 where s: "ibv_create_cq V c (rx + 1) None w2 = (scq, w3)" by (metis prod.exhaust)
    define l1 where "l1 = ledger_add (R_pd pd) l"
    define l3 where "l3 = (let l2 = (case rcq of None \<Rightarrow> l1 | Some q \<Rightarrow> ledger_add (R_cq q) l1)
      in case scq of None \<Rightarrow> l2 | Some q \<Rightarrow> ledger_add (R_cq q) l2)"
    define ctx3 where "ctx3 = ctx\<lparr>ctx_pd := Some pd, ctx_recv_cq := rcq, ctx_send_cq := scq\<rparr>"
    have c3: "ctx_context ctx3 = Some c" "ctx_pd ctx3 = Some pd" "ctx_ptr ctx3 = ctx_ptr ctx"
      "ctx_channel ctx3 = ctx_channel ctx" "ctx_recv_cq ctx3 = rcq" "ctx_send_cq ctx3 = scq"
      by (simp_all add: ctx3_def c)
    have s3: "sound l3 = sound l"
      by (simp add: l3_def l1_def watch_simps Let_def split: option.splits)
    have h3: "held l3 = add_mset (R_pd pd) (opt_res (R_chan \<circ> channel_handle) (ctx_channel ctx)
        + {#R_dev c, R_mem (ctx_ptr ctx)#}) + (X + (opt_res R_cq rcq + opt_res R_cq scq))"
      by (simp add: l3_def l1_def watch_simps l Let_def split: option.splits)
    show ?thesis
    proof (cases "rcq = None \<or> scq = None")
      case True
      have "build_outcome (No_cq rcq scq) X l (clean_pd (tracked_verbs V) (tracked_sys S) ctx3 (w3, l3))"
        using h3 by (intro build_outcome_label [OF releases_clean_pd [OF c3(1,2)] _ _ s3]) (simp_all add: c3 stage_simps)
      then show ?thesis using True Pair Some r s
        by (cases rcq; cases scq) (auto simp: step l1_def l3_def ctx3_def)
    next
      case False
      then obtain rq sq where q: "rcq = Some rq" "scq = Some sq" by auto
      have "ctx_qp ctx3 = None" and "held l3 = X + ctx_resources ctx3"
        using h3 none c3 q by (simp_all add: ctx3_def ctx_resources_def)
      from init_queue_pair_outcome [OF c3(1,2) _ _ this, where V = V and S = S and rx = rx and w = w3] c3 q s3
      have "build_outcome (queue_pair_stage V pd rq sq rx ctx3 w3) X l
          (init_queue_pair (tracked_verbs V) (tracked_sys S) pd rq sq rx ctx3 (w3, l3))"
        by (simp add: build_outcome_def)
      then show ?thesis using q Pair Some r s by (simp add: step l1_def l3_def ctx3_def)
    qed
  qed
qed

lemma build_outcome_sound:
  "build_outcome st X l out \<Longrightarrow> sound l = sound l0 \<Longrightarrow> build_outcome st X l0 out"
  by (simp add: build_outcome_def)

lemma init_channel_outcome:
  assumes c: "ctx_context ctx = Some c" "ctx_qp ctx = None"
    and l: "held l = {#R_dev c, R_mem (ctx_ptr ctx)#} + X"
  shows "build_outcome (channel_stage V c rx ue ctx w) X l
    (init_channel (tracked_verbs V) (tracked_sys S) c rx ue ctx (w, l))"
proof -
  have queues: "build_outcome (queues_stage V c rx (ctx\<lparr>ctx_channel := ch\<rparr>) w') X l
      (init_queues (tracked_verbs V) (tracked_sys S) c rx (ctx\<lparr>ctx_channel := ch\<rparr>) (w', l'))"
    if h: "held l' = opt_res (R_chan \<circ> channel_handle) ch + held l" "sound l' = sound l" for ch w' l'
    using init_queues_outcome [of "ctx\<lparr>ctx_channel := ch\<rparr>" c l' X V rx w' S] c l h
    by (intro build_outcome_sound [OF _ h(2)]) simp
  have dev: "build_outcome No_channel X l (clean_device (tracked_verbs V) (tracked_sys S) ctx (w', l))" for w'
    using l by (intro build_outcome_label [OF releases_clean_device [OF c(1)]]) (simp_all add: stage_simps)
  show ?thesis
    using queues [of l None] queues [of "ledger_add _ l" "Some _"] dev
    by (simp add: init_channel_def channel_stage_def prog_simps watch_simps split: option.splits prod.splits)
qed

lemma probe_port_usable:
  "probe_port (tracked_verbs V) c ctx (w, l) =
     (case usable_port V c w of
        (None, w') \<Rightarrow> (Inr None, (w', l))
      | (Some (i, info), w') \<Rightarrow> (Inr (Some (ctx\<lparr>ctx_portinfo := info, ctx_ib_port := i\<rparr>)), (w', l)))"
  by (simp add: probe_port_def usable_port_def prog_simps watch_simps split: prod.split)

lemma init_rdma_context_outcome:
  "build_outcome (init_stage V S dev rx ue w) (held l) l
     (init_rdma_context (tracked_verbs V) (tracked_sys S) dev rx port ue srv (w, l))"
proof -
  obtain po w1 where alloc: "sys_alloc S w = (po, w1)" by (metis prod.exhaust)
  note step = init_rdma_context_def init_stage_def prog_simps watch_simps Let_def
  show ?thesis
  proof (cases po)
    case None
    then show ?thesis using alloc by (simp add: step build_outcome_def stage_simps)
  next
    case (Some p)
    define l1 where "l1 = ledger_add (R_mem p) l"
    obtain co w2 where opened: "ibv_open_device V dev w1 = (co, w2)" by (metis prod.exhaust)
    show ?thesis
    proof (cases co)
      case None
      have "build_outcome No_device (held l) l (clean_ctx (tracked_sys S) (ctx_zero p) (w', l1))" for w'
        by (rule build_outcome_label [OF releases_clean_ctx])
          (simp_all add: l1_def watch_simps ctx_zero_def stage_simps)
      with None Some alloc opened show ?thesis by (simp add: step l1_def)
    next
      case dev: (Some c)
      define l2 where "l2 = ledger_add (R_dev c) l1"
      have l2: "held l2 = {#R_dev c, R_mem p#} + held l" "sound l2 = sound l"
        by (simp_all add: l2_def l1_def watch_simps)
      define ctx where "ctx i info = (ctx_zero p)\<lparr>ctx_context := Some c, ctx_portinfo := info, ctx_ib_port := i\<rparr>" for i info
      have chan: "build_outcome (channel_stage V c rx ue (ctx i info) w') (held l) l
          (init_channel (tracked_verbs V) (tracked_sys S) c rx ue (ctx i info) (w', l2))" for i info w'
        by (rule build_outcome_sound [OF init_channel_outcome l2(2)]) (simp_all add: ctx_def ctx_zero_def l2)
      have dead: "build_outcome (No_port p c) (held l) l (Inr None, (w', l2))" for w' :: 'a
        using l2 by (simp add: build_outcome_def stage_simps)
      show ?thesis using chan dead alloc opened Some dev
        by (simp add: step probe_port_usable ctx_def l1_def l2_def split: prod.split option.split)
    qed
  qed
qed

lemma init_stage_cq: "init_stage V S dev rx ue w = No_cq rcq scq \<Longrightarrow> rcq = None \<or> scq = None"
  by (auto simp: init_stage_def channel_stage_def queues_stage_def queue_pair_stage_def
      split: prod.splits option.splits if_splits)

lemma rdma_close_ctx_releases:
  assumes run: "rdma_close_ctx (tracked_verbs V) (tracked_sys S) ctx (w, l) = (Inr 0, (w', l'))"
    and l: "held l = ctx_resources ctx + X"
  shows "held l' = X \<and> sound l' = sound l"
  using run l
  by (auto simp: rdma_close_ctx_def prog_simps watch_simps ctx_resources_def
      split: option.splits if_splits)

definition mr_resources :: "rdma_mem \<Rightarrow> resource multiset" where
  "mr_resources m = {#R_mr (mr_handle (rm_mr m)), R_mem (rm_ptr m)#}"

lemma rdma_dereg_mr_releases:
  assumes "rdma_dereg_mr (tracked_verbs V) (tracked_sys S) (Some m) (w, l) = (Inr 0, (w', l'))"
    and "held l = mr_resources m + X"
  shows "held l' = X \<and> sound l' = sound l"
  using assms by (auto simp: rdma_dereg_mr_def mr_resources_def prog_simps watch_simps split: if_splits)

lemma rdma_reg_mr_holds:
  assumes "rdma_reg_mr (tracked_verbs V) (tracked_sys S) ctx buf sz (w, l) = (Inr (Some m), (w', l'))"
  shows "held l' = held l + mr_resources m \<and> sound l' = sound l"
  using assms by (auto simp: rdma_reg_mr_def mr_resources_def prog_simps watch_simps split: option.splits if_splits)

interpretation ctxlife: lifecycle
  "\<lambda>(dev, rx, port, ue, srv). init_rdma_context (tracked_verbs V) (tracked_sys S) dev rx port ue srv"
  "rdma_close_ctx (tracked_verbs V) (tracked_sys S)" ctx_resources
  for V :: "'w verbs" and S :: "'w sys"
proof unfold_locales
  fix a w l r w' l'
  assume "(case a of (dev, rx, port, ue, srv) \<Rightarrow>
    init_rdma_context (tracked_verbs V) (tracked_sys S) dev rx port ue srv) (w, l) = (Inr (Some r), (w', l'))"
  then show "held l' = held l + ctx_resources r \<and> sound l' = sound l"
    using init_rdma_context_outcome [of V S "fst a" "fst (snd a)" "fst (snd (snd (snd a)))" w l
        "fst (snd (snd a))" "snd (snd (snd (snd a)))"]
    by (auto simp: build_outcome_def stage_simps split_beta split: stage.splits)
next
  fix r w l w' l'
  assume "rdma_close_ctx (tracked_verbs V) (tracked_sys S) r (w, l) = (Inr 0, (w', l'))"
    and "ctx_resources r \<subseteq># held l"
  then show "held l' = held l - ctx_resources r \<and> sound l' = sound l"
    using rdma_close_ctx_releases [of V S r w l w' l' "held l - ctx_resources r"] by simp
qed

interpretation mrlife: lifecycle
  "\<lambda>(ctx, buf, sz). rdma_reg_mr (tracked_verbs V) (tracked_sys S) ctx buf sz"
  "\<lambda>m. rdma_dereg_mr (tracked_verbs V) (tracked_sys S) (Some m)"
  mr_resources
  for V :: "'w verbs" and S :: "'w sys"
proof unfold_locales
  fix a w l r w' l'
  assume "(case a of (ctx, buf, sz) \<Rightarrow>
    rdma_reg_mr (tracked_verbs V) (tracked_sys S) ctx buf sz) (w, l) = (Inr (Some r), (w', l'))"
  then show "held l' = held l + mr_resources r \<and> sound l' = sound l"
    by (cases a) (auto dest: rdma_reg_mr_holds)
next
  fix r w l w' l'
  assume "rdma_dereg_mr (tracked_verbs V) (tracked_sys S) (Some r) (w, l) = (Inr 0, (w', l'))"
    and "mr_resources r \<subseteq># held l"
  then show "held l' = held l - mr_resources r \<and> sound l' = sound l"
    using rdma_dereg_mr_releases
      [of V S r w l w' l' "held l - mr_resources r"] by simp
qed

section \<open>Properties\<close>

text \<open>
  C23. Every path through \<open>init_rdma_context\<close>, in every environment, told apart by what the
  environment answered: it ends without a fault and releases only objects that are open. When
  everything could be obtained it returns the complete context, which owns exactly the objects
  that were opened. When the context's memory, the device, the completion channel, the protection
  domain or the queue pair could not be had, or the queue pair could not be moved to INIT, it
  returns NULL with everything released. On two paths it returns NULL and leaks: without a usable
  port the device stays open and the context allocated, and when only one of the two completion
  queues could be created, that queue stays.
\<close>

theorem init_rdma_context_accounts:
  "\<exists>r w' l'. init_rdma_context (tracked_verbs V) (tracked_sys S) dev rx port ue srv (w, ledger_empty)
       = (Inr r, (w', l')) \<and> sound l' \<and>
     (case init_stage V S dev rx ue w of
        Built ctx \<Rightarrow> r = Some ctx \<and> ctx_wf ctx \<and> held l' = ctx_resources ctx
      | No_port p c \<Rightarrow> r = None \<and> held l' = {#R_mem p, R_dev c#}
      | No_cq rcq scq \<Rightarrow> r = None \<and> (rcq = None \<or> scq = None) \<and> held l' = opt_res R_cq rcq + opt_res R_cq scq
      | _ \<Rightarrow> r = None \<and> held l' = {#})"
proof -
  have "build_outcome (init_stage V S dev rx ue w) {#} ledger_empty
      (init_rdma_context (tracked_verbs V) (tracked_sys S) dev rx port ue srv (w, ledger_empty))"
    using init_rdma_context_outcome [of V S dev rx ue w ledger_empty] by (simp add: ledger_empty_def)
  then show ?thesis
    using init_stage_cq [of V S dev rx ue w]
    by (auto simp: build_outcome_def stage_simps ledger_empty_def split: stage.splits)
qed

text \<open>
  C24. A context that is built and then closed with result 0 leaves the ledger as it was: every
  object the construction opened is released once, and nothing else is.
\<close>

theorem init_then_close_releases_all:
  assumes "init_rdma_context (tracked_verbs V) (tracked_sys S) dev rx port ue srv (w, l)
      = (Inr (Some ctx), (w1, l1))"
    and "rdma_close_ctx (tracked_verbs V) (tracked_sys S) ctx (w1, l1) = (Inr 0, (w2, l2))"
  shows "held l2 = held l \<and> sound l2 = sound l"
  using ctxlife.build_destroy [of V S "(dev, rx, port, ue, srv)" w l ctx w1 l1 w2 l2] assms by simp

text \<open>
  When neither of the two ports is active, \<open>init_rdma_context\<close> returns NULL and leaves the
  device open and the context allocated: the early returns skip the clean-up labels.
\<close>

theorem init_leaks_device_without_port:
  assumes "sys_alloc S w = (Some p, w1)" and "ibv_open_device V dev w1 = (Some c, w2)"
    and "ibv_query_port V c 1 w2 = ((0, info1), w3)" and "pa_state info1 \<noteq> IBV_PORT_ACTIVE"
    and "ibv_query_port V c 2 w3 = ((0, info2), w4)" and "pa_state info2 \<noteq> IBV_PORT_ACTIVE"
  shows "\<exists>l'. init_rdma_context (tracked_verbs V) (tracked_sys S) dev rx port ue srv (w, ledger_empty)
      = (Inr None, (w4, l')) \<and> held l' = {#R_mem p, R_dev c#}"
  using assms by (simp add: init_rdma_context_def probe_port_def prog_simps watch_simps Let_def
      ledger_empty_def)

theorem init_leaks_device_without_port_witness:
  "\<exists>l'. init_rdma_context (tracked_verbs dead_ports_verbs) (tracked_sys sample_sys) 7 16 1 0 0 (0, ledger_empty)
      = (Inr None, (2, l')) \<and> held l' = {#R_mem 0, R_dev 1#}"
  by (rule init_leaks_device_without_port [where ?w1.0 = 1 and ?w2.0 = 2 and ?w3.0 = 2
        and ?info1.0 = dead_port and ?info2.0 = dead_port])
    (simp_all add: dead_port_def dead_ports_verbs_def sample_verbs_def sample_sys_def)

theorem init_then_close_releases_all_witness:
  "\<exists>ctx w1 l1 w2 l2.
     init_rdma_context (tracked_verbs sample_verbs) (tracked_sys sample_sys) 7 16 1 1 0 (0, ledger_empty)
       = (Inr (Some ctx), (w1, l1)) \<and>
     rdma_close_ctx (tracked_verbs sample_verbs) (tracked_sys sample_sys) ctx (w1, l1) = (Inr 0, (w2, l2)) \<and>
     held l2 = {#} \<and> sound l2"
proof -
  let ?V = "tracked_verbs sample_verbs" and ?S = "tracked_sys sample_sys"
  obtain ctx w1 l1 where i: "init_rdma_context ?V ?S 7 16 1 1 0 (0, ledger_empty) = (Inr (Some ctx), (w1, l1))"
    and q: "ctx_wf ctx"
    by (auto simp: init_rdma_context_def probe_port_def init_channel_def init_queues_def init_queue_pair_def
        prog_simps watch_simps Let_def sample_verbs_def sample_sys_def ctx_wf_def ctx_zero_def)
  obtain w2 l2 where c: "rdma_close_ctx ?V ?S ctx (w1, l1) = (Inr 0, (w2, l2))"
    using q by (cases "ctx_channel ctx") (auto simp: rdma_close_ctx_def prog_simps watch_simps
        sample_verbs_def sample_sys_def ctx_wf_def)
  have "held l2 = held ledger_empty \<and> sound l2 = sound ledger_empty"
    by (rule init_then_close_releases_all [OF i c])
  then have "held l2 = {#}" and "sound l2" by (simp_all add: ledger_empty_def)
  with i c show ?thesis by blast
qed

end
