(* ===== verification/QueuePairSpec.thy ===== *)
theory QueuePairSpec
  imports Verbs
begin

text \<open>
  The contract of a reliable-connection queue pair, as the documentation of
  \<open>ibv_modify_qp\<close> gives it: the three transitions that bring it up and the attributes each
  of them must carry. A watcher follows the state of every queue pair through the calls a
  program makes in an arbitrary environment and notes whether all of them are legal.

  The locale \<open>rc_bringup\<close> is the interface of a routine that connects a queue pair by a
  chain of \<open>ibv_modify_qp\<close> calls; both parts of the repository have one.
\<close>

section \<open>Legal transitions\<close>

fun rc_required :: "ibv_qp_state \<Rightarrow> ibv_qp_state \<Rightarrow> ibv_qp_attr_mask list option" where
  "rc_required IBV_QPS_RESET IBV_QPS_INIT =
     Some [IBV_QP_STATE, IBV_QP_PKEY_INDEX, IBV_QP_PORT, IBV_QP_ACCESS_FLAGS]"
| "rc_required IBV_QPS_INIT IBV_QPS_RTR =
     Some [IBV_QP_STATE, IBV_QP_AV, IBV_QP_PATH_MTU, IBV_QP_DEST_QPN, IBV_QP_RQ_PSN,
           IBV_QP_MAX_DEST_RD_ATOMIC, IBV_QP_MIN_RNR_TIMER]"
| "rc_required IBV_QPS_RTR IBV_QPS_RTS =
     Some [IBV_QP_STATE, IBV_QP_SQ_PSN, IBV_QP_MAX_QP_RD_ATOMIC, IBV_QP_RETRY_CNT,
           IBV_QP_RNR_RETRY, IBV_QP_TIMEOUT]"
| "rc_required _ _ = None"

definition rc_legal :: "ibv_qp_state \<Rightarrow> ibv_qp_attr \<Rightarrow> ibv_qp_attr_mask list \<Rightarrow> bool" where
  "rc_legal s a m = (case rc_required s (qp_state a) of None \<Rightarrow> False | Some req \<Rightarrow> set req \<subseteq> set m)"

text \<open>A legal path: each transition is legal in the state the one before it leads to.\<close>

fun rc_path :: "ibv_qp_state \<Rightarrow> (ibv_qp_attr \<times> ibv_qp_attr_mask list) list \<Rightarrow> bool" where
  "rc_path s [] = True"
| "rc_path s ((a, m) # steps) = (rc_legal s a m \<and> rc_path (qp_state a) steps)"

fun rc_end :: "ibv_qp_state \<Rightarrow> (ibv_qp_attr \<times> ibv_qp_attr_mask list) list \<Rightarrow> ibv_qp_state" where
  "rc_end s [] = s"
| "rc_end s ((a, m) # steps) = rc_end (qp_state a) steps"

section \<open>The watcher\<close>

record qp_watch =
  qp_states :: "handle \<Rightarrow> ibv_qp_state"
  all_legal :: bool

definition watch_modify :: "'w verbs \<Rightarrow> ibv_qp \<Rightarrow> ibv_qp_attr \<Rightarrow> ibv_qp_attr_mask list \<Rightarrow>
    'w \<times> qp_watch \<Rightarrow> int \<times> ('w \<times> qp_watch)" where
  "watch_modify V qp a m = (\<lambda>(w, g).
     case ibv_modify_qp V qp a m w of (r, w') \<Rightarrow>
       (r, (w', \<lparr>qp_states = (if r = 0 then (qp_states g)(qp_handle qp := qp_state a) else qp_states g),
                 all_legal = (all_legal g \<and> rc_legal (qp_states g (qp_handle qp)) a m)\<rparr>)))"

definition watch_create :: "'w verbs \<Rightarrow> handle \<Rightarrow> ibv_qp_init_attr \<Rightarrow>
    'w \<times> qp_watch \<Rightarrow> ibv_qp option \<times> ('w \<times> qp_watch)" where
  "watch_create V pd ia = (\<lambda>(w, g).
     case ibv_create_qp V pd ia w of (None, w') \<Rightarrow> (None, (w', g))
     | (Some qp, w') \<Rightarrow>
         (Some qp, (w', g\<lparr>qp_states := (qp_states g)(qp_handle qp := IBV_QPS_RESET)\<rparr>)))"

definition qp_watched :: "'w verbs \<Rightarrow> ('w \<times> qp_watch) verbs" where
  "qp_watched V = (lift_verbs V)\<lparr>ibv_modify_qp := watch_modify V, ibv_create_qp := watch_create V\<rparr>"

lemma qp_watched_sel [simp]:
  "ibv_modify_qp (qp_watched V) = watch_modify V"
  "ibv_create_qp (qp_watched V) = watch_create V"
  "ibv_destroy_qp (qp_watched V) = (\<lambda>a. unseen (ibv_destroy_qp V a))"
  "ibv_create_comp_channel (qp_watched V) = (\<lambda>a. unseen (ibv_create_comp_channel V a))"
  "ibv_destroy_comp_channel (qp_watched V) = (\<lambda>a. unseen (ibv_destroy_comp_channel V a))"
  "ibv_create_cq (qp_watched V) = (\<lambda>a b c. unseen (ibv_create_cq V a b c))"
  "ibv_destroy_cq (qp_watched V) = (\<lambda>a. unseen (ibv_destroy_cq V a))"
  "ibv_req_notify_cq (qp_watched V) = (\<lambda>a. unseen (ibv_req_notify_cq V a))"
  "ibv_post_send (qp_watched V) = (\<lambda>a b. unseen (ibv_post_send V a b))"
  "ibv_poll_cq (qp_watched V) = (\<lambda>a b. unseen (ibv_poll_cq V a b))"
  by (simp_all add: qp_watched_def)

lemma watch_modify_apply [watch_simps]:
  "watch_modify V qp a m (w, g) = (fst (ibv_modify_qp V qp a m w), (snd (ibv_modify_qp V qp a m w),
     \<lparr>qp_states = (if fst (ibv_modify_qp V qp a m w) = 0
        then (qp_states g)(qp_handle qp := qp_state a) else qp_states g),
      all_legal = (all_legal g \<and> rc_legal (qp_states g (qp_handle qp)) a m)\<rparr>))"
  by (simp add: watch_modify_def split_beta)

lemma watch_create_apply [watch_simps]:
  "watch_create V pd ia (w, g) = (fst (ibv_create_qp V pd ia w), (snd (ibv_create_qp V pd ia w),
     case fst (ibv_create_qp V pd ia w) of None \<Rightarrow> g
     | Some qp \<Rightarrow> g\<lparr>qp_states := (qp_states g)(qp_handle qp := IBV_QPS_RESET)\<rparr>))"
  by (cases "ibv_create_qp V pd ia w") (simp add: watch_create_def split: option.splits)

section \<open>Chains of transitions\<close>

text \<open>Modify calls in order; the first that fails ends the chain with \<open>err\<close>.\<close>

fun modify_chain :: "'w verbs \<Rightarrow> ibv_qp \<Rightarrow> int \<Rightarrow> (ibv_qp_attr \<times> ibv_qp_attr_mask list) list \<Rightarrow>
    ('w, int) prog" where
  "modify_chain V qp err [] = ret 0"
| "modify_chain V qp err ((a, m) # steps) =
     bnd (call (ibv_modify_qp V qp a m)) (\<lambda>r. if r \<noteq> 0 then ret err else modify_chain V qp err steps)"

text \<open>
  A chain that is a legal path from the current state makes only legal calls; it ends in the
  path's last state, or with the error in a state on the path.
\<close>

lemma modify_chain_outcome:
  assumes "err \<noteq> 0" and "rc_path (qp_states g (qp_handle qp)) steps" and "all_legal g"
  shows "\<exists>r w' g'. modify_chain (qp_watched V) qp err steps (w, g) = (Inr r, (w', g')) \<and> all_legal g'
    \<and> (r = 0 \<and> qp_states g' (qp_handle qp) = rc_end (qp_states g (qp_handle qp)) steps
       \<or> r = err \<and> (\<exists>k < length steps.
            qp_states g' (qp_handle qp) = rc_end (qp_states g (qp_handle qp)) (take k steps)))"
  using assms(2,3)
proof (induction steps arbitrary: w g)
  case Nil
  then show ?case by (simp add: prog_simps)
next
  case (Cons am steps)
  obtain a m where am: "am = (a, m)" by (cases am)
  define w1 where "w1 = snd (ibv_modify_qp V qp a m w)"
  define g1 where "g1 = snd (snd (watch_modify V qp a m (w, g)))"
  have legal: "all_legal g1" using Cons.prems by (simp add: g1_def am watch_simps)
  show ?case
  proof (cases "fst (ibv_modify_qp V qp a m w) = 0")
    case False
    then have "modify_chain (qp_watched V) qp err (am # steps) (w, g) = (Inr err, (w1, g1))"
      "qp_states g1 (qp_handle qp) = qp_states g (qp_handle qp)"
      by (simp_all add: am prog_simps watch_simps w1_def g1_def)
    then show ?thesis using legal assms(1) by force
  next
    case True
    have chain: "modify_chain (qp_watched V) qp err (am # steps) (w, g) =
        modify_chain (qp_watched V) qp err steps (w1, g1)"
      and s1: "qp_states g1 (qp_handle qp) = qp_state a"
      using True by (simp_all add: am prog_simps watch_simps w1_def g1_def)
    have "rc_path (qp_states g1 (qp_handle qp)) steps" using Cons.prems(1) by (simp add: am s1)
    from Cons.IH [OF this legal, of w1] obtain r w' g' where
      run: "modify_chain (qp_watched V) qp err steps (w1, g1) = (Inr r, (w', g'))" and "all_legal g'"
      and out: "r = 0 \<and> qp_states g' (qp_handle qp) = rc_end (qp_state a) steps
       \<or> r = err \<and> (\<exists>k < length steps. qp_states g' (qp_handle qp) = rc_end (qp_state a) (take k steps))"
      unfolding s1 by blast
    from out have "r = 0 \<and> qp_states g' (qp_handle qp) = rc_end (qp_states g (qp_handle qp)) (am # steps)
       \<or> r = err \<and> (\<exists>k < length (am # steps).
            qp_states g' (qp_handle qp) = rc_end (qp_states g (qp_handle qp)) (take k (am # steps)))"
      by (force simp: am)
    with run \<open>all_legal g'\<close> show ?thesis unfolding chain by blast
  qed
qed

section \<open>Routines that connect a queue pair\<close>

text \<open>
  The contract: in every environment the routine is a chain of transitions on its queue
  pair that leads from INIT to RTS, with a non-zero error result.
\<close>

locale rc_bringup =
  fixes V :: "'w verbs"
    and run :: "'c \<Rightarrow> ('w \<times> qp_watch, 'r) prog"
    and code :: "'r \<Rightarrow> int"
    and qp_of :: "'c \<Rightarrow> ibv_qp"
    and err :: int
    and steps :: "'c \<Rightarrow> (ibv_qp_attr \<times> ibv_qp_attr_mask list) list"
    and ready :: "'c \<Rightarrow> bool"
  assumes chain: "ready c \<Longrightarrow> bnd (run c) (\<lambda>r. ret (code r)) =
      modify_chain (qp_watched V) (qp_of c) err (steps c)"
    and path: "ready c \<Longrightarrow> rc_path IBV_QPS_INIT (steps c)"
    and targets: "ready c \<Longrightarrow> map (\<lambda>s. qp_state (fst s)) (steps c) = [IBV_QPS_RTR, IBV_QPS_RTS]"
    and err_nonzero: "err \<noteq> 0"
begin

lemma steps_cases:
  assumes "ready c"
  obtains a m b n where "steps c = [(a, m), (b, n)]" "qp_state a = IBV_QPS_RTR" "qp_state b = IBV_QPS_RTS"
  using targets [OF assms] by (auto simp: map_eq_Cons_conv)

text \<open>
  From INIT, every call is legal; success means RTS, and an error leaves the queue pair in
  INIT or in RTR.
\<close>

lemma bringup:
  assumes "ready c" and init: "qp_states g (qp_handle (qp_of c)) = IBV_QPS_INIT" and "all_legal g"
  shows "\<exists>r w' g'. run c (w, g) = (Inr r, (w', g')) \<and> all_legal g' \<and>
    (code r = 0 \<and> qp_states g' (qp_handle (qp_of c)) = IBV_QPS_RTS \<or>
     code r = err \<and> qp_states g' (qp_handle (qp_of c)) \<in> {IBV_QPS_INIT, IBV_QPS_RTR})"
proof -
  obtain a m b n where st: "steps c = [(a, m), (b, n)]"
    and q: "qp_state a = IBV_QPS_RTR" "qp_state b = IBV_QPS_RTS"
    by (rule steps_cases [OF assms(1)])
  obtain k w' g' where
    run: "modify_chain (qp_watched V) (qp_of c) err (steps c) (w, g) = (Inr k, (w', g'))"
    and legal: "all_legal g'"
    and out: "k = 0 \<and> qp_states g' (qp_handle (qp_of c)) = rc_end IBV_QPS_INIT (steps c)
       \<or> k = err \<and> (\<exists>j < length (steps c).
            qp_states g' (qp_handle (qp_of c)) = rc_end IBV_QPS_INIT (take j (steps c)))"
    using modify_chain_outcome [OF err_nonzero, of g "qp_of c" "steps c" V w] path [OF assms(1)] assms(3)
    unfolding init by blast
  have "bnd (run c) (\<lambda>r. ret (code r)) (w, g) = (Inr k, (w', g'))"
    using run chain [OF assms(1)] by simp
  then obtain r where r: "run c (w, g) = (Inr r, (w', g'))" "code r = k"
    by (auto simp: bnd_def ret_def split: prod.splits sum.splits)
  have "k = 0 \<and> qp_states g' (qp_handle (qp_of c)) = IBV_QPS_RTS \<or>
      k = err \<and> qp_states g' (qp_handle (qp_of c)) \<in> {IBV_QPS_INIT, IBV_QPS_RTR}"
    using out q by (auto simp: st less_Suc_eq numeral_2_eq_2)
  with r legal show ?thesis by blast
qed

end

end
