(* ===== verification/SocketExchange.thy ===== *)
theory SocketExchange
  imports SocketContext QueuePairSpec
begin

text \<open>
  The second part of \<open>debug/rdma_socket.c\<close>: the text message with which two ends tell each
  other their queue pair and buffer (\<open>struct info_con\<close>), the exchange over a TCP socket, the
  transitions of the queue pair to RTS (\<open>rdma_connect_ctx\<close>), and the routines that put a
  connected context together (\<open>create_context\<close>, \<open>rdma_socket\<close>, \<open>rdma_socket_p\<close>).

  Uninitialised locals and freshly allocated structures are explicit parameters
  (\<open>stack_junk\<close>), so no theorem depends on their contents.
\<close>

section \<open>The message\<close>

text \<open>\<open>sizeof msg\<close>, the length of the longest expected text and its NUL.\<close>

definition msg_size :: nat where
  "msg_size = length ''00000000:00000000:00000000:0000000000000000:00000000:00000000000000000000000000000000'' + 1"

definition info_text :: "info_con \<Rightarrow> string \<Rightarrow> string" where
  "info_text i gid =
     print_padded 16 8 (unat (ic_lid i)) @ '':'' @ print_padded 16 8 (unat (ic_qpn i)) @ '':'' @
     print_padded 16 8 (unat (ic_psn i)) @ '':'' @ print_padded 10 16 (unat (ic_addr i)) @ '':'' @
     print_padded 16 8 (unat (ic_rkey i)) @ '':'' @ gid"

definition sprintf_info :: "info_con \<Rightarrow> bytes \<Rightarrow> bytes \<Rightarrow> fault + bytes" where
  "sprintf_info i gid msg = memcpy_at msg 0 (info_text i (c_string gid) @ [NUL])"

definition info_directives :: "directive list" where
  "info_directives = [Scan_x None, Scan_lit (CHR '':''), Scan_x None, Scan_lit (CHR '':''),
     Scan_x None, Scan_lit (CHR '':''), Scan_lu None, Scan_lit (CHR '':''), Scan_x None,
     Scan_lit (CHR '':''), Scan_s None]"

definition scanned_num :: "scanned list \<Rightarrow> nat \<Rightarrow> 'a :: len word \<Rightarrow> 'a word" where
  "scanned_num vs k old =
     (if k < length vs then (case vs ! k of Num n \<Rightarrow> of_nat n | Str _ \<Rightarrow> old) else old)"

definition scanned_str :: "scanned list \<Rightarrow> nat \<Rightarrow> bytes \<Rightarrow> fault + bytes" where
  "scanned_str vs k old =
     (if k < length vs then (case vs ! k of Num n \<Rightarrow> Inr old | Str s \<Rightarrow> memcpy_at old 0 (s @ [NUL]))
      else Inr old)"

definition sscanf_info :: "bytes \<Rightarrow> info_con \<Rightarrow> bytes \<Rightarrow> fault + info_con \<times> bytes" where
  "sscanf_info msg i gid =
     sbnd (sscanf info_directives msg) (\<lambda>vs.
     sbnd (scanned_str vs 5 gid) (\<lambda>gid'.
     Inr (i\<lparr>ic_lid := scanned_num vs 0 (ic_lid i), ic_qpn := scanned_num vs 1 (ic_qpn i),
            ic_psn := scanned_num vs 2 (ic_psn i), ic_addr := scanned_num vs 3 (ic_addr i),
            ic_rkey := scanned_num vs 4 (ic_rkey i)\<rparr>, gid')))"

text \<open>Scanning the message and then the GID text it contains.\<close>

definition read_info ::
    "endian \<Rightarrow> u32 \<Rightarrow> bytes \<Rightarrow> info_con \<Rightarrow> bytes \<Rightarrow> fault + info_con \<times> bytes" where
  "read_info e v0 msg junk gid =
     sbnd (sscanf_info msg junk gid) (\<lambda>(i, gid').
     sbnd (wire_gid_to_gid e v0 gid' (ic_gid i)) (\<lambda>g. Inr (i\<lparr>ic_gid := g\<rparr>, gid')))"

section \<open>Sockets\<close>

fun connect_loop :: "'w sys \<Rightarrow> int \<Rightarrow> handle list \<Rightarrow> ('w, int) prog" where
  "connect_loop S sockfd [] = ret sockfd"
| "connect_loop S sockfd (t # ts) =
     bnd (call (sys_socket S t)) (\<lambda>fd.
     if 0 \<le> fd then
       bnd (call (sys_connect S fd t)) (\<lambda>r.
       if r = 0 then ret fd
       else bnd (call (sys_close S fd)) (\<lambda>_. connect_loop S (- 1) ts))
     else connect_loop S fd ts)"

fun bind_loop :: "'w sys \<Rightarrow> int \<Rightarrow> handle list \<Rightarrow> ('w, int) prog" where
  "bind_loop S sockfd [] = ret sockfd"
| "bind_loop S sockfd (t # ts) =
     bnd (call (sys_socket S t)) (\<lambda>fd.
     if 0 \<le> fd then
       bnd (call (sys_setsockopt S fd)) (\<lambda>_.
       bnd (call (sys_bind S fd t)) (\<lambda>r.
       if r = 0 then ret fd
       else bnd (call (sys_close S fd)) (\<lambda>_. bind_loop S (- 1) ts)))
     else bind_loop S fd ts)"

definition open_server :: "'w sys \<Rightarrow> int \<Rightarrow> ('w, int) prog" where
  "open_server S port =
     bnd (call (sys_alloc S)) (\<lambda>service.
     case service of None \<Rightarrow> ret (- 1) | Some sv \<Rightarrow>
     bnd (call (sys_getaddrinfo S None port)) (\<lambda>(n, addrs).
     if n < 0 then bnd (call (sys_free S sv)) (\<lambda>_. ret (- 1))
     else
       bnd (bind_loop S (- 1) addrs) (\<lambda>sockfd.
       bnd (call (sys_freeaddrinfo S)) (\<lambda>_.
       bnd (call (sys_free S sv)) (\<lambda>_.
       if sockfd < 0 then ret (- 1) else ret sockfd)))))"

record stack_junk =
  j_msg :: bytes
  j_gid :: bytes
  j_v32 :: u32
  j_info :: info_con
  j_my :: info_con

definition junk_ok :: "stack_junk \<Rightarrow> bool" where
  "junk_ok j \<longleftrightarrow> length (j_msg j) = msg_size \<and> length (j_gid j) = 33 \<and> gid_ok (ic_gid (j_info j))"

text \<open>
  The conversation of the client on a connected socket. It returns the peer's information
  and the context with its \<open>fd\<close> set, or nothing.
\<close>

definition client_talk :: "'w sys \<Rightarrow> endian \<Rightarrow> stack_junk \<Rightarrow> rdma_context \<Rightarrow> int \<Rightarrow> info_con \<Rightarrow>
    ('w, info_con option \<times> rdma_context) prog" where
  "client_talk S e j ctx sockfd my_info =
     bnd (pure_prog (gid_to_wire_gid e (ic_gid my_info) (j_gid j))) (\<lambda>gid.
     bnd (pure_prog (sprintf_info my_info gid (j_msg j))) (\<lambda>msg.
     bnd (call (sys_write S sockfd msg)) (\<lambda>n.
     if n \<noteq> int msg_size then ret (None, ctx) else
     bnd (call (sys_read S sockfd msg_size)) (\<lambda>(n, bs).
     if n \<noteq> int msg_size then ret (None, ctx) else
     bnd (pure_prog (memcpy_at msg 0 bs)) (\<lambda>msg.
     bnd (call (sys_write S sockfd (''done'' @ [NUL]))) (\<lambda>_.
     bnd (call (sys_alloc S)) (\<lambda>p.
     case p of None \<Rightarrow> ret (None, ctx) | Some _ \<Rightarrow>
     bnd (pure_prog (read_info e (j_v32 j) msg (j_info j) gid)) (\<lambda>(i, gid).
     ret (Some i, ctx\<lparr>ctx_fd := sockfd\<rparr>)))))))))"

definition rdma_client_exch_dest :: "'w sys \<Rightarrow> endian \<Rightarrow> stack_junk \<Rightarrow> rdma_context \<Rightarrow>
    string option \<Rightarrow> int \<Rightarrow> info_con \<Rightarrow> ('w, info_con option \<times> rdma_context) prog" where
  "rdma_client_exch_dest S e j ctx servername port my_info =
     bnd (call (sys_alloc S)) (\<lambda>service.
     case service of None \<Rightarrow> ret (None, ctx) | Some sv \<Rightarrow>
     bnd (call (sys_getaddrinfo S servername port)) (\<lambda>(n, addrs).
     if n < 0 then bnd (call (sys_free S sv)) (\<lambda>_. ret (None, ctx))
     else
       bnd (connect_loop S (- 1) addrs) (\<lambda>sockfd.
       bnd (call (sys_freeaddrinfo S)) (\<lambda>_.
       bnd (call (sys_free S sv)) (\<lambda>_.
       if sockfd < 0 then ret (None, ctx)
       else client_talk S e j ctx sockfd my_info)))))"

section \<open>Connecting the queue pair\<close>

definition rtr_attr :: "int \<Rightarrow> ibv_mtu \<Rightarrow> int \<Rightarrow> info_con \<Rightarrow> int \<Rightarrow> ibv_qp_attr" where
  "rtr_attr port mtu sl dest sgid_idx =
     (let ah = ah_attr_zero\<lparr>ah_is_global := 0, ah_dlid := ucast (ic_lid dest), ah_sl := of_int sl,
                 ah_src_path_bits := 0, ah_port_num := of_int port\<rparr>;
          ah = (if interface_id_nonzero (ic_gid dest)
                then ah\<lparr>ah_is_global := 1, ah_hop_limit := 1, ah_dgid := ic_gid dest,
                        ah_sgid_index := of_int sgid_idx\<rparr>
                else ah)
      in qp_attr_zero\<lparr>qp_state := IBV_QPS_RTR, path_mtu := Some mtu, dest_qp_num := ic_qpn dest,
           rq_psn := ic_psn dest, max_dest_rd_atomic := 1, min_rnr_timer := 12, ah_attr := ah\<rparr>)"

definition rtr_mask :: "ibv_qp_attr_mask list" where
  "rtr_mask = [IBV_QP_STATE, IBV_QP_AV, IBV_QP_PATH_MTU, IBV_QP_DEST_QPN, IBV_QP_RQ_PSN,
     IBV_QP_MAX_DEST_RD_ATOMIC, IBV_QP_MIN_RNR_TIMER]"

definition rts_attr :: "u32 \<Rightarrow> ibv_qp_attr \<Rightarrow> ibv_qp_attr" where
  "rts_attr my_psn attr = attr\<lparr>qp_state := IBV_QPS_RTS, timeout := 14, retry_cnt := 7,
     rnr_retry := 7, sq_psn := my_psn, max_rd_atomic := 1\<rparr>"

definition rts_mask :: "ibv_qp_attr_mask list" where
  "rts_mask = [IBV_QP_STATE, IBV_QP_TIMEOUT, IBV_QP_RETRY_CNT, IBV_QP_RNR_RETRY, IBV_QP_SQ_PSN,
     IBV_QP_MAX_QP_RD_ATOMIC]"

definition rdma_connect_ctx :: "'w verbs \<Rightarrow> rdma_context \<Rightarrow> int \<Rightarrow> u32 \<Rightarrow> ibv_mtu \<Rightarrow> int \<Rightarrow>
    info_con \<Rightarrow> int \<Rightarrow> ('w, int) prog" where
  "rdma_connect_ctx V ctx port my_psn mtu sl dest sgid_idx =
     bnd (deref (ctx_qp ctx)) (\<lambda>qp.
     let attr = rtr_attr port mtu sl dest sgid_idx in
     bnd (call (ibv_modify_qp V qp attr rtr_mask)) (\<lambda>r.
     if r \<noteq> 0 then ret 1 else
     let attr = rts_attr my_psn attr in
     bnd (call (ibv_modify_qp V qp attr rts_mask)) (\<lambda>r.
     if r \<noteq> 0 then ret 1 else ret 0)))"

section \<open>The server's side and whole connections\<close>

definition server_talk :: "'w verbs \<Rightarrow> 'w sys \<Rightarrow> endian \<Rightarrow> stack_junk \<Rightarrow> rdma_context \<Rightarrow> int \<Rightarrow>
    ibv_mtu \<Rightarrow> int \<Rightarrow> info_con \<Rightarrow> int \<Rightarrow> int \<Rightarrow> ('w, info_con option \<times> rdma_context) prog" where
  "server_talk V S e j ctx ib_port mtu sl my_info sgid_idx connfd =
     bnd (call (sys_read S connfd msg_size)) (\<lambda>(n, bs).
     if n \<noteq> int msg_size then ret (None, ctx) else
     bnd (pure_prog (memcpy_at (j_msg j) 0 bs)) (\<lambda>msg.
     bnd (call (sys_alloc S)) (\<lambda>p.
     case p of None \<Rightarrow> ret (None, ctx) | Some ptr \<Rightarrow>
     bnd (pure_prog (read_info e (j_v32 j) msg (j_info j) (j_gid j))) (\<lambda>(i, gid).
     bnd (rdma_connect_ctx V ctx ib_port (ic_psn my_info) mtu sl i sgid_idx) (\<lambda>r.
     if r \<noteq> 0 then bnd (call (sys_free S ptr)) (\<lambda>_. ret (None, ctx)) else
     bnd (pure_prog (gid_to_wire_gid e (ic_gid my_info) gid)) (\<lambda>gid.
     bnd (pure_prog (sprintf_info my_info gid msg)) (\<lambda>msg.
     bnd (call (sys_write S connfd msg)) (\<lambda>n.
     if n \<noteq> int msg_size then bnd (call (sys_free S ptr)) (\<lambda>_. ret (None, ctx)) else
     bnd (call (sys_read S connfd msg_size)) (\<lambda>(_, bs).
     bnd (pure_prog (memcpy_at msg 0 bs)) (\<lambda>_.
     ret (Some i, ctx\<lparr>ctx_fd := connfd\<rparr>)))))))))))"

text \<open>
  The peer's name is looked up and copied before the result of \<open>accept\<close> is tested.
\<close>

definition rdma_server_exch_dest :: "'w verbs \<Rightarrow> 'w sys \<Rightarrow> endian \<Rightarrow> stack_junk \<Rightarrow> rdma_context \<Rightarrow>
    int \<Rightarrow> ibv_mtu \<Rightarrow> int \<Rightarrow> int \<Rightarrow> info_con \<Rightarrow> int \<Rightarrow> int \<Rightarrow>
    ('w, info_con option \<times> rdma_context) prog" where
  "rdma_server_exch_dest V S e j ctx ib_port mtu port sl my_info sgid_idx sockfd =
     bnd (call (sys_listen S sockfd 1)) (\<lambda>_.
     bnd (call (sys_accept S sockfd)) (\<lambda>connfd.
     bnd (call (sys_peer_host S connfd)) (\<lambda>h.
     bnd (deref h) (\<lambda>host.
     bnd (call (sys_alloc S)) (\<lambda>p.
     bnd (deref p) (\<lambda>_.
     let ctx = ctx\<lparr>ctx_peer_host := Some host\<rparr> in
     if connfd < 0 then ret (None, ctx)
     else server_talk V S e j ctx ib_port mtu sl my_info sgid_idx connfd))))))"

fun find_device :: "'w verbs \<Rightarrow> string option \<Rightarrow> handle list \<Rightarrow> handle option" where
  "find_device V None devs = (case devs of [] \<Rightarrow> None | d # _ \<Rightarrow> Some d)"
| "find_device V (Some name) devs = find (\<lambda>d. ibv_get_device_name V d = name) devs"

text \<open>
  The local information: LID, GID and queue pair number from the context, buffer and key
  from the registered memory when there is one (otherwise they stay uninitialised), a random
  24-bit sequence number. \<open>None\<close> is an early \<open>return NULL\<close>.
\<close>

definition local_gid :: "'w verbs \<Rightarrow> rdma_context \<Rightarrow> int \<Rightarrow> ('w, ibv_gid option) prog" where
  "local_gid V ctx gidx =
     (if 0 \<le> gidx then
        bnd (deref (ctx_context ctx)) (\<lambda>c.
        bnd (call (ibv_query_gid V c (ctx_ib_port ctx) gidx)) (\<lambda>(r, g).
        ret (if r \<noteq> 0 then None else Some g)))
      else ret (Some gid_zero))"

definition local_memory :: "'w verbs \<Rightarrow> 'w sys \<Rightarrow> rdma_context \<Rightarrow> size_t \<Rightarrow>
    ('w, rdma_mem option option) prog" where
  "local_memory V S ctx mem_size =
     (if mem_size \<noteq> 0 then
        bnd (call (sys_memalign S (ctx_page_size ctx) mem_size)) (\<lambda>b.
        case b of None \<Rightarrow> ret None | Some tbuf \<Rightarrow>
        bnd (rdma_reg_mr V S ctx tbuf mem_size) (\<lambda>rw.
        case rw of
          None \<Rightarrow> bnd (call (sys_free_buf S tbuf)) (\<lambda>_. ret None)
        | Some m \<Rightarrow> ret (Some (Some m))))
      else ret (Some None))"

definition local_info :: "info_con \<Rightarrow> rdma_context \<Rightarrow> ibv_gid \<Rightarrow> u32 \<Rightarrow> rdma_mem option \<Rightarrow> u32 \<Rightarrow> info_con" where
  "local_info my0 ctx gid qpn rw rnd =
     (let i = my0\<lparr>ic_lid := ucast (pa_lid (ctx_portinfo ctx)), ic_gid := gid, ic_qpn := qpn\<rparr>;
          i = (case rw of None \<Rightarrow> i
               | Some m \<Rightarrow> i\<lparr>ic_addr := rm_buf m, ic_rkey := mr_rkey (rm_mr m)\<rparr>)
      in i\<lparr>ic_psn := take_bit 24 rnd\<rparr>)"

text \<open>\<open>create_context\<close> once a context has been initialised for the chosen device.\<close>

definition connect_context :: "'w verbs \<Rightarrow> 'w sys \<Rightarrow> endian \<Rightarrow> stack_junk \<Rightarrow> string option \<Rightarrow> int \<Rightarrow>
    init_params \<Rightarrow> rdma_context \<Rightarrow> ('w, rdma_context option) prog" where
  "connect_context V S e j hostname is_server params ctx =
     bnd (call (sys_page_size S)) (\<lambda>pg.
     let ctx = ctx\<lparr>ctx_page_size := pg\<rparr> in
     bnd (if p_use_event params \<noteq> 0
          then bnd (deref (ctx_recv_cq ctx)) (\<lambda>q. call (ibv_req_notify_cq V q)) else ret 0) (\<lambda>r.
     if r \<noteq> 0 then ret None
     else if pa_link_layer (ctx_portinfo ctx) = IBV_LINK_LAYER_INFINIBAND \<and> pa_lid (ctx_portinfo ctx) = 0
     then ret None else
     bnd (local_gid V ctx (p_gidx params)) (\<lambda>g.
     case g of None \<Rightarrow> ret None | Some gid \<Rightarrow>
     bnd (deref (ctx_qp ctx)) (\<lambda>qp.
     bnd (local_memory V S ctx (p_mem_size params)) (\<lambda>m.
     case m of None \<Rightarrow> ret None | Some rw \<Rightarrow>
     bnd (call (sys_lrand48 S)) (\<lambda>rnd.
     let ctx = (case rw of None \<Rightarrow> ctx | Some _ \<Rightarrow> ctx\<lparr>ctx_rw := rw\<rparr>);
         my_info = local_info (j_my j) ctx gid (qp_num qp) rw rnd in
     bnd (if is_server = 0
          then rdma_client_exch_dest S e j ctx hostname (p_port params) my_info
          else rdma_server_exch_dest V S e j ctx (ctx_ib_port ctx) (p_mtu params) (p_port params) 0
                 my_info (p_gidx params) (p_sockfd params)) (\<lambda>(remote, ctx).
     case remote of None \<Rightarrow> ret None | Some remote_info \<Rightarrow>
     let ctx = ctx\<lparr>ctx_remote_info := Some remote_info\<rparr> in
     bnd (if is_server = 0
          then rdma_connect_ctx V ctx (ctx_ib_port ctx) (ic_psn my_info) (p_mtu params) 0
                 remote_info (p_gidx params)
          else ret 0) (\<lambda>r.
     if r \<noteq> 0 then ret None
     else bnd (call (ibv_free_device_list V)) (\<lambda>_. ret (Some ctx))))))))))"

definition create_context :: "'w verbs \<Rightarrow> 'w sys \<Rightarrow> endian \<Rightarrow> stack_junk \<Rightarrow> string option \<Rightarrow> int \<Rightarrow>
    int \<Rightarrow> init_params \<Rightarrow> ('w, rdma_context option) prog" where
  "create_context V S e j hostname iport is_server params =
     bnd (call (ibv_get_device_list V)) (\<lambda>l.
     case l of None \<Rightarrow> ret None | Some dev_list \<Rightarrow>
     case find_device V (p_ib_devname params) dev_list of None \<Rightarrow> ret None | Some ib_dev \<Rightarrow>
     bnd (init_rdma_context V S ib_dev (p_rx_depth params) (p_ib_port params) (p_use_event params)
            is_server) (\<lambda>c.
     case c of None \<Rightarrow> ret None
     | Some ctx \<Rightarrow> connect_context V S e j hostname is_server params ctx))"

text \<open>\<open>p0\<close> is the uninitialised local structure; \<open>sockfd\<close>, \<open>mem_size\<close> and \<open>sr\<close> stay so.\<close>

definition rdma_socket :: "'w verbs \<Rightarrow> 'w sys \<Rightarrow> endian \<Rightarrow> stack_junk \<Rightarrow> init_params \<Rightarrow>
    string option \<Rightarrow> int \<Rightarrow> int \<Rightarrow> ('w, rdma_context option) prog" where
  "rdma_socket V S e j p0 hostname iport is_server =
     create_context V S e j hostname iport is_server
       (p0\<lparr>p_port := 18185, p_ib_port := 1, p_gidx := - 1, p_use_event := 0, p_rx_depth := 16000,
           p_mtu := IBV_MTU_1024, p_ib_devname := None\<rparr>)"

definition socket_params :: "init_params \<Rightarrow> init_params" where
  "socket_params params =
     (let params = (if p_port params = 0 then params\<lparr>p_port := 18185\<rparr> else params);
          params = (if p_ib_port params = 0 then params\<lparr>p_ib_port := 1\<rparr> else params)
      in params\<lparr>p_mtu := IBV_MTU_1024, p_rx_depth := 16000\<rparr>)"

definition rdma_socket_p :: "'w verbs \<Rightarrow> 'w sys \<Rightarrow> endian \<Rightarrow> stack_junk \<Rightarrow> string option \<Rightarrow> int \<Rightarrow>
    int \<Rightarrow> init_params \<Rightarrow> ('w, rdma_context option \<times> init_params) prog" where
  "rdma_socket_p V S e j hostname iport is_server params =
     (let params = socket_params params in
      bnd (create_context V S e j hostname iport is_server params) (\<lambda>c. ret (c, params)))"

section \<open>Facts about the message\<close>

lemma msg_size_86: "msg_size = 86"
  by (simp add: msg_size_def)

text \<open>One field of the message, followed by a colon, is scanned back.\<close>

lemma scan_field_x:
  "n < 2 ^ 32 \<Longrightarrow> scan_all (Scan_x None # Scan_lit (CHR '':'') # ds) (print_padded 16 8 n @ CHR '':'' # r)
     = map_sum id (\<lambda>vs. Num n # vs) (scan_all ds r)"
  by (simp add: scan_uint_print is_digit_specials)

lemma scan_field_lu:
  "n < 2 ^ 64 \<Longrightarrow> scan_all (Scan_lu None # Scan_lit (CHR '':'') # ds) (print_padded 10 16 n @ CHR '':'' # r)
     = map_sum id (\<lambda>vs. Num n # vs) (scan_all ds r)"
  by (simp add: scan_uint_print is_digit_specials)

lemma unat_u32_pow: "unat (x :: u32) < 2 ^ 32" and unat_u64_pow: "unat (y :: u64) < 2 ^ 64"
  using unat_u32_bound [of x] unat_u64_bound [of y] by simp_all

lemma scan_gid_text: "scan_all [Scan_s None] (gid_text g) = Inr [Str (gid_text g)]"
proof -
  have "gid_text g \<noteq> []" by (metis length_gid_text list.size(3) zero_neq_numeral)
  then have "scan_str None (gid_text g) = Some (gid_text g, [])"
    by (intro scan_str_whole) (auto dest: gid_text_digits is_digit_not_space)
  then show ?thesis by simp
qed

lemma info_text_no_NUL: "NUL \<notin> set (info_text i (gid_text g))"
  by (simp add: info_text_def print_padded_no_NUL NUL_not_in_gid_text)

lemma sscanf_info_text:
  "sscanf info_directives (info_text i (gid_text g) @ NUL # r) =
     Inr [Num (unat (ic_lid i)), Num (unat (ic_qpn i)), Num (unat (ic_psn i)),
          Num (unat (ic_addr i)), Num (unat (ic_rkey i)), Str (gid_text g)]"
  by (simp only: sscanf_terminated [OF info_text_no_NUL])
    (simp only: info_directives_def info_text_def append_Cons append_Nil scan_field_x [OF unat_u32_pow] scan_field_lu [OF unat_u64_pow] scan_gid_text map_sum.simps id_apply)

lemma read_info_text:
  assumes "gid_ok (ic_gid i)" and "gid_ok (ic_gid junk)" and "length gid = 33"
  shows "read_info e v0 (info_text i (gid_text (ic_gid i)) @ NUL # r) junk gid =
    Inr (i, gid_text (ic_gid i) @ [NUL])"
proof -
  have s: "scanned_str [a, b, c, d, f, Str (gid_text (ic_gid i))] 5 gid = Inr (gid_text (ic_gid i) @ [NUL])"
    for a b c d f using assms(3) by (simp add: scanned_str_def memcpy_at_def)
  show ?thesis
    using wire_gid_to_gid_eq [OF assms(1,2), of e v0 "[NUL]"]
    by (simp add: read_info_def sscanf_info_def sscanf_info_text s scanned_num_def)
qed

lemma length_info_text:
  "length (info_text i (gid_text g)) = 69 + length (print_padded 10 16 (unat (ic_addr i)))"
proof -
  have "length (print_padded 16 8 (unat (x :: u32))) = 8" for x
    using length_hex8 [of x] by (simp add: hex8_def)
  then show ?thesis by (simp add: info_text_def)
qed

lemma info_text_fits_iff: "length (info_text i (gid_text g)) + 1 \<le> msg_size \<longleftrightarrow> unat (ic_addr i) < 10 ^ 16"
  using length_print_padded_iff [of 10 16 "unat (ic_addr i)"] length_print_padded_ge [of 16 10 "unat (ic_addr i)"]
  unfolding length_info_text msg_size_86 by linarith

text \<open>The message as the peer receives it: all 86 bytes.\<close>

definition info_msg :: "info_con \<Rightarrow> bytes" where
  "info_msg i = info_text i (gid_text (ic_gid i)) @ [NUL]"

lemma length_info_msg: "unat (ic_addr i) < 10 ^ 16 \<Longrightarrow> length (info_msg i) = msg_size"
  using length_print_padded_iff [of 10 16 "unat (ic_addr i)"]
  by (simp add: info_msg_def length_info_text msg_size_86)

lemma sprintf_info_msg:
  assumes "unat (ic_addr i) < 10 ^ 16" and "length msg = msg_size"
  shows "sprintf_info i (gid_text (ic_gid i) @ [NUL]) msg = Inr (info_msg i)"
  using length_info_msg [OF assms(1)] assms(2)
  by (simp add: sprintf_info_def c_string_append_NUL NUL_not_in_gid_text memcpy_at_def flip: info_msg_def)

section \<open>Bringing the queue pair up\<close>

record connect_args =
  ca_ctx :: rdma_context
  ca_port :: int
  ca_psn :: u32
  ca_mtu :: ibv_mtu
  ca_sl :: int
  ca_dest :: info_con
  ca_sgid :: int

definition connect_steps :: "connect_args \<Rightarrow> (ibv_qp_attr \<times> ibv_qp_attr_mask list) list" where
  "connect_steps c =
     (let a = rtr_attr (ca_port c) (ca_mtu c) (ca_sl c) (ca_dest c) (ca_sgid c)
      in [(a, rtr_mask), (rts_attr (ca_psn c) a, rts_mask)])"

lemma qp_state_rtr_attr [simp]: "qp_state (rtr_attr port mtu sl dest sgid) = IBV_QPS_RTR"
  by (simp add: rtr_attr_def Let_def)

lemma qp_state_rts_attr [simp]: "qp_state (rts_attr psn a) = IBV_QPS_RTS"
  by (simp add: rts_attr_def)

interpretation sockup: rc_bringup V
  "\<lambda>c. rdma_connect_ctx (qp_watched V) (ca_ctx c) (ca_port c) (ca_psn c) (ca_mtu c) (ca_sl c) (ca_dest c) (ca_sgid c)"
  "\<lambda>r. r" "\<lambda>c. the (ctx_qp (ca_ctx c))" 1 connect_steps "\<lambda>c. ctx_qp (ca_ctx c) \<noteq> None"
  for V :: "'w verbs"
proof unfold_locales
  fix c :: connect_args assume "ctx_qp (ca_ctx c) \<noteq> None"
  then show "bnd (rdma_connect_ctx (qp_watched V) (ca_ctx c) (ca_port c) (ca_psn c) (ca_mtu c) (ca_sl c)
      (ca_dest c) (ca_sgid c)) (\<lambda>r. ret r) = modify_chain (qp_watched V) (the (ctx_qp (ca_ctx c))) 1 (connect_steps c)"
    by (auto simp: rdma_connect_ctx_def connect_steps_def Let_def deref_def cong: if_cong)
qed (simp_all add: connect_steps_def Let_def rc_legal_def rtr_mask_def rts_mask_def)

definition sample_info :: info_con where
  "sample_info = \<lparr>ic_lid = 3, ic_qpn = 1234, ic_psn = 0xabcdef, ic_rkey = 0x1e07, ic_addr = 140000000000000,
     ic_gid = sample_gid\<rparr>"

definition peer_info :: info_con where
  "peer_info = \<lparr>ic_lid = 4, ic_qpn = 99, ic_psn = 7, ic_rkey = 5, ic_addr = 4096, ic_gid = gid_zero\<rparr>"

definition sample_junk :: stack_junk where
  "sample_junk = \<lparr>j_msg = replicate 86 (CHR ''?''), j_gid = replicate 33 (CHR ''?''), j_v32 = 5,
     j_info = sample_info\<lparr>ic_lid := 77, ic_addr := 1\<rparr>, j_my = sample_info\<rparr>"

definition sample_ctx :: rdma_context where
  "sample_ctx = (ctx_zero 1)\<lparr>ctx_context := Some 2, ctx_pd := Some 3, ctx_recv_cq := Some 4,
     ctx_send_cq := Some 5, ctx_qp := Some \<lparr>qp_handle = 6, qp_num = 21\<rparr>, ctx_ib_port := 1\<rparr>"

lemma sample_ok:
  "gid_ok (ic_gid sample_info)" "gid_ok (ic_gid peer_info)" "unat (ic_addr sample_info) < 10 ^ 16"
  "unat (ic_addr peer_info) < 10 ^ 16" "junk_ok sample_junk"
  by (simp_all add: gid_ok_def sample_info_def peer_info_def sample_gid_def gid_zero_def junk_ok_def
      sample_junk_def msg_size_86)

section \<open>Inside the server's half\<close>

lemma read_info_length: "read_info e v0 msg junk gid = Inr (i, gid') \<Longrightarrow> length gid' = length gid"
  by (auto simp: read_info_def sscanf_info_def scanned_str_def sbnd_Inr_iff dest: memcpy_at_length
      split: if_splits scanned.splits)

lemma message_scanned:
  assumes "gid_ok (ic_gid i)" and "unat (ic_addr i) < 10 ^ 16" and "junk_ok j"
  shows "memcpy_at (j_msg j) 0 (info_msg i) = Inr (info_msg i)
    \<and> read_info e (j_v32 j) (info_msg i) (j_info j) (j_gid j) = Inr (i, gid_text (ic_gid i) @ [NUL])"
  using read_info_text [of i "j_info j" "j_gid j" e "j_v32 j" "[]"] length_info_msg [OF assms(2)] assms
  by (simp add: info_msg_def junk_ok_def memcpy_at_def)

lemma info_msg_inject:
  assumes "gid_ok (ic_gid i)" and "unat (ic_addr i) < 10 ^ 16" and "gid_ok (ic_gid i0)" and "unat (ic_addr i0) < 10 ^ 16"
    and "info_msg i = info_msg i0"
  shows "i = i0"
proof -
  note one = message_scanned [OF assms(1,2) sample_ok(5), of Little, THEN conjunct2]
  note two = message_scanned [OF assms(3,4) sample_ok(5), of Little, THEN conjunct2]
  have "Inr (i, gid_text (ic_gid i) @ [NUL]) = (Inr (i0, gid_text (ic_gid i0) @ [NUL]) :: fault + info_con \<times> bytes)"
    by (rule trans [OF one [symmetric] two [folded assms(5)]])
  then show ?thesis by (simp only: sum.inject prod.inject)
qed

text \<open>What the server does once its queue pair is connected.\<close>

definition server_answer :: "'w sys \<Rightarrow> endian \<Rightarrow> rdma_context \<Rightarrow> info_con \<Rightarrow> int \<Rightarrow> handle \<Rightarrow> info_con \<Rightarrow>
    bytes \<Rightarrow> bytes \<Rightarrow> ('w, info_con option \<times> rdma_context) prog" where
  "server_answer S e ctx my_info connfd ptr i msg gid =
     bnd (pure_prog (gid_to_wire_gid e (ic_gid my_info) gid)) (\<lambda>gid.
     bnd (pure_prog (sprintf_info my_info gid msg)) (\<lambda>msg.
     bnd (call (sys_write S connfd msg)) (\<lambda>n.
     if n \<noteq> int msg_size then bnd (call (sys_free S ptr)) (\<lambda>_. ret (None, ctx)) else
     bnd (call (sys_read S connfd msg_size)) (\<lambda>(_, bs).
     bnd (pure_prog (memcpy_at msg 0 bs)) (\<lambda>_.
     ret (Some i, ctx\<lparr>ctx_fd := connfd\<rparr>))))))"

lemma server_talk_run:
  assumes "server_talk V S e j ctx ib_port mtu sl my_info sgid fd w = (Inr (Some i, ctx'), w')"
  obtains bs msg w1 p w2 gid w3 where "sys_read S fd msg_size w = ((int msg_size, bs), w1)"
    and "memcpy_at (j_msg j) 0 bs = Inr msg" and "sys_alloc S w1 = (Some p, w2)"
    and "read_info e (j_v32 j) msg (j_info j) (j_gid j) = Inr (i, gid)"
    and "rdma_connect_ctx V ctx ib_port (ic_psn my_info) mtu sl i sgid w2 = (Inr 0, w3)"
    and "server_answer S e ctx my_info fd p i msg gid w3 = (Inr (Some i, ctx'), w')"
proof -
  have talk: "server_talk V S e j ctx ib_port mtu sl my_info sgid fd =
     bnd (call (sys_read S fd msg_size)) (\<lambda>(n, bs).
     if n \<noteq> int msg_size then ret (None, ctx) else
     bnd (pure_prog (memcpy_at (j_msg j) 0 bs)) (\<lambda>msg.
     bnd (call (sys_alloc S)) (\<lambda>p.
     case p of None \<Rightarrow> ret (None, ctx) | Some ptr \<Rightarrow>
     bnd (pure_prog (read_info e (j_v32 j) msg (j_info j) (j_gid j))) (\<lambda>(i, gid).
     bnd (rdma_connect_ctx V ctx ib_port (ic_psn my_info) mtu sl i sgid) (\<lambda>r.
     if r \<noteq> 0 then bnd (call (sys_free S ptr)) (\<lambda>_. ret (None, ctx))
     else server_answer S e ctx my_info fd ptr i msg gid)))))"
    by (simp only: server_talk_def server_answer_def)
  obtain n bs w1 where rd: "sys_read S fd msg_size w = ((n, bs), w1)" by (metis prod.exhaust)
  have n: "n = int msg_size"
    using assms by (rule contrapos_pp) (simp add: server_talk_def prog_simps rd)
  obtain msg p w2 where m: "memcpy_at (j_msg j) 0 bs = Inr msg" and al: "sys_alloc S w1 = (Some p, w2)"
    and cont: "bnd (pure_prog (read_info e (j_v32 j) msg (j_info j) (j_gid j))) (\<lambda>(i, gid).
       bnd (rdma_connect_ctx V ctx ib_port (ic_psn my_info) mtu sl i sgid) (\<lambda>r.
       if r \<noteq> 0 then bnd (call (sys_free S p)) (\<lambda>_. ret (None, ctx))
       else server_answer S e ctx my_info fd p i msg gid)) w2 = (Inr (Some i, ctx'), w')"
    using assms by (auto simp: talk bnd_Inr_iff pure_prog_Inr_iff call_Inr_iff rd n ret_Inr_iff
        split: option.splits)
  obtain i' gid r w3 where sc: "read_info e (j_v32 j) msg (j_info j) (j_gid j) = Inr (i', gid)"
    and con: "rdma_connect_ctx V ctx ib_port (ic_psn my_info) mtu sl i' sgid w2 = (Inr r, w3)"
    and ans: "(if r \<noteq> 0 then bnd (call (sys_free S p)) (\<lambda>_. ret (None, ctx))
       else server_answer S e ctx my_info fd p i' msg gid) w3 = (Inr (Some i, ctx'), w')"
    using cont by (auto simp: bnd_Inr_iff pure_prog_Inr_iff)
  have r: "r = 0" and a: "server_answer S e ctx my_info fd p i' msg gid w3 = (Inr (Some i, ctx'), w')"
    using ans by (auto simp: run_iffs split: if_splits)
  have "i' = i" using a by (auto simp: server_answer_def run_iffs split: if_splits)
  then show thesis using that rd n m al sc con r a by blast
qed

lemma server_talk_steps:
  assumes "gid_ok (ic_gid my_info)" and "unat (ic_addr my_info) < 10 ^ 16" and "junk_ok j"
  shows "server_talk V S e j ctx ib_port mtu sl my_info sgid fd w = (Inr (Some i, ctx'), w') \<longleftrightarrow>
    ctx' = ctx\<lparr>ctx_fd := fd\<rparr> \<and> (\<exists>bs msg w1 p w2 gid w3 w4 n bs'.
      sys_read S fd msg_size w = ((int msg_size, bs), w1) \<and> memcpy_at (j_msg j) 0 bs = Inr msg
      \<and> sys_alloc S w1 = (Some p, w2)
      \<and> read_info e (j_v32 j) msg (j_info j) (j_gid j) = Inr (i, gid)
      \<and> rdma_connect_ctx V ctx ib_port (ic_psn my_info) mtu sl i sgid w2 = (Inr 0, w3)
      \<and> sys_write S fd (info_msg my_info) w3 = (int msg_size, w4)
      \<and> sys_read S fd msg_size w4 = ((n, bs'), w') \<and> length bs' \<le> msg_size
      \<and> (\<forall>i0. gid_ok (ic_gid i0) \<and> unat (ic_addr i0) < 10 ^ 16 \<and> bs = info_msg i0 \<longrightarrow> i = i0))"
    (is "?run \<longleftrightarrow> ctx' = _ \<and> ?steps")
proof -
  have my: "length (info_msg my_info) = msg_size" using assms(2) by (rule length_info_msg)
  have answer: "gid_to_wire_gid e (ic_gid my_info) gid = Inr (gid_text (ic_gid my_info) @ [NUL])"
      "sprintf_info my_info (gid_text (ic_gid my_info) @ [NUL]) msg = Inr (info_msg my_info)"
    if "memcpy_at (j_msg j) 0 bs = Inr msg" and "read_info e (j_v32 j) msg (j_info j) (j_gid j) = Inr (i, gid)"
    for bs msg i gid
    using that assms read_info_length [OF that(2)] memcpy_at_length [OF that(1)]
    by (simp_all add: gid_to_wire_gid_eq sprintf_info_msg junk_ok_def)
  have last: "(\<exists>d. memcpy_at (info_msg my_info) 0 bs = Inr d) \<longleftrightarrow> length bs \<le> msg_size" for bs
    by (simp add: memcpy_at_def my)
  show ?thesis
  proof
    assume run: ?run
    obtain bs msg w1 p w2 gid w3 where rd: "sys_read S fd msg_size w = ((int msg_size, bs), w1)"
      and m: "memcpy_at (j_msg j) 0 bs = Inr msg" and al: "sys_alloc S w1 = (Some p, w2)"
      and sc: "read_info e (j_v32 j) msg (j_info j) (j_gid j) = Inr (i, gid)"
      and con: "rdma_connect_ctx V ctx ib_port (ic_psn my_info) mtu sl i sgid w2 = (Inr 0, w3)"
      and rest: "server_answer S e ctx my_info fd p i msg gid w3 = (Inr (Some i, ctx'), w')"
      by (rule server_talk_run [OF run])
    obtain w4 n bs' where "sys_write S fd (info_msg my_info) w3 = (int msg_size, w4)"
      and "sys_read S fd msg_size w4 = ((n, bs'), w')" and "length bs' \<le> msg_size" and ctx': "ctx' = ctx\<lparr>ctx_fd := fd\<rparr>"
      using rest last by (auto simp: server_answer_def answer [OF m sc] run_iffs split: if_splits)
    moreover have "i = i0" if "gid_ok (ic_gid i0)" "unat (ic_addr i0) < 10 ^ 16" "bs = info_msg i0" for i0
      using m sc that assms(3) message_scanned [of i0 j e] by (simp add: junk_ok_def)
    ultimately show "ctx' = ctx\<lparr>ctx_fd := fd\<rparr> \<and> ?steps" using rd m al sc con by blast
  next
    assume "ctx' = ctx\<lparr>ctx_fd := fd\<rparr> \<and> ?steps"
    then obtain bs msg w1 p w2 gid w3 w4 n bs' where
      ctx': "ctx' = ctx\<lparr>ctx_fd := fd\<rparr>" and rd: "sys_read S fd msg_size w = ((int msg_size, bs), w1)"
      and m: "memcpy_at (j_msg j) 0 bs = Inr msg" and al: "sys_alloc S w1 = (Some p, w2)"
      and sc: "read_info e (j_v32 j) msg (j_info j) (j_gid j) = Inr (i, gid)"
      and con: "rdma_connect_ctx V ctx ib_port (ic_psn my_info) mtu sl i sgid w2 = (Inr 0, w3)"
      and wr: "sys_write S fd (info_msg my_info) w3 = (int msg_size, w4)"
      and rd2: "sys_read S fd msg_size w4 = ((n, bs'), w')" and le: "length bs' \<le> msg_size" by blast
    obtain d where "memcpy_at (info_msg my_info) 0 bs' = Inr d" using last le by blast
    then show ?run
      by (simp add: server_talk_def prog_simps rd m al sc con wr rd2 answer [OF m sc] ctx')
  qed
qed

lemma client_talk_steps:
  assumes "gid_ok (ic_gid my_info)" and "unat (ic_addr my_info) < 10 ^ 16" and "junk_ok j"
  shows "client_talk S e j ctx fd my_info w = (Inr (Some i, ctx'), w') \<longleftrightarrow>
    ctx' = ctx\<lparr>ctx_fd := fd\<rparr> \<and> (\<exists>w1 bs w2 msg n w3 p gid.
      sys_write S fd (info_msg my_info) w = (int msg_size, w1)
      \<and> sys_read S fd msg_size w1 = ((int msg_size, bs), w2) \<and> memcpy_at (info_msg my_info) 0 bs = Inr msg
      \<and> sys_write S fd (''done'' @ [NUL]) w2 = (n, w3) \<and> sys_alloc S w3 = (Some p, w')
      \<and> read_info e (j_v32 j) msg (j_info j) (gid_text (ic_gid my_info) @ [NUL]) = Inr (i, gid))"
    (is "?run \<longleftrightarrow> ?steps")
proof -
  have g: "gid_to_wire_gid e (ic_gid my_info) (j_gid j) = Inr (gid_text (ic_gid my_info) @ [NUL])"
    using assms(1,3) by (simp add: gid_to_wire_gid_eq junk_ok_def)
  have p: "sprintf_info my_info (gid_text (ic_gid my_info) @ [NUL]) (j_msg j) = Inr (info_msg my_info)"
    using assms(3) by (intro sprintf_info_msg assms(2)) (simp add: junk_ok_def)
  show ?thesis
  proof
    assume ?run
    then show ?steps by (auto simp: client_talk_def run_iffs g p split: if_splits option.splits)
  next
    assume ?steps
    then show ?run by (auto simp: client_talk_def prog_simps g p)
  qed
qed

text \<open>An environment that logs what is written to sockets.\<close>

definition wire_sys :: "'w sys \<Rightarrow> ('w \<times> bytes list) sys" where
  "wire_sys S = (lift_sys S)\<lparr>sys_write := (\<lambda>fd bs. logging_call [bs] (sys_write S fd bs))\<rparr>"

lemma wire_sys_sel [simp]:
  "sys_write (wire_sys S) = (\<lambda>fd bs. logging_call [bs] (sys_write S fd bs))"
  "sys_read (wire_sys S) = (\<lambda>fd n. unseen (sys_read S fd n))"
  "sys_alloc (wire_sys S) = unseen (sys_alloc S)"
  by (simp_all add: wire_sys_def)

lemma rdma_connect_ctx_lifted:
  "rdma_connect_ctx (lift_verbs V) ctx port psn mtu sl dest sgid (w, g) =
     (case rdma_connect_ctx V ctx port psn mtu sl dest sgid w of (r, w') \<Rightarrow> (r, (w', g)))"
  by (simp add: rdma_connect_ctx_def prog_simps watch_simps Let_def split: option.split)

section \<open>Properties\<close>

text \<open>
  C19. The connection message is exact: an \<open>info_con\<close> that one end prints with
  \<open>gid_to_wire_gid\<close> and \<open>sprintf\<close> is recovered by the other end's \<open>sscanf\<close> and
  \<open>wire_gid_to_gid\<close>, for every address below \<open>10 ^ 16\<close>, whatever the byte orders of the two
  hosts and whatever the receiver's buffers held.
\<close>

theorem info_con_roundtrip:
  assumes "gid_ok (ic_gid i)" and "unat (ic_addr i) < 10 ^ 16" and "junk_ok j" and "junk_ok j'"
  shows "sbnd (gid_to_wire_gid e (ic_gid i) (j_gid j)) (\<lambda>gid.
         sbnd (sprintf_info i gid (j_msg j)) (\<lambda>msg.
         sbnd (read_info e' (j_v32 j') msg (j_info j') (j_gid j')) (\<lambda>(i', gid'). Inr (length msg, i'))))
       = Inr (msg_size, i)"
  using assms sprintf_info_msg [of i "j_msg j"] length_info_msg [of i]
    read_info_text [of i "j_info j'" "j_gid j'" e' "j_v32 j'" "[]"]
  by (simp add: junk_ok_def gid_to_wire_gid_eq info_msg_def)

theorem info_con_roundtrip_witness:
  "sbnd (gid_to_wire_gid Little (ic_gid sample_info) (j_gid sample_junk)) (\<lambda>gid.
         sbnd (sprintf_info sample_info gid (j_msg sample_junk)) (\<lambda>msg.
         sbnd (read_info Big 5 msg (j_info sample_junk) (j_gid sample_junk)) (\<lambda>(i', gid'). Inr (length msg, i'))))
       = Inr (msg_size, sample_info)"
  using info_con_roundtrip [OF sample_ok(1,3,5,5), of Little Big] by (simp add: sample_junk_def)

text \<open>
  C32. The message buffer has room for the printed information exactly when the buffer
  address has at most sixteen decimal digits; for a larger address \<open>sprintf\<close> writes past
  the end of \<open>msg\<close>.
\<close>

theorem info_message_fits:
  assumes "length msg = msg_size"
  shows "sprintf_info i (gid_text (ic_gid i) @ [NUL]) msg
    = (if unat (ic_addr i) < 10 ^ 16 then Inr (info_msg i) else Inl Undefined_behaviour)"
proof (cases "unat (ic_addr i) < 10 ^ 16")
  case True
  then show ?thesis using assms by (simp add: sprintf_info_msg)
next
  case False
  then show ?thesis
    using info_text_fits_iff [of i "ic_gid i"] assms
    by (simp add: sprintf_info_def c_string_append_NUL NUL_not_in_gid_text memcpy_at_def)
qed

theorem info_message_fits_witness:
  "length (j_msg sample_junk) = msg_size \<and>
   sprintf_info (sample_info\<lparr>ic_addr := 10000000000000000\<rparr>) (gid_text sample_gid @ [NUL]) (j_msg sample_junk)
     = Inl Undefined_behaviour"
proof -
  have l: "length (j_msg sample_junk) = msg_size" using sample_ok(5) by (simp add: junk_ok_def)
  show ?thesis
    using l info_message_fits [OF l, of "sample_info\<lparr>ic_addr := 10000000000000000\<rparr>"]
    by (simp add: sample_info_def)
qed

text \<open>
  C22. \<open>rdma_connect_ctx\<close> on a queue pair in INIT, in every environment: it ends without a
  fault, each of its \<open>ibv_modify_qp\<close> calls is a legal transition that carries all the
  attributes the transition requires, result 0 means that the queue pair is in RTS, and
  result 1 that it is still in INIT or RTR.
\<close>

theorem rdma_connect_ctx_brings_up:
  assumes "ctx_qp ctx = Some qp" and "qp_states g (qp_handle qp) = IBV_QPS_INIT" and "all_legal g"
  shows "\<exists>r w' g'. rdma_connect_ctx (qp_watched V) ctx port psn mtu sl dest sgid (w, g) = (Inr r, (w', g'))
    \<and> all_legal g' \<and> (r = 0 \<and> qp_states g' (qp_handle qp) = IBV_QPS_RTS
       \<or> r = 1 \<and> qp_states g' (qp_handle qp) \<in> {IBV_QPS_INIT, IBV_QPS_RTR})"
  using sockup.bringup [of "\<lparr>ca_ctx = ctx, ca_port = port, ca_psn = psn, ca_mtu = mtu, ca_sl = sl,
    ca_dest = dest, ca_sgid = sgid\<rparr>" g V w] assms by simp

theorem rdma_connect_ctx_brings_up_witness:
  "\<exists>r w' g'. rdma_connect_ctx (qp_watched sample_verbs) sample_ctx 1 7 IBV_MTU_1024 0 peer_info 0
      (0, \<lparr>qp_states = (\<lambda>_. IBV_QPS_INIT), all_legal = True\<rparr>) = (Inr r, (w', g'))
    \<and> all_legal g' \<and> (r = 0 \<and> qp_states g' 6 = IBV_QPS_RTS
       \<or> r = 1 \<and> qp_states g' 6 \<in> {IBV_QPS_INIT, IBV_QPS_RTR})"
  using rdma_connect_ctx_brings_up [of sample_ctx "\<lparr>qp_handle = 6, qp_num = 21\<rparr>"
      "\<lparr>qp_states = (\<lambda>_. IBV_QPS_INIT), all_legal = True\<rparr>" sample_verbs 1 7 IBV_MTU_1024 0 peer_info 0 0]
  by (simp add: sample_ctx_def)

text \<open>
  C20. The server's half of the exchange succeeds exactly when all of its steps do: it returns the
  information \<open>i\<close> of the client if and only if a complete message of 86 bytes was read, memory for
  the result could be had, the message scans as \<open>i\<close>, the queue pair was connected to \<open>i\<close> (result 0),
  the server's own information was written as one complete message, and a last read followed; the
  context then has the connection as its \<open>fd\<close>. If what was read is the message of some
  \<open>info_con\<close>, \<open>i\<close> is that one. (Whether the last read got anything does not matter.)
\<close>

theorem server_talk_exchanges:
  assumes "gid_ok (ic_gid my_info)" and "unat (ic_addr my_info) < 10 ^ 16" and "junk_ok j"
  shows "server_talk V S e j ctx ib_port mtu sl my_info sgid fd w = (Inr (Some i, ctx'), w') \<longleftrightarrow>
    ctx' = ctx\<lparr>ctx_fd := fd\<rparr> \<and> (\<exists>bs msg w1 p w2 gid w3 w4 n bs'.
      sys_read S fd msg_size w = ((int msg_size, bs), w1) \<and> memcpy_at (j_msg j) 0 bs = Inr msg
      \<and> sys_alloc S w1 = (Some p, w2)
      \<and> read_info e (j_v32 j) msg (j_info j) (j_gid j) = Inr (i, gid)
      \<and> rdma_connect_ctx V ctx ib_port (ic_psn my_info) mtu sl i sgid w2 = (Inr 0, w3)
      \<and> sys_write S fd (info_msg my_info) w3 = (int msg_size, w4)
      \<and> sys_read S fd msg_size w4 = ((n, bs'), w') \<and> length bs' \<le> msg_size
      \<and> (\<forall>i0. gid_ok (ic_gid i0) \<and> unat (ic_addr i0) < 10 ^ 16 \<and> bs = info_msg i0 \<longrightarrow> i = i0))"
  by (rule server_talk_steps [OF assms])

lemma sample_len: "length (info_msg sample_info) = msg_size" "length (info_msg peer_info) = msg_size"
  by (rule length_info_msg [OF sample_ok(3)], rule length_info_msg [OF sample_ok(4)])

text \<open>The peer's side of a conversation: a read gives the peer's message.\<close>

definition talking_sys :: "info_con \<Rightarrow> nat sys" where
  "talking_sys i = sample_sys\<lparr>sys_read := (\<lambda>fd n w. ((int msg_size, info_msg i), w))\<rparr>"

theorem server_talk_exchanges_witness:
  "server_talk sample_verbs (talking_sys peer_info) Little sample_junk sample_ctx 1 IBV_MTU_1024 0
     sample_info 0 4 10 = (Inr (Some peer_info, sample_ctx\<lparr>ctx_fd := 4\<rparr>), 11)
   \<and> (\<exists>w3. rdma_connect_ctx sample_verbs sample_ctx 1 (ic_psn sample_info) IBV_MTU_1024 0 peer_info 0 11 = (Inr 0, w3))"
proof -
  have run: "server_talk sample_verbs (talking_sys peer_info) Little sample_junk sample_ctx 1 IBV_MTU_1024 0
     sample_info 0 4 10 = (Inr (Some peer_info, sample_ctx\<lparr>ctx_fd := 4\<rparr>), 11)"
    using message_scanned [OF sample_ok(2,4,5), of Little] info_msg_inject [OF sample_ok(2,4)]
    by (subst server_talk_exchanges [OF sample_ok(1,3,5)])
      (auto simp: talking_sys_def sample_sys_def sample_verbs_def rdma_connect_ctx_def sample_ctx_def
        prog_simps Let_def sample_len)
  moreover from this obtain w3 where
    "rdma_connect_ctx sample_verbs sample_ctx 1 (ic_psn sample_info) IBV_MTU_1024 0 peer_info 0 11 = (Inr 0, w3)"
    unfolding server_talk_exchanges [OF sample_ok(1,3,5)] by (auto simp: talking_sys_def sample_sys_def)
  ultimately show ?thesis by blast
qed

text \<open>
  C21. The two halves of the exchange fit together. A client and a server have come to the end of their halves, each in
  an environment of its own that logs what is written to the socket. If the server's first read got the client's first
  message and the client's read got the server's message, then each has learnt exactly the other's information, whatever
  their byte orders and whatever their buffers held; the server has connected its queue pair to the client's
  information, the client has confirmed with \<open>done\<close>, and nothing else was written.
\<close>

theorem exchange_agrees:
  assumes "gid_ok (ic_gid ci)" and "unat (ic_addr ci) < 10 ^ 16" and "gid_ok (ic_gid si)" and "unat (ic_addr si) < 10 ^ 16"
    and "junk_ok j" and "junk_ok j'"
    and "client_talk (wire_sys S) e j ctx fd ci (w, []) = (Inr (Some i, cctx), (w', clog))"
    and "server_talk (lift_verbs V) (wire_sys S') e' j' ctx' ib_port mtu sl si sgid fd' (v, []) = (Inr (Some i', sctx), (v', slog))"
    and "fst (sys_read S' fd' msg_size v) = (int msg_size, hd clog)"
    and "fst (sys_read S fd msg_size (snd (sys_write S fd (hd clog) w))) = (int msg_size, hd slog)"
  shows "i' = ci \<and> i = si \<and> clog = [info_msg ci, ''done'' @ [NUL]] \<and> slog = [info_msg si]
    \<and> cctx = ctx\<lparr>ctx_fd := fd\<rparr> \<and> sctx = ctx'\<lparr>ctx_fd := fd'\<rparr>
    \<and> fst (rdma_connect_ctx V ctx' ib_port (ic_psn si) mtu sl ci sgid (snd (sys_alloc S' (snd (sys_read S' fd' msg_size v))))) = Inr 0"
proof -
  obtain w1 bs w2 msg n w3 p gid where cctx: "cctx = ctx\<lparr>ctx_fd := fd\<rparr>"
    and wr: "sys_write (wire_sys S) fd (info_msg ci) (w, []) = (int msg_size, w1)"
    and rd: "sys_read (wire_sys S) fd msg_size w1 = ((int msg_size, bs), w2)"
    and m: "memcpy_at (info_msg ci) 0 bs = Inr msg"
    and dn: "sys_write (wire_sys S) fd (''done'' @ [NUL]) w2 = (n, w3)"
    and al: "sys_alloc (wire_sys S) w3 = (Some p, (w', clog))"
    and sc: "read_info e (j_v32 j) msg (j_info j) (gid_text (ic_gid ci) @ [NUL]) = Inr (i, gid)"
    using client_talk_steps [OF assms(1,2,5), of "wire_sys S" e ctx fd "(w, [])" i cctx "(w', clog)"] assms(7) by blast
  have clog: "clog = [info_msg ci, ''done'' @ [NUL]]" and w1: "w1 = (snd (sys_write S fd (info_msg ci) w), [info_msg ci])"
    using wr rd dn al by (auto simp: watch_simps)
  obtain bs' v1 v2 v3 v4 n' bs2 where sctx: "sctx = ctx'\<lparr>ctx_fd := fd'\<rparr>"
    and rd': "sys_read (wire_sys S') fd' msg_size (v, []) = ((int msg_size, bs'), v1)"
    and al': "\<exists>p. sys_alloc (wire_sys S') v1 = (Some p, v2)"
    and con: "rdma_connect_ctx (lift_verbs V) ctx' ib_port (ic_psn si) mtu sl i' sgid v2 = (Inr 0, v3)"
    and wr': "sys_write (wire_sys S') fd' (info_msg si) v3 = (int msg_size, v4)"
    and rd2: "sys_read (wire_sys S') fd' msg_size v4 = ((n', bs2), (v', slog))"
    and i': "\<forall>i0. gid_ok (ic_gid i0) \<and> unat (ic_addr i0) < 10 ^ 16 \<and> bs' = info_msg i0 \<longrightarrow> i' = i0"
    using server_talk_steps [OF assms(3,4,6), of "lift_verbs V" "wire_sys S'" e' ctx' ib_port mtu sl sgid fd' "(v, [])" i' sctx "(v', slog)"]
      assms(8) by blast
  have v2: "v2 = (snd (sys_alloc S' (snd (sys_read S' fd' msg_size v))), [])" using rd' al' by (auto simp: watch_simps)
  have up: "fst (rdma_connect_ctx V ctx' ib_port (ic_psn si) mtu sl i' sgid (fst v2)) = Inr 0" and "snd v3 = []"
    using con by (auto simp: v2 rdma_connect_ctx_lifted split: prod.splits)
  have slog: "slog = [info_msg si]" using \<open>snd v3 = []\<close> wr' rd2 by (cases v3) (auto simp: watch_simps)
  have "bs' = info_msg ci" using assms(9) rd' clog by (auto simp: watch_simps)
  then have first: "i' = ci" using i' assms(1,2) by blast
  have "bs = info_msg si" using assms(10) rd clog slog w1 by (auto simp: watch_simps)
  then have "msg = info_msg si" using m length_info_msg [OF assms(2)] length_info_msg [OF assms(4)] by (simp add: memcpy_at_def)
  then have "i = si"
    using sc read_info_text [OF assms(3), of "j_info j" "gid_text (ic_gid ci) @ [NUL]" e "j_v32 j" "[]"] assms(5)
    by (simp add: info_msg_def junk_ok_def)
  then show ?thesis using first clog slog cctx sctx up v2 by simp
qed

lemma exchange_agrees_witness:
  "\<exists>i w' clog i' v' slog.
     client_talk (wire_sys (talking_sys peer_info)) Big sample_junk sample_ctx 4 sample_info (10, [])
       = (Inr (Some i, sample_ctx\<lparr>ctx_fd := 4\<rparr>), (w', clog))
   \<and> server_talk (lift_verbs sample_verbs) (wire_sys (talking_sys sample_info)) Little sample_junk sample_ctx 1 IBV_MTU_1024 0 peer_info 0 5 (10, [])
       = (Inr (Some i', sample_ctx\<lparr>ctx_fd := 5\<rparr>), (v', slog))
   \<and> i' = sample_info \<and> i = peer_info"
proof -
  note facts = talking_sys_def sample_sys_def sample_verbs_def rdma_connect_ctx_def sample_ctx_def prog_simps watch_simps Let_def sample_len
  have r: "read_info Big (j_v32 sample_junk) (info_msg peer_info) (j_info sample_junk) (gid_text (ic_gid sample_info) @ [NUL])
      = Inr (peer_info, gid_text (ic_gid peer_info) @ [NUL])"
    using read_info_text [OF sample_ok(2), of "j_info sample_junk" "gid_text (ic_gid sample_info) @ [NUL]" Big "j_v32 sample_junk" "[]"] sample_ok(5)
    by (simp add: info_msg_def junk_ok_def)
  have "memcpy_at (info_msg sample_info) 0 (info_msg peer_info) = Inr (info_msg peer_info)" by (simp add: memcpy_at_def sample_len)
  then have c: "client_talk (wire_sys (talking_sys peer_info)) Big sample_junk sample_ctx 4 sample_info (10, [])
      = (Inr (Some peer_info, sample_ctx\<lparr>ctx_fd := 4\<rparr>), (11, [info_msg sample_info, ''done'' @ [NUL]]))"
    by (subst client_talk_steps [OF sample_ok(1,3,5)]) (auto simp: facts r)
  have s: "server_talk (lift_verbs sample_verbs) (wire_sys (talking_sys sample_info)) Little sample_junk sample_ctx 1 IBV_MTU_1024 0 peer_info 0 5 (10, [])
      = (Inr (Some sample_info, sample_ctx\<lparr>ctx_fd := 5\<rparr>), (11, [info_msg peer_info]))"
    using message_scanned [OF sample_ok(1,3,5), of Little] info_msg_inject [OF sample_ok(1,3)]
    by (subst server_talk_steps [OF sample_ok(2,4,5)]) (auto simp: facts)
  have "sample_info = sample_info \<and> peer_info = peer_info"
    using exchange_agrees [OF sample_ok(1,3,2,4,5,5) c s] by (simp add: talking_sys_def)
  then show ?thesis using c s by blast
qed

end
