(* ===== verification/SocketOps.thy ===== *)
theory SocketOps
  imports SocketExchange
begin

text \<open>
  The data path of \<open>debug/rdma_socket.c\<close>: posting a send or an RDMA operation, posting a
  receive, and waiting for completions. \<open>rdma_query_cq\<close> polls until something completes,
  so its model takes the number of polls it may make; the lemmas say when it returns, what
  it returns, and that with a queue that stays empty it never does.
\<close>

section \<open>Definitions\<close>

definition send_wr :: "info_con option \<Rightarrow> rdma_task \<Rightarrow> ('w, ibv_send_wr) prog" where
  "send_wr remote task =
     (let sge = \<lparr>sge_addr = rm_buf (task_mem task), sge_length = ucast (task_size task),
                 sge_lkey = mr_lkey (rm_mr (task_mem task))\<rparr>;
          wr = \<lparr>swr_id = task_id task, swr_sg_list = [sge], swr_opcode = IBV_WR_SEND,
                swr_signaled = True, swr_remote_addr = 0, swr_rkey = 0\<rparr>
      in if task_opcode task \<noteq> IBV_WR_SEND then
           (if task_rkey task = 0 \<and> task_remote_addr task = 0 then
              bnd (deref remote) (\<lambda>i.
              ret (wr\<lparr>swr_remote_addr := ic_addr i, swr_rkey := ic_rkey i,
                      swr_opcode := task_opcode task\<rparr>))
            else ret (wr\<lparr>swr_remote_addr := task_remote_addr task, swr_rkey := task_rkey task,
                         swr_opcode := task_opcode task\<rparr>))
         else ret wr)"

definition rdma_post_send :: "'w verbs \<Rightarrow> rdma_context \<Rightarrow> rdma_task \<Rightarrow> ('w, int) prog" where
  "rdma_post_send V ctx task =
     bnd (send_wr (ctx_remote_info ctx) task) (\<lambda>wr.
     bnd (deref (ctx_qp ctx)) (\<lambda>qp.
     bnd (call (ibv_post_send V qp [wr])) (\<lambda>r.
     if r \<noteq> 0 then ret (- 1) else ret 0)))"

definition rdma_post_recv :: "'w verbs \<Rightarrow> rdma_context \<Rightarrow> rdma_task \<Rightarrow> ('w, int) prog" where
  "rdma_post_recv V ctx task =
     bnd (deref (ctx_qp ctx)) (\<lambda>qp.
     call (ibv_post_recv V qp
       \<lparr>rwr_id = task_id task,
        rwr_sg_list = [\<lparr>sge_addr = rm_buf (task_mem task), sge_length = ucast (rm_size (task_mem task)),
                        sge_lkey = mr_lkey (rm_mr (task_mem task))\<rparr>]\<rparr>))"

text \<open>The polling loop: it goes on while nothing has completed and events are not used.\<close>

fun poll_loop :: "nat \<Rightarrow> 'w verbs \<Rightarrow> handle \<Rightarrow> int \<Rightarrow> int \<Rightarrow> ('w, poll_result) prog" where
  "poll_loop 0 V cq maxCQE use_event = fail Out_of_fuel"
| "poll_loop (Suc fuel) V cq maxCQE use_event =
     bnd (call (ibv_poll_cq V cq maxCQE)) (\<lambda>r.
     case r of
       Poll_error e \<Rightarrow> ret r
     | Completions wcs \<Rightarrow>
         if use_event = 0 \<and> wcs = [] then poll_loop fuel V cq maxCQE use_event else ret r)"

definition wait_event :: "'w verbs \<Rightarrow> rdma_context \<Rightarrow> handle \<Rightarrow> int \<Rightarrow> ('w, bool) prog" where
  "wait_event V ctx cq use_event =
     (if use_event \<noteq> 0 then
        bnd (deref (ctx_channel ctx)) (\<lambda>ch.
        bnd (call (ibv_get_cq_event V ch)) (\<lambda>(r, ev_cq).
        if r \<noteq> 0 then ret False
        else if ev_cq \<noteq> cq then ret False
        else bnd (call (ibv_req_notify_cq V cq)) (\<lambda>r. ret (r = 0))))
      else ret True)"

text \<open>
  The result is the return value and the completions stored in the caller's array. The local
  \<open>use_event\<close> is the constant 0, so the event branch is never taken.
\<close>

definition rdma_query_cq :: "nat \<Rightarrow> 'w verbs \<Rightarrow> rdma_context \<Rightarrow> int \<Rightarrow> int \<Rightarrow>
    ('w, int \<times> ibv_wc list) prog" where
  "rdma_query_cq fuel V ctx maxCQE flag =
     (let use_event = 0 in
      if flag = 1 \<or> flag = 2 then
        bnd (deref (if flag = 1 then ctx_send_cq ctx else ctx_recv_cq ctx)) (\<lambda>cq.
        bnd (wait_event V ctx cq use_event) (\<lambda>ok.
        if \<not> ok then ret (- 1, []) else
        bnd (poll_loop fuel V cq maxCQE use_event) (\<lambda>r.
        case r of
          Poll_error e \<Rightarrow> ret (- 1, [])
        | Completions wcs \<Rightarrow>
            if \<exists>wc \<in> set wcs. wc_status wc \<noteq> IBV_WC_SUCCESS then ret (- 1, wcs)
            else ret (int (length wcs), wcs))))
      else ret (- 1, []))"

section \<open>Waiting for completions\<close>

text \<open>\<open>k\<close> polls in a row that find nothing, from one outside state to another.\<close>

fun empty_polls :: "'w verbs \<Rightarrow> handle \<Rightarrow> int \<Rightarrow> nat \<Rightarrow> 'w \<Rightarrow> 'w \<Rightarrow> bool" where
  "empty_polls V cq m 0 w w' = (w' = w)"
| "empty_polls V cq m (Suc k) w w' =
     (fst (ibv_poll_cq V cq m w) = Completions [] \<and> empty_polls V cq m k (snd (ibv_poll_cq V cq m w)) w')"

definition cq_of_flag :: "rdma_context \<Rightarrow> int \<Rightarrow> handle option" where
  "cq_of_flag ctx flag = (if flag = 1 then ctx_send_cq ctx else if flag = 2 then ctx_recv_cq ctx else None)"

definition query_result :: "poll_result \<Rightarrow> int \<times> ibv_wc list" where
  "query_result r = (case r of Poll_error e \<Rightarrow> (- 1, [])
     | Completions wcs \<Rightarrow> (if \<exists>wc \<in> set wcs. wc_status wc \<noteq> IBV_WC_SUCCESS then (- 1, wcs)
                          else (int (length wcs), wcs)))"

lemma poll_loop_finds:
  assumes "empty_polls V cq m k w w1" and "k < fuel" and "ibv_poll_cq V cq m w1 = (r, w2)"
    and "r \<noteq> Completions []"
  shows "poll_loop fuel V cq m 0 w = (Inr r, w2)"
  using assms(1,2)
proof (induction k arbitrary: fuel w)
  case 0
  then show ?case using assms(3,4) by (cases fuel) (auto simp: prog_simps split: poll_result.splits)
next
  case (Suc k)
  then show ?case by (cases fuel) (auto simp: prog_simps)
qed

lemma poll_loop_starves:
  assumes "\<And>k. \<exists>w'. empty_polls V cq m k w w'"
  shows "\<exists>w'. poll_loop fuel V cq m 0 w = (Inl Out_of_fuel, w')"
  using assms
proof (induction fuel arbitrary: w)
  case 0
  then show ?case by (simp add: prog_simps)
next
  case (Suc fuel)
  have e: "fst (ibv_poll_cq V cq m w) = Completions []" using Suc.prems [of 1] by simp
  have "\<exists>w'. empty_polls V cq m k (snd (ibv_poll_cq V cq m w)) w'" for k
    using Suc.prems [of "Suc k"] by simp
  from Suc.IH [OF this] show ?case by (simp add: prog_simps e)
qed

lemma poll_loop_result:
  "poll_loop fuel V cq m 0 w = (Inr r, w') \<Longrightarrow> r \<noteq> Completions []"
  by (induction fuel arbitrary: w) (auto simp: prog_simps split: poll_result.splits if_splits)

lemma rdma_query_cq_eq:
  assumes "cq_of_flag ctx flag = Some cq"
  shows "rdma_query_cq fuel V ctx m flag =
    bnd (poll_loop fuel V cq m 0) (\<lambda>r. ret (query_result r))"
proof -
  have "(flag = 1 \<or> flag = 2) \<and> (if flag = 1 then ctx_send_cq ctx else ctx_recv_cq ctx) = Some cq"
    using assms by (auto simp: cq_of_flag_def split: if_splits)
  then show ?thesis
    by (intro ext) (simp add: rdma_query_cq_def Let_def deref_def wait_event_def bnd_apply
        query_result_def ret_apply split: sum.split poll_result.split)
qed

lemma query_result_cases:
  "r \<noteq> Completions [] \<Longrightarrow> query_result r = (n, wcs) \<Longrightarrow>
   n = - 1 \<or> (1 \<le> n \<and> n = int (length wcs) \<and> (\<forall>wc \<in> set wcs. wc_status wc = IBV_WC_SUCCESS))"
  by (cases r) (auto simp: query_result_def Suc_le_eq split: if_splits)

lemma rdma_query_cq_bad_flag:
  "flag \<noteq> 1 \<Longrightarrow> flag \<noteq> 2 \<Longrightarrow> rdma_query_cq fuel V ctx m flag w = (Inr (- 1, []), w)"
  by (simp add: rdma_query_cq_def prog_simps)

text \<open>An environment whose completion queue delivers one completion after three polls.\<close>

definition sample_wc :: ibv_wc where
  "sample_wc = \<lparr>wc_wr_id = 666, wc_status = IBV_WC_SUCCESS, wc_byte_len = 100\<rparr>"

definition slow_verbs :: "nat verbs" where
  "slow_verbs = sample_verbs\<lparr>ibv_poll_cq :=
     (\<lambda>cq m w. (Completions (if w < 3 then [] else [sample_wc]), Suc w))\<rparr>"

definition linked_ctx :: rdma_context where
  "linked_ctx = sample_ctx\<lparr>ctx_remote_info := Some peer_info\<rparr>"

definition write_task :: rdma_task where
  "write_task = \<lparr>task_mem = \<lparr>rm_mr = \<lparr>mr_handle = 1, mr_addr = 4096, mr_lkey = 11, mr_rkey = 12\<rparr>,
       rm_buf = 4096, rm_size = 65536, rm_ptr = 2\<rparr>, task_opcode = IBV_WR_RDMA_WRITE,
     task_size = 512, task_rkey = 0, task_remote_addr = 0, task_id = 233\<rparr>"

section \<open>Properties\<close>

text \<open>
  C26. \<open>rdma_query_cq\<close> returns as soon as a poll does not come back empty: after \<open>k\<close> empty
  polls it returns the result of the next one, which is the number of completions when all
  of them succeeded, and -1 when one of them or the poll itself failed.
\<close>

theorem rdma_query_cq_returns:
  assumes "cq_of_flag ctx flag = Some cq" and "empty_polls V cq m k w w1"
    and "ibv_poll_cq V cq m w1 = (r, w2)" and "r \<noteq> Completions []" and "k < fuel"
  shows "rdma_query_cq fuel V ctx m flag w = (Inr (query_result r), w2)"
  using poll_loop_finds [OF assms(2,5,3,4)] by (simp add: rdma_query_cq_eq [OF assms(1)] prog_simps)

theorem rdma_query_cq_returns_witness:
  "rdma_query_cq 10 slow_verbs sample_ctx 16 2 0 = (Inr (1, [sample_wc]), 4)"
  using rdma_query_cq_returns [of sample_ctx 2 4 slow_verbs 16 3 0 3 "Completions [sample_wc]" 4 10]
  by (simp add: cq_of_flag_def sample_ctx_def slow_verbs_def query_result_def sample_wc_def numeral_3_eq_3)

text \<open>
  Whatever the environment does, a call that returns gives -1, or a positive number of
  completions that all succeeded: 0 is never returned.
\<close>

theorem rdma_query_cq_result:
  assumes "cq_of_flag ctx flag = Some cq"
    and "rdma_query_cq fuel V ctx m flag w = (Inr (n, wcs), w')"
  shows "n = - 1 \<or> (1 \<le> n \<and> n = int (length wcs) \<and> (\<forall>wc \<in> set wcs. wc_status wc = IBV_WC_SUCCESS))"
proof -
  obtain r where "poll_loop fuel V cq m 0 w = (Inr r, w')" and "query_result r = (n, wcs)"
    using assms(2) unfolding rdma_query_cq_eq [OF assms(1)]
    by (auto simp: bnd_def ret_def split: prod.splits sum.splits)
  then show ?thesis using poll_loop_result query_result_cases by metis
qed

theorem rdma_query_cq_result_witness:
  "rdma_query_cq 10 slow_verbs sample_ctx 16 2 0 = (Inr (1, [sample_wc]), 4) \<and>
   ((1::int) = - 1 \<or> (1 \<le> (1::int) \<and> (1::int) = int (length [sample_wc]) \<and>
      (\<forall>wc \<in> set [sample_wc]. wc_status wc = IBV_WC_SUCCESS)))"
proof -
  have cq: "cq_of_flag sample_ctx 2 = Some 4" by (simp add: cq_of_flag_def sample_ctx_def)
  have run: "rdma_query_cq 10 slow_verbs sample_ctx 16 2 0 = (Inr (1, [sample_wc]), 4)"
    by (simp add: rdma_query_cq_def sample_ctx_def slow_verbs_def sample_wc_def prog_simps wait_event_def
        eval_nat_numeral)
  from run rdma_query_cq_result [OF cq run] show ?thesis by (rule conjI)
qed

text \<open>
  The work request of \<open>rdma_post_send\<close>: one signalled request for the first \<open>size\<close> bytes of
  the task's memory, with the length cut to 32 bits. A plain send names no remote address; any
  other operation goes to the address and key of the task, or of the connected peer when
  the task gives neither. The result is 0 or -1 as the request was accepted or not.
\<close>

theorem rdma_post_send_request:
  assumes "ctx_qp ctx = Some qp" and "ctx_remote_info ctx = Some i"
  shows "rdma_post_send V ctx task w =
    (let peer = (task_rkey task = 0 \<and> task_remote_addr task = 0);
         plain = (task_opcode task = IBV_WR_SEND);
         wr = \<lparr>swr_id = task_id task,
               swr_sg_list = [\<lparr>sge_addr = rm_buf (task_mem task), sge_length = ucast (task_size task),
                               sge_lkey = mr_lkey (rm_mr (task_mem task))\<rparr>],
               swr_opcode = task_opcode task, swr_signaled = True,
               swr_remote_addr = (if plain then 0 else if peer then ic_addr i else task_remote_addr task),
               swr_rkey = (if plain then 0 else if peer then ic_rkey i else task_rkey task)\<rparr>;
         (r, w') = ibv_post_send V qp [wr] w
     in (Inr (if r = 0 then 0 else - 1), w'))"
  using assms by (simp add: rdma_post_send_def send_wr_def prog_simps Let_def deref_def split_beta)

theorem rdma_post_send_request_witness:
  "rdma_post_send (sample_verbs\<lparr>ibv_post_send := (\<lambda>qp wrs w. (0, unat (swr_remote_addr (hd wrs))))\<rparr>)
     linked_ctx write_task 0 = (Inr 0, 4096)"
  using rdma_post_send_request [of linked_ctx "\<lparr>qp_handle = 6, qp_num = 21\<rparr>" peer_info
      "sample_verbs\<lparr>ibv_post_send := (\<lambda>qp wrs w. (0, unat (swr_remote_addr (hd wrs))))\<rparr>" write_task 0]
  by (simp add: linked_ctx_def sample_ctx_def write_task_def peer_info_def)

end
