(* ===== verification/SessionBuffers.thy ===== *)
theory SessionBuffers
  imports SocketOps
begin

text \<open>
  How \<open>read\<close> of \<open>debug/rdma_session.cpp\<close> reassembles received messages from the ring of
  receive buffers, apart from its query of the completion queue.

  The receive buffers are the slices of one block, so a run of full buffers can be copied at
  once; the copy has to be split where the run wraps around the end of the block. The lemmas
  show that the result is nevertheless the concatenation of the received pieces.
\<close>

section \<open>Reading from the ring of receive buffers\<close>

record read_state =
  rd_start :: nat
  rd_index :: nat
  rd_full :: nat
  rd_size :: nat
  rd_dest :: bytes

text \<open>
  \<open>starts ! i\<close> is the offset of receive buffer \<open>i\<close> in the block, whose contents are
  \<open>rmem\<close>. \<open>copy\<close> is \<open>memcpy(dest + size, start, len); size += len\<close>.
\<close>

definition copy_out :: "bytes \<Rightarrow> nat \<Rightarrow> nat \<Rightarrow> read_state \<Rightarrow> fault + read_state" where
  "copy_out rmem start len st =
     sbnd (read_at rmem start len) (\<lambda>bs.
     sbnd (memcpy_at (rd_dest st) (rd_size st) bs) (\<lambda>d.
     Inr (st\<lparr>rd_dest := d, rd_size := rd_size st + len\<rparr>)))"

definition start_of :: "nat list \<Rightarrow> nat \<Rightarrow> fault + nat" where
  "start_of starts i = (if i < length starts then Inr (starts ! i) else Inl Undefined_behaviour)"

text \<open>One completion: a message ends with a buffer that is not full.\<close>

definition read_wc :: "nat list \<Rightarrow> nat \<Rightarrow> nat \<Rightarrow> bytes \<Rightarrow> nat \<Rightarrow> read_state \<Rightarrow> fault + read_state" where
  "read_wc starts recv_nums gap rmem byte_len st =
     (if byte_len < gap then
        let len = rd_full st * gap + byte_len in
        sbnd (if rd_index st + rd_full st < recv_nums then copy_out rmem (rd_start st) len st
              else
                let tlen = (recv_nums - rd_index st) * gap in
                sbnd (copy_out rmem (rd_start st) tlen st) (\<lambda>st.
                sbnd (start_of starts 0) (\<lambda>start.
                copy_out rmem start (len - tlen) (st\<lparr>rd_start := start\<rparr>)))) (\<lambda>st.
        let index = (rd_index st + rd_full st + 1) mod recv_nums in
        sbnd (start_of starts index) (\<lambda>start.
        Inr (st\<lparr>rd_index := index, rd_start := start, rd_full := 0\<rparr>)))
      else Inr (st\<lparr>rd_full := rd_full st + 1\<rparr>))"

text \<open>After the loop: full buffers that no shorter one followed.\<close>

definition read_tail :: "nat list \<Rightarrow> nat \<Rightarrow> nat \<Rightarrow> bytes \<Rightarrow> read_state \<Rightarrow> fault + read_state" where
  "read_tail starts recv_nums gap rmem st =
     sbnd (if rd_full st \<noteq> 0 then
             (if rd_index st + rd_full st < recv_nums
              then copy_out rmem (rd_start st) (rd_full st * gap) st
              else
                let front = (rd_full st + rd_index st) mod recv_nums in
                sbnd (copy_out rmem (rd_start st) ((recv_nums - rd_index st) * gap) st) (\<lambda>st.
                if front \<noteq> 0 then
                  sbnd (start_of starts 0) (\<lambda>start.
                  copy_out rmem start (front * gap) (st\<lparr>rd_start := start\<rparr>))
                else Inr st))
           else Inr st) (\<lambda>st.
     Inr (st\<lparr>rd_index := (rd_index st + rd_full st) mod recv_nums\<rparr>))"

text \<open>The body of \<open>read\<close> after the query, for the completions \<open>lens\<close> (their byte counts).\<close>

definition read_completions :: "nat list \<Rightarrow> nat \<Rightarrow> nat \<Rightarrow> bytes \<Rightarrow> nat list \<Rightarrow> nat \<Rightarrow> bytes \<Rightarrow>
    fault + read_state" where
  "read_completions starts recv_nums gap rmem lens index dest =
     sbnd (start_of starts index) (\<lambda>start.
     sbnd (for_each (read_wc starts recv_nums gap rmem) lens
             \<lparr>rd_start = start, rd_index = index, rd_full = 0, rd_size = 0, rd_dest = dest\<rparr>)
          (read_tail starts recv_nums gap rmem))"

section \<open>Reassembly is concatenation\<close>

text \<open>
  The specification: completion \<open>k\<close> filled the first \<open>lens ! k\<close> bytes of receive buffer
  \<open>(index + k) mod recv_nums\<close>, and the reader gets these pieces one after the other.
\<close>

definition ring_piece :: "nat \<Rightarrow> nat \<Rightarrow> bytes \<Rightarrow> nat \<Rightarrow> nat \<Rightarrow> bytes" where
  "ring_piece recv_nums gap rmem i len = take len (drop (gap * (i mod recv_nums)) rmem)"

fun ring_data :: "nat \<Rightarrow> nat \<Rightarrow> bytes \<Rightarrow> nat \<Rightarrow> nat list \<Rightarrow> bytes" where
  "ring_data recv_nums gap rmem i [] = []"
| "ring_data recv_nums gap rmem i (l # ls) =
     ring_piece recv_nums gap rmem i l @ ring_data recv_nums gap rmem (Suc i) ls"

lemma ring_data_append:
  "ring_data n g m i (xs @ ys) = ring_data n g m i xs @ ring_data n g m (i + length xs) ys"
  by (induction xs arbitrary: i) auto

text \<open>A run of full buffers that does not reach the end of the block is one slice of it.\<close>

lemma ring_data_full:
  assumes "i + k \<le> n" and "length m = n * g"
  shows "ring_data n g m i (replicate k g) = take (k * g) (drop (g * i) m)"
  using assms(1)
proof (induction k arbitrary: i)
  case 0
  then show ?case by simp
next
  case (Suc k)
  have "ring_data n g m i (replicate (Suc k) g) = take g (drop (g * i) m) @ take (k * g) (drop (g * Suc i) m)"
    using Suc by (simp add: ring_piece_def)
  also have "\<dots> = take (g + k * g) (drop (g * i) m)"
    by (simp add: take_add add.commute)
  finally show ?case by simp
qed

lemma ring_data_mod: "ring_data n g m (i mod n) ls = ring_data n g m i ls"
proof (induction ls arbitrary: i)
  case Nil
  then show ?case by simp
next
  case (Cons l ls)
  have "ring_data n g m (Suc (i mod n)) ls = ring_data n g m (Suc i) ls"
    using Cons.IH [of "Suc (i mod n)"] Cons.IH [of "Suc i"] by (simp add: mod_Suc_eq)
  then show ?case by (simp add: ring_piece_def)
qed

text \<open>A run that wraps around is the rest of the block and a prefix of it.\<close>

lemma ring_data_wrap:
  assumes "i < n" and "n \<le> i + k" and "i + k < 2 * n" and "length m = n * g" and "l \<le> g"
  shows "ring_data n g m i (replicate k g @ [l]) =
    take ((n - i) * g) (drop (g * i) m) @ take (k * g + l - (n - i) * g) m"
proof -
  define k1 where "k1 = n - i"
  define k2 where "k2 = k - k1"
  have k: "k = k1 + k2" using assms by (simp add: k1_def k2_def)
  have i: "i + k1 = n" "k2 < n" using assms by (auto simp: k1_def k2_def)
  have len: "k * g + l - (n - i) * g = k2 * g + l"
    by (simp add: k algebra_simps flip: k1_def)
  have "ring_data n g m i (replicate k g @ [l])
      = ring_data n g m i (replicate k1 g) @ ring_data n g m (i + k1) (replicate k2 g @ [l])"
    by (simp add: k replicate_add ring_data_append add.assoc)
  also have "ring_data n g m (i + k1) (replicate k2 g @ [l]) = ring_data n g m 0 (replicate k2 g @ [l])"
    using ring_data_mod [of n g m "i + k1"] i by simp
  also have "\<dots> = take (k2 * g) m @ take l (drop (g * k2) m)"
    using ring_data_full [of 0 k2 n m g] i assms(4) by (simp add: ring_data_append ring_piece_def)
  also have "\<dots> = take (k2 * g + l) m" by (simp add: take_add mult.commute)
  finally show ?thesis
    unfolding len using ring_data_full [of i k1 n m g] i assms(4) by (simp flip: k1_def)
qed

lemma ring_data_no_wrap:
  assumes "i + k < n" and "length m = n * g" and "l \<le> g"
  shows "ring_data n g m i (replicate k g @ [l]) = take (k * g + l) (drop (g * i) m)"
proof -
  have "ring_data n g m i (replicate k g @ [l]) = take (k * g) (drop (g * i) m) @ take l (drop (g * (i + k)) m)"
    using ring_data_full [of i k n m g] assms by (simp add: ring_data_append ring_piece_def)
  then show ?thesis unfolding take_add drop_drop by (simp add: algebra_simps)
qed

lemma length_ring_data:
  assumes "length m = n * g" and "0 < n" and "\<forall>l \<in> set ls. l \<le> g"
  shows "length (ring_data n g m i ls) = sum_list ls"
  using assms(3)
proof (induction ls arbitrary: i)
  case Nil
  then show ?case by simp
next
  case (Cons l ls)
  have "i mod n + 1 \<le> n" using assms(2) by (simp add: Suc_le_eq)
  then have "(i mod n + 1) * g \<le> n * g" by (rule mult_le_mono1)
  then have "g * (i mod n) + g \<le> length m" using assms(1) by (simp add: algebra_simps)
  moreover have "l \<le> g" using Cons.prems by simp
  ultimately have "l \<le> length m - g * (i mod n)" by linarith
  with Cons show ?case by (simp add: ring_piece_def)
qed

text \<open>The geometry of the ring: buffer \<open>i\<close> starts at \<open>gap * i\<close>.\<close>

definition ring_ok :: "nat list \<Rightarrow> nat \<Rightarrow> nat \<Rightarrow> bytes \<Rightarrow> bool" where
  "ring_ok starts recv_nums gap rmem \<longleftrightarrow> 0 < recv_nums \<and> 0 < gap \<and>
     starts = map (\<lambda>i. gap * i) [0..<recv_nums] \<and> length rmem = recv_nums * gap"

lemma start_of_ring: "ring_ok starts n g m \<Longrightarrow> i < n \<Longrightarrow> start_of starts i = Inr (g * i)"
  by (simp add: ring_ok_def start_of_def)

text \<open>What has been appended to the destination, relative to an earlier state.\<close>

definition delivered :: "read_state \<Rightarrow> bytes \<Rightarrow> read_state \<Rightarrow> bool" where
  "delivered st D st' \<longleftrightarrow> rd_size st' = rd_size st + length D \<and>
     rd_dest st' = take (rd_size st) (rd_dest st) @ D @ drop (rd_size st + length D) (rd_dest st)"

lemma delivered_trans:
  assumes "delivered st D st1" and "delivered st1 E st2" and "rd_size st + length D \<le> length (rd_dest st)"
  shows "delivered st (D @ E) st2"
  using assms by (simp add: delivered_def ac_simps)

lemma delivered_length:
  "delivered st D st' \<Longrightarrow> rd_size st + length D \<le> length (rd_dest st) \<Longrightarrow>
   length (rd_dest st') = length (rd_dest st)"
  by (simp add: delivered_def)

lemma copy_out_ok:
  assumes "start + len \<le> length rmem" and "rd_size st + len \<le> length (rd_dest st)"
  shows "\<exists>st'. copy_out rmem start len st = Inr st' \<and> delivered st (take len (drop start rmem)) st' \<and>
    rd_index st' = rd_index st \<and> rd_full st' = rd_full st"
  using assms by (simp add: copy_out_def read_at_def memcpy_at_def delivered_def)

text \<open>A run of full buffers and one more piece, as \<open>read\<close> copies it with or without wrapping.\<close>

lemma copy_run:
  assumes ring: "ring_ok starts n g m" and i: "rd_index st < n" "rd_start st = g * rd_index st"
    and k: "k < n" and l: "l \<le> g"
    and room: "rd_size st + k * g + l \<le> length (rd_dest st)"
  shows "\<exists>st'. (if rd_index st + k < n then copy_out m (rd_start st) (k * g + l) st
      else sbnd (copy_out m (rd_start st) ((n - rd_index st) * g) st) (\<lambda>st1.
           sbnd (start_of starts 0) (\<lambda>start.
           copy_out m start (k * g + l - (n - rd_index st) * g) (st1\<lparr>rd_start := start\<rparr>)))) = Inr st'
    \<and> delivered st (ring_data n g m (rd_index st) (replicate k g @ [l])) st'
    \<and> rd_index st' = rd_index st \<and> rd_full st' = rd_full st"
proof (cases "rd_index st + k < n")
  case True
  have len: "length m = n * g" using ring by (simp add: ring_ok_def)
  have "(rd_index st + k + 1) * g \<le> n * g" using True by (intro mult_le_mono1) simp
  then have "rd_start st + (k * g + l) \<le> length m" using l i(2) len by (simp add: algebra_simps)
  from copy_out_ok [OF this] room True ring_data_no_wrap [OF True len l] i(2) show ?thesis by (simp add: add.assoc)
next
  case False
  define i0 where "i0 = rd_index st"
  define a where "a = (n - i0) * g"
  have len: "length m = n * g" using ring by (simp add: ring_ok_def)
  have i0: "i0 < n" "rd_start st = g * i0" using i by (simp_all add: i0_def)
  have a: "g * i0 + a = n * g" using i0(1) by (simp add: a_def algebra_simps diff_mult_distrib2 less_imp_le)
  have "n - i0 \<le> k" using False by (simp add: i0_def)
  then have ak: "a \<le> k * g" by (simp add: a_def)
  obtain st1 where c1: "copy_out m (rd_start st) a st = Inr st1"
    and d1: "delivered st (take a (drop (g * i0) m)) st1" and f1: "rd_index st1 = i0" "rd_full st1 = rd_full st"
    using copy_out_ok [of "rd_start st" a m st] a ak room i0 len by (auto simp: i0_def)
  have la: "length (take a (drop (g * i0) m)) = a" using a len by simp
  have room1: "rd_size st1 + (k * g + l - a) \<le> length (rd_dest st1)"
    using delivered_length [OF d1] d1 room ak la by (simp add: delivered_def)
  have "k * g + g \<le> n * g" using k by (metis Suc_leI mult_Suc mult_le_mono1 add.commute)
  then have "0 + (k * g + l - a) \<le> length m" using l len by linarith
  from copy_out_ok [OF this, of "st1\<lparr>rd_start := 0\<rparr>"] room1 obtain st2 where
    c2: "copy_out m 0 (k * g + l - a) (st1\<lparr>rd_start := 0\<rparr>) = Inr st2"
    and d2: "delivered st1 (take (k * g + l - a) m) st2" and f2: "rd_index st2 = i0" "rd_full st2 = rd_full st"
    by (auto simp: f1 delivered_def)
  have "n \<le> i0 + k" "i0 + k < 2 * n" using False k i0(1) by (simp_all add: i0_def)
  note ring_data_wrap [OF i0(1) this len l]
  moreover have "delivered st (take a (drop (g * i0) m) @ take (k * g + l - a) m) st2"
    by (rule delivered_trans [OF d1 d2]) (use room ak la in linarith)
  ultimately have "delivered st (ring_data n g m i0 (replicate k g @ [l])) st2" by (simp add: a_def)
  with c1 c2 f1 f2 False show ?thesis
    using start_of_ring [OF ring, of 0] i0(1) by (simp add: i0_def [symmetric] a_def [symmetric])
qed

lemma read_wc_partial:
  assumes ring: "ring_ok starts n g m" and i: "rd_index st < n" "rd_start st = g * rd_index st"
    and k: "rd_full st < n" and l: "l < g"
    and room: "rd_size st + rd_full st * g + l \<le> length (rd_dest st)"
  shows "\<exists>st'. read_wc starts n g m l st = Inr st'
    \<and> delivered st (ring_data n g m (rd_index st) (replicate (rd_full st) g @ [l])) st'
    \<and> rd_index st' = (rd_index st + rd_full st + 1) mod n \<and> rd_full st' = 0
    \<and> rd_start st' = g * rd_index st'"
proof -
  obtain st1 where c: "(if rd_index st + rd_full st < n then copy_out m (rd_start st) (rd_full st * g + l) st
      else sbnd (copy_out m (rd_start st) ((n - rd_index st) * g) st) (\<lambda>st1.
           sbnd (start_of starts 0) (\<lambda>start.
           copy_out m start (rd_full st * g + l - (n - rd_index st) * g) (st1\<lparr>rd_start := start\<rparr>)))) = Inr st1"
    and d: "delivered st (ring_data n g m (rd_index st) (replicate (rd_full st) g @ [l])) st1"
    and f: "rd_index st1 = rd_index st" "rd_full st1 = rd_full st"
    using copy_run [OF ring i k less_imp_le [OF l] room] by blast
  have "(rd_index st + rd_full st + 1) mod n < n" using ring by (simp add: ring_ok_def)
  note start_of_ring [OF ring this]
  with c l d f show ?thesis
    unfolding read_wc_def Let_def by (simp add: delivered_def)
qed

lemma read_tail_ok:
  assumes ring: "ring_ok starts n g m" and i: "rd_index st < n" "rd_start st = g * rd_index st"
    and k: "rd_full st \<le> n" and room: "rd_size st + rd_full st * g \<le> length (rd_dest st)"
  shows "\<exists>st'. read_tail starts n g m st = Inr st'
    \<and> delivered st (ring_data n g m (rd_index st) (replicate (rd_full st) g)) st'
    \<and> rd_index st' = (rd_index st + rd_full st) mod n"
proof (cases "rd_full st")
  case 0
  then show ?thesis by (simp add: read_tail_def delivered_def)
next
  case (Suc j)
  have len: "length m = n * g" using ring by (simp add: ring_ok_def)
  have rep: "replicate (rd_full st) g = replicate j g @ [g]" and jg: "j * g + g = rd_full st * g"
    by (simp_all add: Suc replicate_append_same)
  have jn: "j < n" using k Suc by simp
  obtain st1 where c: "(if rd_index st + j < n then copy_out m (rd_start st) (j * g + g) st
      else sbnd (copy_out m (rd_start st) ((n - rd_index st) * g) st) (\<lambda>st1.
           sbnd (start_of starts 0) (\<lambda>start.
           copy_out m start (j * g + g - (n - rd_index st) * g) (st1\<lparr>rd_start := start\<rparr>)))) = Inr st1"
    and d: "delivered st (ring_data n g m (rd_index st) (replicate (rd_full st) g)) st1"
    and f: "rd_index st1 = rd_index st" "rd_full st1 = rd_full st"
    using copy_run [OF ring i jn order.refl] room jg unfolding rep by (auto simp: add.assoc)
  show ?thesis
  proof (cases "rd_index st + rd_full st < n")
    case True
    with c d f jg Suc show ?thesis by (simp add: read_tail_def delivered_def)
  next
    case wrap: False
    show ?thesis
    proof (cases "rd_index st + rd_full st = n")
      case True
      then have "n - rd_index st = rd_full st" and "rd_index st + j < n" using Suc by auto
      with c d f jg Suc True show ?thesis by (simp add: read_tail_def delivered_def add.commute Let_def)
    next
      case False
      define front where "front = rd_full st + rd_index st - n"
      have front: "(rd_full st + rd_index st) mod n = front" "front \<noteq> 0"
        using wrap False i(1) k unfolding front_def by (auto simp: mod_if)
      have "front * g = rd_full st * g + rd_index st * g - n * g"
        unfolding front_def by (simp add: diff_mult_distrib add_mult_distrib)
      moreover have "(n - rd_index st) * g = n * g - rd_index st * g" by (rule diff_mult_distrib)
      moreover have "rd_index st * g \<le> n * g" using i(1) by (intro mult_le_mono1) simp
      ultimately have fg: "front * g = j * g + g - (n - rd_index st) * g" using jg by linarith
      have "\<not> rd_index st + j < n" using wrap False Suc by linarith
      with c d f front wrap Suc show ?thesis
        unfolding read_tail_def Let_def front(1) fg by (auto simp: delivered_def)
    qed
  qed
qed

lemma read_loop:
  assumes "ring_ok starts n g m" and "rd_index st < n" and "rd_start st = g * rd_index st"
    and "rd_full st + length lens \<le> n" and "\<forall>l \<in> set lens. l \<le> g"
    and "rd_size st + rd_full st * g + sum_list lens \<le> length (rd_dest st)"
  shows "\<exists>st'. sbnd (for_each (read_wc starts n g m) lens st) (read_tail starts n g m) = Inr st'
    \<and> delivered st (ring_data n g m (rd_index st) (replicate (rd_full st) g @ lens)) st'
    \<and> rd_index st' = (rd_index st + rd_full st + length lens) mod n"
  using assms
proof (induction lens arbitrary: st)
  case Nil
  then show ?case using read_tail_ok [of starts n g m st] by simp
next
  case (Cons l lens)
  note ring = Cons.prems(1) and i = Cons.prems(2,3)
  have n: "0 < n" and len: "length m = n * g" using ring by (simp_all add: ring_ok_def)
  show ?case
  proof (cases "l < g")
    case False
    then have l: "l = g" using Cons.prems(5) by simp
    have rep: "replicate (rd_full st) g @ l # lens = replicate (Suc (rd_full st)) g @ lens"
      by (simp add: l replicate_app_Cons_same)
    have step: "read_wc starts n g m g st = Inr (st\<lparr>rd_full := rd_full st + 1\<rparr>)"
      by (simp add: read_wc_def)
    show ?thesis
      using Cons.IH [of "st\<lparr>rd_full := rd_full st + 1\<rparr>"] Cons.prems l unfolding rep
      by (simp add: step delivered_def)
  next
    case True
    define D where "D = ring_data n g m (rd_index st) (replicate (rd_full st) g @ [l])"
    have lD: "length D = rd_full st * g + l"
      unfolding D_def using Cons.prems(5) by (subst length_ring_data [OF len n]) (auto simp: sum_list_replicate)
    obtain st1 where step: "read_wc starts n g m l st = Inr st1" and d: "delivered st D st1"
      and f: "rd_index st1 = (rd_index st + rd_full st + 1) mod n" "rd_full st1 = 0"
        "rd_start st1 = g * rd_index st1"
      using read_wc_partial [OF ring i _ True] Cons.prems(4,6) by (auto simp: D_def)
    have room: "rd_size st1 + sum_list lens \<le> length (rd_dest st1)" "rd_size st + length D \<le> length (rd_dest st)"
      using d lD delivered_length [OF d] Cons.prems(6) by (simp_all add: delivered_def)
    obtain st2 where run: "sbnd (for_each (read_wc starts n g m) lens st1) (read_tail starts n g m) = Inr st2"
      and d2: "delivered st1 (ring_data n g m (rd_index st1) lens) st2"
      and f2: "rd_index st2 = (rd_index st1 + length lens) mod n"
      using Cons.IH [OF ring _ f(3)] Cons.prems(4,5) room(1) f n by auto
    have "ring_data n g m (rd_index st) (replicate (rd_full st) g @ l # lens) = D @ ring_data n g m (rd_index st1) lens"
      using ring_data_append [of n g m "rd_index st" "replicate (rd_full st) g @ [l]" lens]
      by (simp add: D_def f(1) ring_data_mod add.assoc)
    with delivered_trans [OF d d2 room(2)] step run f2 f(1) show ?thesis
      by (simp add: mod_add_left_eq add.assoc)
  qed
qed

section \<open>Properties\<close>

text \<open>
  C3. Reassembly: with the receive buffers laid out one after the other in the block, at
  most one completion per buffer and enough room at the destination, \<open>read\<close> delivers exactly
  the received pieces in order, also where a message wraps around the end of the block; it
  leaves the rest of the destination alone and moves the ring index past the completions.
\<close>

theorem read_completions_reassembles:
  assumes "ring_ok starts n g m" and "index < n" and "length lens \<le> n"
    and "\<forall>l \<in> set lens. l \<le> g" and "sum_list lens \<le> length dest"
  shows "\<exists>st. read_completions starts n g m lens index dest = Inr st
    \<and> rd_size st = sum_list lens
    \<and> rd_dest st = ring_data n g m index lens @ drop (sum_list lens) dest
    \<and> rd_index st = (index + length lens) mod n"
proof -
  have len: "length (ring_data n g m index lens) = sum_list lens"
    using assms(1,4) by (intro length_ring_data) (auto simp: ring_ok_def)
  show ?thesis
    using read_loop [of starts n g m "\<lparr>rd_start = g * index, rd_index = index, rd_full = 0, rd_size = 0,
        rd_dest = dest\<rparr>" lens] assms len
    by (simp add: read_completions_def start_of_ring delivered_def)
qed

text \<open>Four buffers of three bytes, a message of seven bytes that starts in the third one.\<close>

theorem read_completions_reassembles_witness:
  "\<exists>st. read_completions [0, 3, 6, 9] 4 3 ''ghi...abcdef'' [3, 3, 1] 2 ''__________'' = Inr st
    \<and> rd_size st = 7 \<and> rd_dest st = ''abcdefg___'' \<and> rd_index st = 1"
proof -
  have "ring_ok [0, 3, 6, 9] 4 3 ''ghi...abcdef''"
    by (simp add: ring_ok_def upt_rec)
  from read_completions_reassembles [OF this, of 2 "[3, 3, 1]" "''__________''"]
  show ?thesis by (simp add: ring_piece_def)
qed

end
