(* ===== verification/SessionTable.thy ===== *)
theory SessionTable
  imports SocketOps
begin

text \<open>
  The table of buffers that the two ends of a session exchange (\<open>start_rw\<close> prints it,
  \<open>start_remote\<close> reads it, both in \<open>debug/rdma_session.cpp\<close>), and the slicing of a block in
  \<open>bulk\<close>.

  Both local arrays are one byte too small: \<open>data\<close> has no room for the NUL after the last
  entry, and \<open>tmp\<close> none for the NUL after a 25-character field. The definitions declare the arrays
  with the sizes of the code, so these writes are faults of the model. The parameter \<open>junk\<close> gives
  the indeterminate bytes that an array holds before it is written.
\<close>

section \<open>Definitions\<close>

type_synonym rw_key = "u64 \<times> u32"

definition rw_entry :: "rw_key \<Rightarrow> string" where
  "rw_entry k = print_padded 10 16 (unat (fst k)) @ '':'' @ print_padded 16 8 (unat (snd k))"

text \<open>The printing loop of \<open>start_rw\<close>, and the loop on the array \<open>char data[num*25]\<close>.\<close>

definition rw_print :: "rw_key list \<Rightarrow> bytes \<Rightarrow> fault + bytes" where
  "rw_print ks data =
     for_each (\<lambda>j d. memcpy_at d (25 * j) (rw_entry (ks ! j) @ [NUL])) [0..<length ks] data"

definition rw_table :: "(nat \<Rightarrow> char) \<Rightarrow> rw_key list \<Rightarrow> fault + bytes" where
  "rw_table junk ks = rw_print ks (map junk [0..<length ks * 25])"

record remote_state =
  rs_tmp :: bytes
  rs_addrs :: "u64 list"
  rs_keys :: "u32 list"

definition scan_tmp :: "bytes \<Rightarrow> bytes \<Rightarrow> fault + bytes" where
  "scan_tmp src tmp =
     sbnd (sscanf [Scan_s (Some 25)] src) (\<lambda>vs.
     case vs of [Str s] \<Rightarrow> memcpy_at tmp 0 (s @ [NUL]) | _ \<Rightarrow> Inr tmp)"

definition assign_key :: "nat \<Rightarrow> scanned list \<Rightarrow> remote_state \<Rightarrow> remote_state" where
  "assign_key i vs st =
     (case vs of
        [Num a, Num k] \<Rightarrow> st\<lparr>rs_addrs := (rs_addrs st)[i := of_nat a], rs_keys := (rs_keys st)[i := of_nat k]\<rparr>
      | [Num a] \<Rightarrow> st\<lparr>rs_addrs := (rs_addrs st)[i := of_nat a]\<rparr>
      | _ \<Rightarrow> st)"

text \<open>One iteration of \<open>start_remote\<close> on the receive buffer \<open>rbuf\<close>.\<close>

definition remote_entry :: "bytes \<Rightarrow> nat \<Rightarrow> remote_state \<Rightarrow> fault + remote_state" where
  "remote_entry rbuf i st =
     sbnd (scan_tmp (drop (25 * i) rbuf) (rs_tmp st)) (\<lambda>tmp.
     sbnd (sscanf [Scan_lu (Some 16), Scan_lit (CHR '':''), Scan_x (Some 8)] tmp) (\<lambda>vs.
     Inr (assign_key i vs (st\<lparr>rs_tmp := tmp\<rparr>))))"

text \<open>The loop of \<open>start_remote\<close> with \<open>char tmp[25]\<close>; \<open>as\<close> and \<open>rs\<close> are the two fresh arrays.\<close>

definition remote_table :: "(nat \<Rightarrow> char) \<Rightarrow> u64 list \<Rightarrow> u32 list \<Rightarrow> bytes \<Rightarrow> u32 \<Rightarrow> fault + remote_state" where
  "remote_table junk as rs rbuf len =
     for_each (remote_entry rbuf) [0..<unat (len div 25)]
       \<lparr>rs_tmp = map junk [0..<25], rs_addrs = as, rs_keys = rs\<rparr>"

text \<open>
  The loop of \<open>bulk\<close> that cuts \<open>size\<close> bytes into slices of \<open>gap\<close>: the offset and length of each
  slice from \<open>cursor\<close> on. With \<open>gap = 0\<close> the C loop does not end.
\<close>

function bulk_slices :: "nat \<Rightarrow> nat \<Rightarrow> nat \<Rightarrow> fault + (nat \<times> nat) list" where
  "bulk_slices gap sz cursor =
     (if cursor < sz then
        if gap = 0 then Inl Out_of_fuel
        else
          let len = (if sz - cursor \<ge> gap then gap else sz - cursor) in
          sbnd (bulk_slices gap sz (cursor + len)) (\<lambda>rest. Inr ((cursor, len) # rest))
      else Inr [])"
  by pat_completeness auto
termination
  by (relation "measure (\<lambda>(gap, sz, cursor). sz - cursor)") auto

declare bulk_slices.simps [simp del]

definition bulk_num :: "nat \<Rightarrow> nat \<Rightarrow> nat" where
  "bulk_num gap sz = (if sz mod gap = 0 then sz div gap + 1 - 1 else sz div gap + 1)"

section \<open>One entry\<close>

definition rw_ok :: "rw_key \<Rightarrow> bool" where
  "rw_ok k \<longleftrightarrow> unat (fst k) < 10 ^ 16"

definition rw_decode :: "string \<Rightarrow> rw_key option" where
  "rw_decode s =
     (case sscanf [Scan_lu (Some 16), Scan_lit (CHR '':''), Scan_x (Some 8)] (s @ [NUL]) of
        Inr [Num a, Num k] \<Rightarrow> Some (of_nat a, of_nat k) | _ \<Rightarrow> None)"

lemma length_rw_entry: "rw_ok k \<Longrightarrow> length (rw_entry k) = 25"
  using length_print_padded_iff [of 10 16 "unat (fst k)"] length_hex8 [of "snd k"]
  by (simp add: rw_entry_def rw_ok_def hex8_def)

lemma rw_entry_no_NUL: "NUL \<notin> set (rw_entry k)"
  by (simp add: rw_entry_def print_padded_no_NUL)

lemma rw_entry_no_space: "c \<in> set (rw_entry k) \<Longrightarrow> \<not> is_space c"
proof -
  assume "c \<in> set (rw_entry k)"
  then consider "is_digit 10 c" | "is_digit 16 c" | "c = CHR '':''"
    using print_padded_all_digits [of 10 c 16 "unat (fst k)"] print_padded_all_digits [of 16 c 8 "unat (snd k)"]
    by (auto simp: rw_entry_def)
  moreover have "\<not> is_space (CHR '':'')" by (simp add: is_space_def)
  ultimately show ?thesis by cases (auto dest: is_digit_not_space)
qed

lemma sscanf_rw_entry:
  assumes "rw_ok k"
  shows "sscanf [Scan_lu (Some 16), Scan_lit (CHR '':''), Scan_x (Some 8)] (rw_entry k @ NUL # r)
    = Inr [Num (unat (fst k)), Num (unat (snd k))]"
proof -
  have l16: "length (print_padded 10 16 (unat (fst k))) = 16"
    using length_print_padded_iff [of 10 16 "unat (fst k)"] assms by (simp add: rw_ok_def)
  have l8: "length (print_padded 16 8 (unat (snd k))) = 8" using length_hex8 [of "snd k"] by (simp add: hex8_def)
  have a: "scan_uint 10 64 (Some 16) (print_padded 10 16 (unat (fst k)) @ s) = Inr (Some (unat (fst k), s))" for s
    using unat_u64_pow [of "fst k"] by (intro scan_uint_print) (simp_all add: l16)
  have b: "scan_uint 16 32 (Some 8) (print_padded 16 8 (unat (snd k)) @ s) = Inr (Some (unat (snd k), s))" for s
    using unat_u32_pow [of "snd k"] by (intro scan_uint_print) (simp_all add: l8)
  show ?thesis
    using b [of "[]"] unfolding sscanf_terminated [OF rw_entry_no_NUL] by (simp add: rw_entry_def a)
qed

interpretation rwentry: record_codec rw_entry rw_decode 25 rw_ok
proof unfold_locales
  fix r assume ok: "rw_ok r"
  show "length (rw_entry r) = 25" using ok by (rule length_rw_entry)
  show "rw_decode (rw_entry r) = Some r"
    using sscanf_rw_entry [OF ok, of "[]"] by (simp add: rw_decode_def)
qed

section \<open>The whole table\<close>

lemma rw_print_prefix:
  assumes ok: "\<forall>k \<in> set ks. rw_ok k" and room: "25 * length ks + 1 \<le> length data" and "j \<le> length ks"
  shows "for_each (\<lambda>j d. memcpy_at d (25 * j) (rw_entry (ks ! j) @ [NUL])) [0..<j] data
    = Inr (concat (map rw_entry (take j ks)) @ (if j = 0 then data else NUL # drop (25 * j + 1) data))"
  using assms(3)
proof (induction j)
  case 0
  then show ?case by simp
next
  case (Suc j)
  have okt: "\<forall>k \<in> set (take j ks). rw_ok k" using ok by (meson in_set_takeD)
  have l: "length (concat (map rw_entry (take j ks))) = 25 * j"
    using rwentry.table_length [OF okt] Suc.prems by simp
  have e: "length (rw_entry (ks ! j)) = 25" using ok Suc.prems by (simp add: length_rw_entry)
  have t: "take (Suc j) ks = take j ks @ [ks ! j]" using Suc.prems by (simp add: take_Suc_conv_app_nth)
  have "25 * j + 26 \<le> length data" "25 \<le> length data - Suc (25 * j)" using Suc.prems room by linarith+
  then show ?case
    using Suc l e by (simp add: for_each_append t memcpy_at_def)
qed

lemma rw_print_text:
  assumes "\<forall>k \<in> set ks. rw_ok k" and "25 * length ks + 1 \<le> length data"
  shows "\<exists>t. rw_print ks data = Inr (concat (map rw_entry ks) @ t)"
  using rw_print_prefix [OF assms order.refl] by (simp add: rw_print_def)

text \<open>Reading entry \<open>i\<close> of a received table.\<close>

lemma scan_tmp_field:
  assumes ok: "\<forall>k \<in> set ks. rw_ok k" and i: "i < length ks" and nul: "NUL \<in> set r"
  shows "scan_tmp (drop (25 * i) (concat (map rw_entry ks) @ r)) tmp
    = memcpy_at tmp 0 (rw_entry (ks ! i) @ [NUL])"
proof -
  define src where "src = drop (25 * i) (concat (map rw_entry ks) @ r)"
  define rest where "rest = drop 25 src"
  have sl: "take 25 src = rw_entry (ks ! i)"
    unfolding src_def by (rule rwentry.table_slice [OF ok i])
  have src: "src = rw_entry (ks ! i) @ rest" by (simp add: rest_def flip: sl)
  have len: "length (concat (map rw_entry ks)) = 25 * length ks" by (rule rwentry.table_length [OF ok])
  have "rest = drop (25 * i + 25) (concat (map rw_entry ks)) @ r"
    using len i by (simp add: rest_def src_def add.commute)
  then have nulr: "NUL \<in> set rest" using nul by simp
  have e25: "length (rw_entry (ks ! i)) = 25" using ok i by (simp add: length_rw_entry)
  have cs: "c_string src = rw_entry (ks ! i) @ c_string rest"
    unfolding src c_string_def using rw_entry_no_NUL [of "ks ! i"]
    by (subst takeWhile_append2) auto
  have "scan_str (Some 25) (rw_entry (ks ! i) @ c_string rest) = Some (rw_entry (ks ! i), c_string rest)"
    using scan_str_prefix [of "rw_entry (ks ! i)" "c_string rest", OF _ rw_entry_no_space] e25 by fastforce
  then have "sscanf [Scan_s (Some 25)] src = Inr [Str (rw_entry (ks ! i))]"
    using nulr by (simp add: sscanf_def src cs [unfolded src])
  then show ?thesis
    unfolding src_def [symmetric] scan_tmp_def by simp
qed

section \<open>Slices\<close>

lemma bulk_slices_ok:
  assumes "0 < gap"
  shows "\<exists>ss. bulk_slices gap sz cursor = Inr ss \<and> concat (map (\<lambda>(a, l). [a..<a + l]) ss) = [cursor..<sz]
    \<and> (\<forall>(a, l) \<in> set ss. 0 < l \<and> l \<le> gap)
    \<and> length ss = (if cursor < sz then (sz - cursor + gap - 1) div gap else 0)"
  using assms
proof (induction gap sz cursor rule: bulk_slices.induct)
  case (1 gap sz cursor)
  show ?case
  proof (cases "cursor < sz")
    case False
    then show ?thesis by (simp add: bulk_slices.simps [of gap sz cursor])
  next
    case True
    define len where "len = (if sz - cursor \<ge> gap then gap else sz - cursor)"
    have len: "0 < len" "len \<le> gap" "cursor + len \<le> sz" using True 1(2) by (auto simp: len_def)
    obtain ss where r: "bulk_slices gap sz (cursor + len) = Inr ss"
      and c: "concat (map (\<lambda>(a, l). [a..<a + l]) ss) = [cursor + len..<sz]"
      and b: "\<forall>(a, l) \<in> set ss. 0 < l \<and> l \<le> gap"
      and n: "length ss = (if cursor + len < sz then (sz - (cursor + len) + gap - 1) div gap else 0)"
      using 1(1) [OF True _ len_def] 1(2) by auto
    have "[cursor..<sz] = [cursor..<cursor + len] @ [cursor + len..<sz]"
      using len(3) by (metis le_add1 le_add_diff_inverse upt_add_eq_append)
    moreover have "(sz - cursor + gap - 1) div gap = Suc (length ss)"
    proof (cases "sz - cursor \<le> gap")
      case True
      then have "length ss = 0" and "(sz - cursor + gap - 1) div gap = 1"
        using n \<open>cursor < sz\<close> by (auto simp: len_def intro!: div_nat_eqI)
      then show ?thesis by simp
    next
      case False
      then have "len = gap" and "cursor + len < sz" by (auto simp: len_def)
      moreover have "sz - cursor + gap - 1 = (sz - (cursor + gap) + gap - 1) + gap" using False by linarith
      ultimately show ?thesis using n 1(2) by (simp only: div_add_self2) simp
    qed
    ultimately show ?thesis
      using True 1(2) r c b len by (simp add: bulk_slices.simps [of gap sz cursor] Let_def flip: len_def)
  qed
qed

lemma bulk_num_ceiling: "0 < gap \<Longrightarrow> bulk_num gap sz = (sz + gap - 1) div gap"
proof -
  assume g: "0 < gap"
  define q where "q = sz div gap"
  define r where "r = sz mod gap"
  have sz: "sz = gap * q + r" and r: "r < gap" using g by (simp_all add: q_def r_def)
  have "(sz + gap - 1) div gap = (if r = 0 then q else Suc q)"
    using g r by (auto simp: sz intro!: div_nat_eqI)
  then show ?thesis by (simp add: bulk_num_def q_def r_def)
qed

section \<open>Properties\<close>

lemma unat_table_entries:
  assumes "25 * n < 2 ^ 32"
  shows "unat ((of_nat (25 * n) :: u32) div 25) = n"
proof -
  have "unat (of_nat (25 * n) :: u32) = 25 * n" using assms by (simp add: unat_of_nat del: of_nat_mult)
  then show ?thesis by (simp add: unat_div)
qed

definition sample_keys :: "rw_key list" where
  "sample_keys = [(0x7f00deadbeef, 0x1a2b), (4096, 7), (0, 0xFFFFFFFF)]"

text \<open>
  C38. With the sizes the code declares the exchange always writes out of bounds: \<open>char
  data[num*25]\<close> has no room for the NUL that the last \<open>sprintf\<close> of \<open>start_rw\<close> writes, and \<open>char
  tmp[25]\<close> none for the NUL that \<open>sscanf\<close> stores after a 25-character field in \<open>start_remote\<close>.
\<close>
theorem rw_table_overflows:
  assumes "\<forall>k \<in> set ks. unat (fst k) < 10 ^ 16" and "ks \<noteq> []" and "25 * length ks < 2 ^ 32" and "NUL \<in> set r"
  shows "rw_table junk ks = Inl Undefined_behaviour
    \<and> remote_table junk as rs (concat (map rw_entry ks) @ r) (of_nat (25 * length ks)) = Inl Undefined_behaviour"
proof
  have ok: "\<forall>k \<in> set ks. rw_ok k" using assms(1) by (simp add: rw_ok_def)
  obtain n where n: "length ks = Suc n" using assms(2) by (cases ks) auto
  have okb: "\<forall>k \<in> set (butlast ks). rw_ok k" using ok by (meson in_set_butlastD)
  define step where "step = (\<lambda>j d. memcpy_at d (25 * j) (rw_entry (ks ! j) @ [NUL]))"
  define data where "data = map junk [0..<length ks * 25]"
  have len: "length data = 25 * length ks" by (simp add: data_def)
  have "for_each step [0..<n] data =
      for_each (\<lambda>j d. memcpy_at d (25 * j) (rw_entry (butlast ks ! j) @ [NUL])) [0..<n] data"
    unfolding step_def using n by (intro for_each_cong) (simp add: nth_butlast)
  also have "\<dots> = rw_print (butlast ks) data" using n by (simp add: rw_print_def)
  finally obtain d where d: "for_each step [0..<n] data = Inr d"
    using rw_print_text [OF okb, of data] n len by auto
  have "length d = length data"
    by (rule for_each_invariant [OF d, where P = "\<lambda>d. length d = length data"])
      (auto simp: step_def dest: memcpy_at_length)
  moreover have "length (rw_entry (ks ! n)) = 25" using ok n by (simp add: length_rw_entry)
  ultimately have "step n d = Inl Undefined_behaviour"
    using n len by (simp add: step_def memcpy_at_def)
  then have "for_each step [0..<length ks] data = Inl Undefined_behaviour"
    using d n by (simp add: for_each_append)
  then show "rw_table junk ks = Inl Undefined_behaviour"
    by (simp add: rw_table_def rw_print_def data_def step_def)
  have "scan_tmp (drop (25 * 0) (concat (map rw_entry ks) @ r)) (map junk [0..<25]) = Inl Undefined_behaviour"
    using scan_tmp_field [OF ok _ assms(4), of 0] assms(2) by (simp add: memcpy_at_def length_rw_entry ok)
  then show "remote_table junk as rs (concat (map rw_entry ks) @ r) (of_nat (25 * length ks)) = Inl Undefined_behaviour"
    using unat_table_entries [OF assms(3)] n
    by (simp add: remote_table_def remote_entry_def upt_conv_Cons del: upt_Suc)
qed

lemma rw_table_overflows_witness:
  "rw_table (\<lambda>_. CHR ''?'') sample_keys = Inl Undefined_behaviour
    \<and> remote_table (\<lambda>_. CHR ''?'') [0, 0, 0] [0, 0, 0] (concat (map rw_entry sample_keys) @ [NUL]) 75
        = Inl Undefined_behaviour"
  using rw_table_overflows [of sample_keys "[NUL]" "\<lambda>_. CHR ''?''" "[0, 0, 0]" "[0, 0, 0]"]
  by (simp add: sample_keys_def)

text \<open>
  C27. The slices \<open>bulk\<close> cuts a block into cover it exactly: laid end to end they are all offsets
  from 0 to the size in order, none is empty or longer than \<open>rdma_gap\<close>, and there are exactly as
  many as the array \<open>bulk_mems\<close> was allocated for.
\<close>
theorem bulk_slices_partition:
  assumes "0 < gap"
  shows "\<exists>ss. bulk_slices gap sz 0 = Inr ss \<and> concat (map (\<lambda>(a, l). [a..<a + l]) ss) = [0..<sz]
    \<and> (\<forall>(a, l) \<in> set ss. 0 < l \<and> l \<le> gap) \<and> length ss = bulk_num gap sz"
  using bulk_slices_ok [OF assms, of sz 0] bulk_num_ceiling [OF assms, of sz] assms by auto

lemma bulk_slices_partition_witness:
  "bulk_slices 4 10 0 = Inr [(0, 4), (4, 4), (8, 2)] \<and> bulk_num 4 10 = 3"
  using bulk_slices_partition [of 4 10] by (simp add: bulk_slices.simps Let_def)

end
