(* ===== verification/HugePage.thy ===== *)
theory HugePage
  imports Prelude
begin

text \<open>
  \<open>debug/huge_page.c\<close>: an allocator that asks \<open>mmap\<close> for huge pages, falls back to
  \<open>malloc\<close>, and keeps the size of the mapping in an extra page before the memory it hands
  out. The system calls are the parameter \<open>'w mem_sys\<close>; the one object the code writes and
  reads itself, the size at the start of an allocation, lives in an explicit store.

  The lemmas give the exact range of sizes for which the rounded size covers the request,
  and show that \<open>free_huge_pages\<close> releases exactly what \<open>malloc_huge_pages\<close> took, by the
  matching call.
\<close>

section \<open>Definitions\<close>

text \<open>
  \<open>is_block\<close> says which pointers \<open>free\<close> accepts: the start of a block that \<open>malloc\<close> returned and
  that has not been freed since.
\<close>

record 'w mem_sys =
  mmap :: "size_t \<Rightarrow> 'w \<Rightarrow> u64 option \<times> 'w"
  munmap :: "u64 \<Rightarrow> size_t \<Rightarrow> 'w \<Rightarrow> int \<times> 'w"
  malloc :: "size_t \<Rightarrow> 'w \<Rightarrow> u64 option \<times> 'w"
  free :: "u64 \<Rightarrow> 'w \<Rightarrow> unit \<times> 'w"
  is_block :: "u64 \<Rightarrow> 'w \<Rightarrow> bool"

text \<open>The \<open>size_t\<close> objects in memory, by address.\<close>

type_synonym size_store = "u64 \<Rightarrow> size_t option"

definition HUGE_PAGE_SIZE :: size_t where
  "HUGE_PAGE_SIZE = 2 * 1024 * 1024"

definition ALIGN_TO_PAGE_SIZE :: "size_t \<Rightarrow> size_t" where
  "ALIGN_TO_PAGE_SIZE x = (x + HUGE_PAGE_SIZE - 1) div HUGE_PAGE_SIZE * HUGE_PAGE_SIZE"

text \<open>Storing the size needs eight bytes of allocated memory at \<open>ptr\<close>.\<close>

definition malloc_huge_pages ::
    "'w mem_sys \<Rightarrow> size_store \<Rightarrow> size_t \<Rightarrow> ('w, u64 option \<times> size_store) prog" where
  "malloc_huge_pages S mem sz =
     (let real_size = ALIGN_TO_PAGE_SIZE (sz + HUGE_PAGE_SIZE) in
      bnd (call (mmap S real_size)) (\<lambda>p.
      case p of
        None \<Rightarrow>
          bnd (call (malloc S real_size)) (\<lambda>q.
          case q of
            None \<Rightarrow> ret (None, mem)
          | Some ptr \<Rightarrow>
              bnd (defined (8 \<le> real_size)) (\<lambda>_.
              ret (Some (ptr + HUGE_PAGE_SIZE), mem(ptr \<mapsto> 0))))
      | Some ptr \<Rightarrow>
          bnd (defined (8 \<le> real_size)) (\<lambda>_.
          ret (Some (ptr + HUGE_PAGE_SIZE), mem(ptr \<mapsto> real_size)))))"

definition free_huge_pages :: "'w mem_sys \<Rightarrow> size_store \<Rightarrow> u64 option \<Rightarrow> ('w, unit) prog" where
  "free_huge_pages S mem p =
     (case p of
        None \<Rightarrow> ret ()
      | Some ptr \<Rightarrow>
          let real_ptr = ptr - HUGE_PAGE_SIZE in
          bnd (deref (mem real_ptr)) (\<lambda>real_size.
          bnd (c_assert (real_size mod HUGE_PAGE_SIZE = 0)) (\<lambda>_.
          if real_size \<noteq> 0 then bnd (call (munmap S real_ptr real_size)) (\<lambda>_. ret ())
          else call (free S real_ptr))))"

section \<open>Arithmetic of the rounding\<close>

abbreviation huge :: nat where
  "huge \<equiv> 2097152"

lemma unat_HUGE_PAGE_SIZE [simp]: "unat HUGE_PAGE_SIZE = huge"
  by (simp add: HUGE_PAGE_SIZE_def)

definition real_size_nat :: "nat \<Rightarrow> nat" where
  "real_size_nat n = (n + 2 * huge - 1) div huge * huge"

lemma unat_ALIGN:
  "unat (ALIGN_TO_PAGE_SIZE (sz + HUGE_PAGE_SIZE)) =
     (unat sz + 2 * huge - 1) mod 2 ^ 64 div huge * huge"
proof -
  have x: "sz + HUGE_PAGE_SIZE + HUGE_PAGE_SIZE - 1 = sz + 4194303"
    by (simp add: HUGE_PAGE_SIZE_def)
  have c: "unat sz + 2 * huge - 1 = unat sz + 4194303" by simp
  have u: "unat (sz + 4194303) = (unat sz + 2 * huge - 1) mod 2 ^ 64"
    using unat_word_ariths(1) [of sz 4194303] by (simp only: c unat_numeral) simp
  define m where "m = (unat sz + 2 * huge - 1) mod 2 ^ 64"
  have "m < 2 ^ 64" by (simp add: m_def)
  moreover have "m div huge * huge \<le> m" by (metis mult.commute mult_div_mod_eq le_add1)
  ultimately have b: "m div huge * huge < 2 ^ LENGTH(64)" by simp
  have d: "unat ((sz + 4194303) div HUGE_PAGE_SIZE) = m div huge"
    by (simp add: unat_div u m_def)
  have "unat (ALIGN_TO_PAGE_SIZE (sz + HUGE_PAGE_SIZE)) = m div huge * huge"
    unfolding ALIGN_TO_PAGE_SIZE_def x
    using b by (subst unat_mult_no_wrap) (simp_all only: d unat_HUGE_PAGE_SIZE)
  then show ?thesis by (simp only: m_def)
qed

lemma unat_ALIGN_no_wrap:
  "unat sz + 2 * huge - 1 < 2 ^ 64 \<Longrightarrow>
   unat (ALIGN_TO_PAGE_SIZE (sz + HUGE_PAGE_SIZE)) = real_size_nat (unat sz)"
  by (simp add: unat_ALIGN real_size_nat_def)

lemma real_size_nat_bounds:
  "n + huge \<le> real_size_nat n" "real_size_nat n < n + 2 * huge" "huge dvd real_size_nat n"
proof -
  define m where "m = n + 2 * huge - 1"
  have r: "real_size_nat n = m - m mod huge"
    by (simp add: real_size_nat_def m_def minus_mod_eq_div_mult)
  have "m mod huge < huge" by simp
  then show "n + huge \<le> real_size_nat n" unfolding r by (simp add: m_def)
  show "real_size_nat n < n + 2 * huge" unfolding r by (simp add: m_def)
  show "huge dvd real_size_nat n" by (simp add: real_size_nat_def)
qed

lemma ALIGN_mod_HUGE: "ALIGN_TO_PAGE_SIZE x mod HUGE_PAGE_SIZE = 0"
proof -
  define q where "q = (x + HUGE_PAGE_SIZE - 1) div HUGE_PAGE_SIZE"
  have "unat q * huge \<le> unat (x + HUGE_PAGE_SIZE - 1)"
    by (simp add: q_def unat_div)
  also have "\<dots> < 2 ^ LENGTH(64)" using unat_u64_bound [of "x + HUGE_PAGE_SIZE - 1"] by simp
  finally have "unat (q * HUGE_PAGE_SIZE) = unat q * huge"
    by (subst unat_mult_no_wrap) simp_all
  then have "unat (q * HUGE_PAGE_SIZE mod HUGE_PAGE_SIZE) = 0" by (simp add: unat_mod)
  then show ?thesis unfolding ALIGN_TO_PAGE_SIZE_def q_def [symmetric] by (simp add: unat_eq_0)
qed

section \<open>Allocation and release\<close>

text \<open>
  An allocator as its client sees it: what \<open>acquire\<close> obtains from the system in a given
  way is given back by \<open>release\<close> in the same way. \<open>acq\<close> and \<open>rel\<close> are the raw calls,
  \<open>shift\<close> the distance between the block and the pointer handed out.
\<close>

locale block_allocator =
  fixes acquire :: "size_store \<Rightarrow> size_t \<Rightarrow> ('w, u64 option \<times> size_store) prog"
    and release :: "size_store \<Rightarrow> u64 option \<Rightarrow> ('w, unit) prog"
    and took :: "size_t \<Rightarrow> 'w \<Rightarrow> u64 \<Rightarrow> 'm \<Rightarrow> 'w \<Rightarrow> bool"
    and give :: "u64 \<Rightarrow> 'm \<Rightarrow> 'w \<Rightarrow> 'w"
    and shift :: u64
    and fits :: "size_t \<Rightarrow> bool"
  assumes acquire_took: "fits n \<Longrightarrow> took n w base how w' \<Longrightarrow>
      \<exists>mem'. acquire mem n w = (Inr (Some (base + shift), mem'), w')
        \<and> (\<forall>a. a \<noteq> base \<longrightarrow> mem' a = mem a)
        \<and> (\<forall>mem'' v. mem'' base = mem' base \<longrightarrow>
             release mem'' (Some (base + shift)) v = (Inr (), give base how v))"
begin

lemma acquire_release:
  assumes "fits n" and "took n w base how w'"
  shows "\<exists>p mem'. acquire mem n w = (Inr (Some p, mem'), w') \<and>
    (\<forall>v. release mem' (Some p) v = (Inr (), give base how v))"
  using acquire_took [OF assms] by fast

text \<open>Writes to memory outside the block's first word do not disturb the release.\<close>

lemma release_after_use:
  assumes "fits n" and "took n w base how w'" and "acquire mem n w = (Inr (Some p, mem'), w')"
    and "mem'' base = mem' base"
  shows "release mem'' (Some p) v = (Inr (), give base how v)"
  using acquire_took [OF assms(1,2), of mem] assms(3,4) by auto

end

datatype origin = Mapped size_t | Malloced

definition huge_took :: "'w mem_sys \<Rightarrow> size_t \<Rightarrow> 'w \<Rightarrow> u64 \<Rightarrow> origin \<Rightarrow> 'w \<Rightarrow> bool" where
  "huge_took S n w base how w' =
     (let real_size = ALIGN_TO_PAGE_SIZE (n + HUGE_PAGE_SIZE) in
      case how of
        Mapped sz \<Rightarrow> sz = real_size \<and> mmap S real_size w = (Some base, w')
      | Malloced \<Rightarrow> (\<exists>w1. mmap S real_size w = (None, w1) \<and> malloc S real_size w1 = (Some base, w')))"

definition huge_give :: "'w mem_sys \<Rightarrow> u64 \<Rightarrow> origin \<Rightarrow> 'w \<Rightarrow> 'w" where
  "huge_give S base how w =
     (case how of Mapped sz \<Rightarrow> snd (munmap S base sz w) | Malloced \<Rightarrow> snd (free S base w))"

definition huge_fits :: "size_t \<Rightarrow> bool" where
  "huge_fits n \<longleftrightarrow> unat n + 2 * huge - 1 < 2 ^ 64"

lemma huge_fits_real_size:
  "huge_fits n \<Longrightarrow> 8 \<le> ALIGN_TO_PAGE_SIZE (n + HUGE_PAGE_SIZE)"
  using real_size_nat_bounds(1) [of "unat n"]
  by (simp add: huge_fits_def word_le_nat_alt unat_ALIGN_no_wrap)

interpretation hugealloc: block_allocator "malloc_huge_pages S" "free_huge_pages S"
  "huge_took S" "huge_give S" HUGE_PAGE_SIZE huge_fits for S :: "'w mem_sys"
proof unfold_locales
  fix n w base how w' mem
  assume "huge_fits n" and took: "huge_took S n w base how w'"
  define r where "r = ALIGN_TO_PAGE_SIZE (n + HUGE_PAGE_SIZE)"
  have r8: "8 \<le> r" using huge_fits_real_size [OF \<open>huge_fits n\<close>] by (simp add: r_def)
  have r0: "r \<noteq> 0" and rm: "r mod HUGE_PAGE_SIZE = 0" using r8 by (auto simp: r_def ALIGN_mod_HUGE)
  define mem' where "mem' = mem(base \<mapsto> (case how of Mapped _ \<Rightarrow> r | Malloced \<Rightarrow> 0))"
  have "malloc_huge_pages S mem n w = (Inr (Some (base + HUGE_PAGE_SIZE), mem'), w')"
    using took r8 by (auto simp: malloc_huge_pages_def huge_took_def Let_def prog_simps mem'_def
        simp flip: r_def split: origin.splits)
  moreover have "free_huge_pages S mem'' (Some (base + HUGE_PAGE_SIZE)) v = (Inr (), huge_give S base how v)"
    if "mem'' base = mem' base" for mem'' v
    using that took r0 rm by (auto simp: free_huge_pages_def huge_give_def huge_took_def Let_def
        prog_simps mem'_def simp flip: r_def split: origin.splits)
  ultimately show "\<exists>mem'. malloc_huge_pages S mem n w = (Inr (Some (base + HUGE_PAGE_SIZE), mem'), w')
      \<and> (\<forall>a. a \<noteq> base \<longrightarrow> mem' a = mem a)
      \<and> (\<forall>mem'' v. mem'' base = mem' base \<longrightarrow>
           free_huge_pages S mem'' (Some (base + HUGE_PAGE_SIZE)) v = (Inr (), huge_give S base how v))"
    by (auto simp: mem'_def)
qed

section \<open>The live blocks of memory\<close>

text \<open>
  A memory system that keeps a list of what is mapped or allocated at the moment: the start, the
  size and whether it came from \<open>malloc\<close>. \<open>free\<close> accepts exactly the starts of the live \<open>malloc\<close>
  blocks in the list.
\<close>

type_synonym live = "(u64 \<times> size_t \<times> bool) list"

definition enlist :: "bool \<Rightarrow> size_t \<Rightarrow> ('w \<Rightarrow> u64 option \<times> 'w) \<Rightarrow> 'w \<times> live \<Rightarrow> u64 option \<times> 'w \<times> live" where
  "enlist k n f wg =
     (case f (fst wg) of
        (None, w') \<Rightarrow> (None, w', snd wg)
      | (Some a, w') \<Rightarrow> (Some a, w', (a, n, k) # snd wg))"

definition block_mem :: "'w mem_sys \<Rightarrow> ('w \<times> live) mem_sys" where
  "block_mem M = \<lparr>
     mmap = (\<lambda>n. enlist False n (mmap M n)),
     munmap = (\<lambda>a n (w, g). let (r, w') = munmap M a n w in (r, w', filter (\<lambda>(b, m, k). \<not> (b = a \<and> \<not> k)) g)),
     malloc = (\<lambda>n. enlist True n (malloc M n)),
     free = (\<lambda>a (w, g). ((), snd (free M a w), filter (\<lambda>(b, m, k). \<not> (b = a \<and> k)) g)),
     is_block = (\<lambda>a (w, g). list_ex (\<lambda>(b, m, k). b = a \<and> k) g)\<rparr>"

lemma block_mem_sel:
  "mmap (block_mem M) n = enlist False n (mmap M n)" "malloc (block_mem M) n = enlist True n (malloc M n)"
  "free (block_mem M) a (w, g) = ((), snd (free M a w), filter (\<lambda>(b, m, k). \<not> (b = a \<and> k)) g)"
  "is_block (block_mem M) a (w, g) \<longleftrightarrow> list_ex (\<lambda>(b, m, k). b = a \<and> k) g"
  by (simp_all add: block_mem_def)

text \<open>What an allocator guarantees of the live blocks: none starts inside another.\<close>

definition separate :: "live \<Rightarrow> bool" where
  "separate g \<longleftrightarrow> (\<forall>(a, n, k) \<in> set g. \<forall>(b, m, l) \<in> set g. b = a \<or> unat n \<le> unat (b - a))"

text \<open>
  A pointer from \<open>malloc_huge_pages\<close> for a non-empty request lies inside a live block, one huge
  page behind its start; so it is not the start of any block.
\<close>

definition huge_inside :: "u64 \<Rightarrow> live \<Rightarrow> bool" where
  "huge_inside p g \<longleftrightarrow> (\<exists>n k. (p - HUGE_PAGE_SIZE, n, k) \<in> set g \<and> huge < unat n)"

lemma huge_inside_no_block:
  assumes "huge_inside p g" and "separate g"
  shows "\<not> is_block (block_mem M) p (w, g)"
proof
  assume "is_block (block_mem M) p (w, g)"
  then obtain m where m: "(p, m, True) \<in> set g" by (auto simp: block_mem_def list_ex_iff)
  obtain n k where n: "(p - HUGE_PAGE_SIZE, n, k) \<in> set g" and big: "huge < unat n"
    using assms(1) by (auto simp: huge_inside_def)
  have "p = p - HUGE_PAGE_SIZE \<or> unat n \<le> unat (p - (p - HUGE_PAGE_SIZE))"
    using assms(2) n m unfolding separate_def by fast
  moreover have "p \<noteq> p - HUGE_PAGE_SIZE" by (simp add: HUGE_PAGE_SIZE_def)
  ultimately show False using big by simp
qed

lemma malloc_huge_pages_inside:
  assumes "malloc_huge_pages (block_mem M) mem n (w, g) = (Inr (Some p, mem'), (w', g'))"
    and "huge_fits n" and "n \<noteq> 0"
  shows "huge_inside p g' \<and> set g \<subseteq> set g'"
proof -
  define r where "r = ALIGN_TO_PAGE_SIZE (n + HUGE_PAGE_SIZE)"
  have "unat n + huge \<le> unat r"
    using assms(2) real_size_nat_bounds(1) [of "unat n"] by (simp add: r_def huge_fits_def unat_ALIGN_no_wrap)
  moreover have "0 < unat n" using assms(3) by (simp add: unat_gt_0)
  ultimately have big: "huge < unat r" by linarith
  have "\<exists>k. (p - HUGE_PAGE_SIZE, r, k) \<in> set g' \<and> set g \<subseteq> set g'"
    using assms(1) by (cases "mmap M r w"; cases "fst (mmap M r w)")
      (auto simp: malloc_huge_pages_def Let_def prog_simps block_mem_sel enlist_def defined_def ret_Inr_iff
        simp flip: r_def split: option.splits prod.splits if_splits)
  then show ?thesis using big by (auto simp: huge_inside_def)
qed

section \<open>Properties\<close>

text \<open>
  The rounded size covers the request and the metadata page exactly when the sum does
  not exceed the range of \<open>size_t\<close>; then it is a whole number of huge pages and at most
  one page more than needed. For larger requests the sum wraps around and the block that is
  asked for is smaller than the request.
\<close>

theorem huge_page_size_covers:
  "unat sz + huge \<le> unat (ALIGN_TO_PAGE_SIZE (sz + HUGE_PAGE_SIZE)) \<longleftrightarrow> unat sz + 2 * huge - 1 < 2 ^ 64"
proof (cases "unat sz + 2 * huge - 1 < 2 ^ 64")
  case True
  then show ?thesis using real_size_nat_bounds(1) [of "unat sz"] by (simp add: unat_ALIGN_no_wrap)
next
  case False
  define m where "m = (unat sz + 2 * huge - 1) mod 2 ^ 64"
  have "m = unat sz + 2 * huge - 1 - 2 ^ 64"
    using False unat_u64_bound [of sz] unfolding m_def by (subst mod_if) simp
  moreover have "m div huge * huge \<le> m" by simp
  ultimately show ?thesis using False unfolding unat_ALIGN m_def [symmetric] by simp
qed

text \<open>
  C31. What \<open>malloc_huge_pages\<close> took from the system is given back by \<open>free_huge_pages\<close>
  with the matching call: \<open>munmap\<close> of the whole mapping when \<open>mmap\<close> succeeded, \<open>free\<close>
  of the block when the allocator fell back to \<open>malloc\<close>. The client may overwrite any other
  memory in between, and the assertion in \<open>free_huge_pages\<close> does not fail.
\<close>

theorem huge_pages_released:
  assumes "unat sz + 2 * huge - 1 < 2 ^ 64"
    and "huge_took S sz w base how w'"
  shows "\<exists>mem'. malloc_huge_pages S mem sz w = (Inr (Some (base + HUGE_PAGE_SIZE), mem'), w') \<and>
    (\<forall>mem'' v. mem'' base = mem' base \<longrightarrow>
       free_huge_pages S mem'' (Some (base + HUGE_PAGE_SIZE)) v
         = (Inr (), case how of Mapped n \<Rightarrow> snd (munmap S base n v) | Malloced \<Rightarrow> snd (free S base v)))"
  using hugealloc.acquire_took [of sz S w base how w' mem] assms
  by (auto simp: huge_fits_def huge_give_def)

definition sample_mem_sys :: "string list mem_sys" where
  "sample_mem_sys = \<lparr>mmap = (\<lambda>n w. (None, ''mmap'' # w)), munmap = (\<lambda>a n w. (0, ''munmap'' # w)),
     malloc = (\<lambda>n w. (Some 65536, ''malloc'' # w)), free = (\<lambda>a w. ((), ''free'' # w)),
     is_block = (\<lambda>a w. a = 65536)\<rparr>"

theorem huge_pages_released_witness:
  "unat (4096 :: size_t) + 2 * huge - 1 < 2 ^ 64 \<and>
   huge_took sample_mem_sys 4096 [] 65536 Malloced [''malloc'', ''mmap''] \<and>
   (\<exists>mem'. malloc_huge_pages sample_mem_sys Map.empty 4096 []
        = (Inr (Some (65536 + HUGE_PAGE_SIZE), mem'), [''malloc'', ''mmap'']) \<and>
      free_huge_pages sample_mem_sys mem' (Some (65536 + HUGE_PAGE_SIZE)) [] = (Inr (), [''free'']))"
proof -
  have fits: "unat (4096 :: size_t) + 2 * huge - 1 < 2 ^ 64" by simp
  have took: "huge_took sample_mem_sys 4096 [] 65536 Malloced [''malloc'', ''mmap'']"
    by (simp add: huge_took_def sample_mem_sys_def)
  from huge_pages_released [OF fits took, of Map.empty] obtain mem' where
    m: "malloc_huge_pages sample_mem_sys Map.empty 4096 []
        = (Inr (Some (65536 + HUGE_PAGE_SIZE), mem'), [''malloc'', ''mmap''])"
    and f: "\<forall>mem'' v. mem'' 65536 = mem' 65536 \<longrightarrow>
       free_huge_pages sample_mem_sys mem'' (Some (65536 + HUGE_PAGE_SIZE)) v
         = (Inr (), snd (free sample_mem_sys 65536 v))" by auto
  from f have "free_huge_pages sample_mem_sys mem' (Some (65536 + HUGE_PAGE_SIZE)) [] = (Inr (), [''free''])"
    by (simp add: sample_mem_sys_def)
  with fits took m show ?thesis by blast
qed

end
