(* ===== verification/RdmaSession.thy ===== *)
theory RdmaSession
  imports SessionBuffers SessionTable HugePage
begin

text \<open>
  \<open>debug/rdma_session.h\<close>, \<open>debug/rdma_session.cpp\<close> and \<open>debug/rdma_portal.cpp\<close>: a session
  on top of one connection, with its ring of receive buffers, its send buffer, the block the
  peer may write to, and the table of the peer's slices.

  Each method takes the session and returns it updated beside its result. Memory that is
  registered with the adapter is shared with it, so its contents belong to the outside state
  and are reached through \<open>mem_load\<close> and \<open>mem_store\<close>. Fields that a constructor leaves
  uninitialised keep the value of the storage the object is built in. Diagnostic output is left
  out.
\<close>

section \<open>State\<close>

text \<open>
  Everything a session runs on. \<open>h_junk\<close> gives the indeterminate bytes that the local arrays
  \<open>data\<close> of \<open>start_rw\<close> and \<open>tmp\<close> of \<open>start_remote\<close> hold before they are written.
\<close>

record 'w host =
  h_verbs :: "'w verbs"
  h_sys :: "'w sys"
  h_mem :: "'w mem_sys"
  mem_load :: "u64 \<Rightarrow> nat \<Rightarrow> 'w \<Rightarrow> bytes \<times> 'w"
  mem_store :: "u64 \<Rightarrow> bytes \<Rightarrow> 'w \<Rightarrow> unit \<times> 'w"
  h_junk :: "nat \<Rightarrow> char"

text \<open>
  An array is the list of the elements assigned so far, and reading behind them is undefined; a
  pointer in it may be null. The fields ending in \<open>_ptr\<close> are the addresses of arrays from
  \<open>malloc\<close>. \<open>s_store\<close> has the sizes that \<open>malloc_huge_pages\<close> keeps in front of its blocks.
\<close>

record rdma_session =
  s_maxCQE :: int
  recv_index :: nat
  recv_nums :: nat
  posted_recv :: int
  gap :: nat
  s_ctx :: "rdma_context option"
  recv_mem :: "rdma_mem option list option"
  send_mem :: "rdma_mem option"
  rw_mem :: "rdma_mem option list option"
  s_wc :: "ibv_wc list"
  s_send_wc :: "ibv_wc list"
  rkeys :: "u32 list"
  raddrs :: "u64 list"
  rbuf :: "u64 option"
  sbuf :: "u64 option"
  qbuf :: "bytes option"
  rwbuf :: "u64 option"
  rwbuf_size :: nat
  rdma_index :: nat
  slices :: nat
  rdma_gap :: nat
  rbuf_size :: nat
  qbuf_size :: nat
  sbuf_size :: nat
  s_flag :: int
  s_store :: size_store
  qbuf_ptr :: "handle option"
  rkeys_ptr :: "handle option"
  raddrs_ptr :: "handle option"

section \<open>Memory\<close>

text \<open>\<open>free\<close> of a buffer: a non-null pointer has to be the start of a live block.\<close>

definition free_buf :: "'w host \<Rightarrow> u64 option \<Rightarrow> ('w, unit) prog" where
  "free_buf H p =
     (case p of
        None \<Rightarrow> ret ()
      | Some a \<Rightarrow>
          bnd (call (\<lambda>w. (is_block (h_mem H) a w, w))) (\<lambda>ok.
          bnd (defined ok) (\<lambda>_. call (free (h_mem H) a))))"

definition free_array :: "'w host \<Rightarrow> handle option \<Rightarrow> ('w, unit) prog" where
  "free_array H p = (case p of None \<Rightarrow> ret () | Some a \<Rightarrow> call (sys_free (h_sys H) a))"

definition session_huge :: "'w host \<Rightarrow> rdma_session \<Rightarrow> size_t \<Rightarrow> ('w, u64 option \<times> rdma_session) prog" where
  "session_huge H s sz =
     bnd (malloc_huge_pages (h_mem H) (s_store s) sz) (\<lambda>(p, mem). ret (p, s\<lparr>s_store := mem\<rparr>))"

text \<open>\<open>reg_mem(buf, size)\<close>, and \<open>set_mem\<close>, which is the same.\<close>

definition reg_mem_block :: "'w host \<Rightarrow> rdma_session \<Rightarrow> u64 \<Rightarrow> size_t \<Rightarrow> ('w, rdma_mem option) prog" where
  "reg_mem_block H s buf sz =
     bnd (deref (s_ctx s)) (\<lambda>ctx. rdma_reg_mr (h_verbs H) (h_sys H) ctx buf sz)"

definition set_mem :: "'w host \<Rightarrow> rdma_session \<Rightarrow> u64 \<Rightarrow> size_t \<Rightarrow> ('w, rdma_mem option) prog" where
  "set_mem H s buf sz =
     bnd (deref (s_ctx s)) (\<lambda>ctx. rdma_reg_mr (h_verbs H) (h_sys H) ctx buf sz)"

text \<open>
  The registration loop of \<open>reg_mem(size)\<close>: the array, and whether the loop ran to its end. A
  null pointer is stored in the array before the loop is left.
\<close>

fun reg_ring :: "'w host \<Rightarrow> rdma_session \<Rightarrow> u64 \<Rightarrow> nat list \<Rightarrow> rdma_mem option list \<Rightarrow>
    ('w, bool \<times> rdma_mem option list) prog" where
  "reg_ring H s base [] mems = ret (True, mems)"
| "reg_ring H s base (i # is) mems =
     bnd (reg_mem_block H s (base + of_nat (gap s * i)) (of_nat (gap s))) (\<lambda>m.
     if m = None then ret (False, mems @ [m])
     else reg_ring H s base is (mems @ [m]))"

text \<open>The end of \<open>reg_mem(size)\<close>: the send buffer. A failed registration is passed to
  \<open>rdma_dereg_mr\<close>, which reads through it.\<close>

definition reg_send_buf :: "'w host \<Rightarrow> rdma_session \<Rightarrow> ('w, rdma_session) prog" where
  "reg_send_buf H s =
     bnd (session_huge H s (of_nat (gap s))) (\<lambda>(p, s).
     let s = s\<lparr>sbuf := p\<rparr> in
     case p of None \<Rightarrow> ret s | Some base \<Rightarrow>
     bnd (reg_mem_block H s base (of_nat (gap s))) (\<lambda>m.
     let s = s\<lparr>send_mem := m\<rparr> in
     if m = None then bnd (rdma_dereg_mr (h_verbs H) (h_sys H) m) (\<lambda>_. ret s) else ret s))"

definition reg_mem :: "'w host \<Rightarrow> size_t \<Rightarrow> rdma_session \<Rightarrow> ('w, rdma_session) prog" where
  "reg_mem H sz s =
     bnd (call (sys_alloc (h_sys H))) (\<lambda>arr.
     let s = s\<lparr>recv_index := 0, recv_mem := map_option (\<lambda>_. []) arr\<rparr> in
     if arr = None then ret s else
     bnd (call (sys_page_size (h_sys H))) (\<lambda>_.
     bnd (session_huge H s (sz * of_nat (recv_nums s))) (\<lambda>(p, s).
     let s = s\<lparr>rbuf := p\<rparr> in
     case p of None \<Rightarrow> ret s | Some base \<Rightarrow>
     bnd (reg_ring H s base [0..<recv_nums s] []) (\<lambda>(ok, mems).
     let s = s\<lparr>recv_mem := Some mems\<rparr> in
     if \<not> ok then bnd (free_buf H (rbuf s)) (\<lambda>_. ret s)
     else reg_send_buf H s))))"

section \<open>Posting\<close>

definition elem_at :: "'a list \<Rightarrow> nat \<Rightarrow> ('w, 'a) prog" where
  "elem_at xs i = (if i < length xs then ret (xs ! i) else fail Undefined_behaviour)"

definition recv_task :: "rdma_mem \<Rightarrow> rdma_task" where
  "recv_task m = \<lparr>task_mem = m, task_opcode = IBV_WR_RDMA_WRITE, task_size = 0, task_rkey = 0,
     task_remote_addr = 0, task_id = 666\<rparr>"

text \<open>The zero opcode of \<open>task = {}\<close> is \<open>IBV_WR_RDMA_WRITE\<close>; a receive does not look at it.\<close>

function post_recv_loop :: "'w host \<Rightarrow> rdma_session \<Rightarrow> int \<Rightarrow> nat \<Rightarrow> ('w, int \<times> nat) prog" where
  "post_recv_loop H s nums i =
     (if i < 16000 \<and> int i < nums then
        bnd (deref (recv_mem s)) (\<lambda>mems.
        bnd (defined (recv_nums s \<noteq> 0)) (\<lambda>_.
        bnd (elem_at mems (i mod recv_nums s)) (\<lambda>e.
        bnd (deref e) (\<lambda>m.
        bnd (deref (s_ctx s)) (\<lambda>ctx.
        bnd (rdma_post_recv (h_verbs H) ctx (recv_task m)) (\<lambda>r.
        if r \<noteq> 0 then ret (r, i) else post_recv_loop H s nums (i + 1)))))))
      else ret (0, i))"
  by pat_completeness auto
termination
  by (relation "measure (\<lambda>(H, s, nums, i). 16000 - i)") auto

declare post_recv_loop.simps [simp del]

definition post_recv :: "'w host \<Rightarrow> int \<Rightarrow> rdma_session \<Rightarrow> ('w, int \<times> rdma_session) prog" where
  "post_recv H nums s =
     bnd (post_recv_loop H s nums 0) (\<lambda>(r, i).
     if r \<noteq> 0 then ret (r, s) else ret (0, s\<lparr>posted_recv := posted_recv s + int i\<rparr>))"

definition send_task :: "'w host \<Rightarrow> rdma_session \<Rightarrow> rdma_task \<Rightarrow> ('w, int) prog" where
  "send_task H s task = bnd (deref (s_ctx s)) (\<lambda>ctx. rdma_post_send (h_verbs H) ctx task)"

text \<open>\<open>send(size)\<close>: the first \<open>size\<close> bytes of the send buffer as they are.\<close>

definition send_size :: "'w host \<Rightarrow> rdma_session \<Rightarrow> size_t \<Rightarrow> ('w, int) prog" where
  "send_size H s sz =
     (if sz = 0 then ret 0 else
      bnd (deref (send_mem s)) (\<lambda>m.
      send_task H s \<lparr>task_mem = m, task_opcode = IBV_WR_SEND, task_size = sz, task_rkey = 0,
        task_remote_addr = 0, task_id = 222\<rparr>))"

text \<open>
  \<open>send(buf, size)\<close>; a size above \<open>gap\<close> only makes it print a message, and the copy into the block
  registered for sending then runs over its end.
\<close>

definition send_buf :: "'w host \<Rightarrow> rdma_session \<Rightarrow> bytes \<Rightarrow> ('w, int) prog" where
  "send_buf H s bs =
     bnd (deref (send_mem s)) (\<lambda>m.
     bnd (defined (length bs \<le> unat (rm_size m))) (\<lambda>_.
     bnd (call (mem_store H (rm_buf m) bs)) (\<lambda>_.
     send_task H s \<lparr>task_mem = m, task_opcode = IBV_WR_SEND, task_size = of_nat (length bs),
       task_rkey = 0, task_remote_addr = 0, task_id = 65\<rparr>)))"

text \<open>\<open>rdma(mem)\<close>: write a registered block to the peer's next slice.\<close>

definition rdma :: "'w host \<Rightarrow> rdma_mem option \<Rightarrow> rdma_session \<Rightarrow> ('w, int \<times> rdma_session) prog" where
  "rdma H mem s =
     bnd (deref mem) (\<lambda>m.
     bnd (elem_at (raddrs s) (rdma_index s)) (\<lambda>addr.
     bnd (elem_at (rkeys s) (rdma_index s)) (\<lambda>key.
     bnd (defined (slices s \<noteq> 0)) (\<lambda>_.
     let s = s\<lparr>rdma_index := (rdma_index s + 1) mod slices s\<rparr> in
     bnd (send_task H s \<lparr>task_mem = m, task_opcode = IBV_WR_RDMA_WRITE, task_size = rm_size m,
       task_rkey = key, task_remote_addr = addr, task_id = 233\<rparr>) (\<lambda>r.
     if r \<noteq> 0 then ret (- 1, s) else ret (0, s))))))"

section \<open>Queries\<close>

text \<open>A query overwrites the front of the completion array.\<close>

definition store_wcs :: "ibv_wc list \<Rightarrow> ibv_wc list \<Rightarrow> ibv_wc list" where
  "store_wcs new old = new @ drop (length new) old"

definition query :: "nat \<Rightarrow> 'w host \<Rightarrow> int \<Rightarrow> rdma_session \<Rightarrow> ('w, int \<times> rdma_session) prog" where
  "query fuel H num s =
     bnd (deref (s_ctx s)) (\<lambda>ctx.
     bnd (rdma_query_cq fuel (h_verbs H) ctx num 3) (\<lambda>(r, wcs).
     let s = s\<lparr>s_wc := store_wcs wcs (s_wc s)\<rparr> in
     if r > 0
     then ret (r, s\<lparr>posted_recv := posted_recv s
            - int (length (filter (\<lambda>wc. wc_wr_id wc = 666) (take (nat r) (s_wc s))))\<rparr>)
     else ret (r, s)))"

text \<open>
  The lengths of the received messages, one decimal number in each slot of eight bytes. A
  number of eight or more digits runs into the next slot. The code prints the 32-bit length with
  \<open>%ld\<close>; where \<open>long\<close> has 64 bits and an argument takes a whole register (LP64), this prints the
  length itself.
\<close>

definition qbuf_put :: "ibv_wc \<Rightarrow> bytes \<times> nat \<Rightarrow> fault + (bytes \<times> nat)" where
  "qbuf_put wc st =
     (case st of (q, cnt) \<Rightarrow>
        if wc_wr_id wc = 666
        then sbnd (memcpy_at q (8 * cnt) (print_d (uint (wc_byte_len wc)) @ [NUL])) (\<lambda>q. Inr (q, Suc cnt))
        else Inr (q, cnt))"

definition query_sr :: "nat \<Rightarrow> 'w host \<Rightarrow> rdma_session \<Rightarrow> ('w, int \<times> rdma_session) prog" where
  "query_sr fuel H s =
     bnd (deref (qbuf s)) (\<lambda>_.
     let q0 = replicate (qbuf_size s) NUL in
     bnd (deref (s_ctx s)) (\<lambda>ctx.
     bnd (rdma_query_cq fuel (h_verbs H) ctx (s_maxCQE s) 2) (\<lambda>(r, wcs).
     bnd (pure_prog (for_each qbuf_put (take (nat r) wcs) (q0, 0))) (\<lambda>(q, cnt).
     ret (int cnt, s\<lparr>s_wc := store_wcs wcs (s_wc s), qbuf := Some q\<rparr>)))))"

definition send_query :: "nat \<Rightarrow> 'w host \<Rightarrow> rdma_session \<Rightarrow> ('w, int \<times> rdma_session) prog" where
  "send_query fuel H s =
     bnd (deref (s_ctx s)) (\<lambda>ctx.
     bnd (rdma_query_cq fuel (h_verbs H) ctx (s_maxCQE s) 1) (\<lambda>(r, wcs).
     ret (r, s\<lparr>s_send_wc := store_wcs wcs (s_send_wc s)\<rparr>)))"

text \<open>
  \<open>read\<close>: the offsets of the receive buffers in \<open>rbuf\<close> come from the registered blocks; \<open>room\<close> is
  the memory at \<open>dest\<close>. The result is \<open>size\<close> and that memory.
\<close>

definition buf_offsets :: "u64 \<Rightarrow> rdma_mem option list \<Rightarrow> nat list" where
  "buf_offsets base mems =
     map (\<lambda>e. unat (rm_buf (the e) - base)) (takeWhile (\<lambda>e. e \<noteq> None) mems)"

definition read :: "nat \<Rightarrow> 'w host \<Rightarrow> bytes \<Rightarrow> rdma_session \<Rightarrow> ('w, (int \<times> bytes) \<times> rdma_session) prog" where
  "read fuel H room s =
     bnd (query fuel H (s_maxCQE s) s) (\<lambda>(done, s).
     bnd (deref (recv_mem s)) (\<lambda>mems.
     bnd (deref (rbuf s)) (\<lambda>base.
     bnd (elem_at mems (recv_index s)) (\<lambda>e.
     bnd (deref e) (\<lambda>_.
     bnd (call (mem_load H base (rbuf_size s))) (\<lambda>rmem.
     bnd (pure_prog (read_completions (buf_offsets base mems) (recv_nums s) (gap s) rmem
            (map (unat \<circ> wc_byte_len) (take (nat done) (s_wc s))) (recv_index s) room)) (\<lambda>st.
     ret ((int (rd_size st), rd_dest st), s\<lparr>recv_index := rd_index st\<rparr>))))))))"

section \<open>The block the peer writes to\<close>

fun reg_slices :: "'w host \<Rightarrow> rdma_session \<Rightarrow> u64 \<Rightarrow> size_t \<Rightarrow> nat list \<Rightarrow> rdma_mem option list \<Rightarrow>
    ('w, rdma_mem option list) prog" where
  "reg_slices H s base slc [] mems = ret mems"
| "reg_slices H s base slc (i # is) mems =
     bnd (reg_mem_block H s (base + of_nat i * slc) slc) (\<lambda>m.
     reg_slices H s base slc is (mems @ [m]))"

text \<open>A table of keys can be printed only when no registration failed.\<close>

definition slice_keys :: "rdma_mem option list \<Rightarrow> ('w, rw_key list) prog" where
  "slice_keys mems =
     (if None \<in> set mems then fail Undefined_behaviour
      else ret (map (\<lambda>e. (mr_addr (rm_mr (the e)), mr_rkey (rm_mr (the e)))) mems))"

definition start_rw :: "nat \<Rightarrow> 'w host \<Rightarrow> rdma_session \<Rightarrow> ('w, rdma_session) prog" where
  "start_rw fuel H s =
     (let size = 1024 * 1024 * 1024; slc = 2 * 1024 * 1024; num = size div slc in
      bnd (session_huge H (s\<lparr>rwbuf_size := size, slices := num\<rparr>) (of_nat size)) (\<lambda>(p, s).
      let s = s\<lparr>rwbuf := p\<rparr> in
      bnd (deref p) (\<lambda>base.
      bnd (call (sys_alloc (h_sys H))) (\<lambda>arr.
      bnd (deref arr) (\<lambda>_.
      bnd (reg_slices H s base (of_nat slc) [0..<num] []) (\<lambda>mems.
      let s = s\<lparr>rw_mem := Some mems\<rparr> in
      bnd (slice_keys mems) (\<lambda>keys.
      bnd (pure_prog (rw_table (h_junk H) keys)) (\<lambda>data.
      bnd (send_buf H s (take (num * 25) data)) (\<lambda>_.
      bnd (send_query fuel H s) (\<lambda>(_, s). ret s))))))))))"

definition start_remote :: "'w host \<Rightarrow> u32 \<Rightarrow> rdma_session \<Rightarrow> ('w, rdma_session) prog" where
  "start_remote H len s =
     (let s = s\<lparr>recv_index := recv_index s + 1\<rparr>; num = unat (len div 25) in
      bnd (call (sys_alloc (h_sys H))) (\<lambda>k.
      bnd (call (sys_alloc (h_sys H))) (\<lambda>a.
      let s = s\<lparr>rkeys_ptr := k, raddrs_ptr := a\<rparr> in
      if num = 0 then ret (s\<lparr>rkeys := [], raddrs := []\<rparr>) else
      bnd (defined (k \<noteq> None \<and> a \<noteq> None)) (\<lambda>_.
      bnd (deref (rbuf s)) (\<lambda>base.
      bnd (call (mem_load H base (rbuf_size s))) (\<lambda>rmem.
      bnd (pure_prog (remote_table (h_junk H) (replicate num 0) (replicate num 0) rmem len)) (\<lambda>st.
      ret (s\<lparr>rkeys := rs_keys st, raddrs := rs_addrs st\<rparr>))))))))"

definition await_remote :: "nat \<Rightarrow> 'w host \<Rightarrow> rdma_session \<Rightarrow> ('w, rdma_session) prog" where
  "await_remote fuel H s =
     bnd (deref (s_ctx s)) (\<lambda>ctx.
     bnd (rdma_query_cq fuel (h_verbs H) ctx (s_maxCQE s) 2) (\<lambda>(_, wcs).
     let s = s\<lparr>s_wc := store_wcs wcs (s_wc s)\<rparr> in
     bnd (elem_at (s_wc s) 0) (\<lambda>wc. start_remote H (wc_byte_len wc) s)))"

definition door :: "nat \<Rightarrow> 'w host \<Rightarrow> rdma_session \<Rightarrow> ('w, rdma_session) prog" where
  "door fuel H s =
     (if s_flag s = 1 then bnd (start_rw fuel H s) (await_remote fuel H)
      else bnd (await_remote fuel H s) (start_rw fuel H))"

section \<open>Bulk transfer\<close>

text \<open>Registering the slices; \<open>None\<close> when a registration failed.\<close>

fun bulk_reg :: "'w host \<Rightarrow> rdma_session \<Rightarrow> u64 \<Rightarrow> (nat \<times> nat) list \<Rightarrow> ('w, rdma_mem list option) prog" where
  "bulk_reg H s ptr [] = ret (Some [])"
| "bulk_reg H s ptr ((cursor, len) # ss) =
     bnd (reg_mem_block H s (ptr + of_nat cursor) (of_nat len)) (\<lambda>m.
     case m of None \<Rightarrow> ret None | Some mem \<Rightarrow>
     bnd (bulk_reg H s ptr ss) (\<lambda>rest. ret (map_option (\<lambda>ms. mem # ms) rest)))"

fun bulk_post :: "'w host \<Rightarrow> rdma_mem list \<Rightarrow> rdma_session \<Rightarrow> ('w, int \<times> rdma_session) prog" where
  "bulk_post H [] s = ret (0, s)"
| "bulk_post H (m # ms) s =
     bnd (rdma H (Some m) s) (\<lambda>(r, s).
     if r \<noteq> 0 then ret (- 1, s) else bulk_post H ms s)"

text \<open>Collecting the acknowledgements; the loop ends only when the counts agree exactly.\<close>

fun bulk_ack :: "nat \<Rightarrow> nat \<Rightarrow> 'w host \<Rightarrow> int \<Rightarrow> int \<Rightarrow> rdma_session \<Rightarrow> ('w, int \<times> rdma_session) prog" where
  "bulk_ack 0 pf H num ack s = fail Out_of_fuel"
| "bulk_ack (Suc fuel) pf H num ack s =
     (if ack \<noteq> num then
        bnd (send_query pf H s) (\<lambda>(tmp, s).
        if tmp = - 1 then ret (- 1, s) else bulk_ack fuel pf H num (ack + tmp) s)
      else ret (0, s))"

fun bulk_dereg :: "'w host \<Rightarrow> rdma_mem list \<Rightarrow> ('w, int) prog" where
  "bulk_dereg H [] = ret 0"
| "bulk_dereg H (m # ms) =
     bnd (rdma_dereg_mr (h_verbs H) (h_sys H) (Some m)) (\<lambda>r.
     if r \<noteq> 0 then ret (- 1) else bulk_dereg H ms)"

text \<open>What follows the registration of the slices \<open>ms\<close>; \<open>arr\<close> is the array \<open>bulk_mems\<close>.\<close>

definition bulk_send :: "nat \<Rightarrow> nat \<Rightarrow> 'w host \<Rightarrow> nat \<Rightarrow> handle option \<Rightarrow> rdma_mem list \<Rightarrow> rdma_session \<Rightarrow>
    ('w, int \<times> rdma_session) prog" where
  "bulk_send fuel pf H num arr ms s =
     bnd (bulk_post H ms s) (\<lambda>(r, s).
     if r \<noteq> 0 then ret (- 1, s) else
     bnd (bulk_ack fuel pf H (int num) 0 s) (\<lambda>(r, s).
     if r \<noteq> 0 then ret (- 1, s) else
     bnd (bulk_dereg H ms) (\<lambda>r.
     if r \<noteq> 0 then ret (- 1, s) else
     bnd (free_array H arr) (\<lambda>_. ret (0, s)))))"

definition bulk :: "nat \<Rightarrow> nat \<Rightarrow> 'w host \<Rightarrow> u64 \<Rightarrow> nat \<Rightarrow> rdma_session \<Rightarrow> ('w, int \<times> rdma_session) prog" where
  "bulk fuel pf H ptr sz s =
     bnd (defined (rdma_gap s \<noteq> 0)) (\<lambda>_.
     let num = bulk_num (rdma_gap s) sz in
     bnd (call (sys_alloc (h_sys H))) (\<lambda>arr.
     bnd (defined (num = 0 \<or> arr \<noteq> None)) (\<lambda>_.
     bnd (pure_prog (bulk_slices (rdma_gap s) sz 0)) (\<lambda>ss.
     bnd (bulk_reg H s ptr ss) (\<lambda>mems.
     case mems of None \<Rightarrow> ret (- 1, s) | Some ms \<Rightarrow> bulk_send fuel pf H num arr ms s)))))"

definition latency :: "nat \<Rightarrow> 'w host \<Rightarrow> size_t \<Rightarrow> rdma_session \<Rightarrow> ('w, int \<times> rdma_session) prog" where
  "latency fuel H sz s =
     (if unat sz > gap s then ret (- 1, s) else
      bnd (send_size H s sz) (\<lambda>r.
      if r \<noteq> 0 then ret (r, s) else
      bnd (send_query fuel H s) (\<lambda>(ack, s).
      if ack = - 1 then ret (- 1, s) else ret (0, s))))"

section \<open>Opening and closing\<close>

definition init :: "nat \<Rightarrow> 'w host \<Rightarrow> rdma_session \<Rightarrow> ('w, rdma_session) prog" where
  "init fuel H s =
     (let s = s\<lparr>recv_nums := 1024, s_maxCQE := 1024, gap := 32 * 1024, rdma_index := 0,
                rdma_gap := 2 * 1024 * 1024, sbuf_size := 32 * 1024, rbuf_size := 1024 * (32 * 1024)\<rparr> in
      bnd (reg_mem H (of_nat (gap s)) s) (\<lambda>s.
      bnd (post_recv H 16000 s) (\<lambda>(_, s).
      bnd (call (sys_alloc (h_sys H))) (\<lambda>q.
      door fuel H (s\<lparr>s_wc := [], s_send_wc := [], qbuf_size := 8 * 1024,
                     qbuf_ptr := q, qbuf := map_option (\<lambda>_. replicate (8 * 1024) NUL) q\<rparr>)))))"

text \<open>The two constructors; \<open>s0\<close> is the storage the session is built in.\<close>

definition session_of_ctx :: "nat \<Rightarrow> 'w host \<Rightarrow> rdma_session \<Rightarrow> rdma_context option \<Rightarrow>
    ('w, rdma_session) prog" where
  "session_of_ctx fuel H s0 ictx = init fuel H (s0\<lparr>s_ctx := ictx, s_flag := 1\<rparr>)"

definition session_connect :: "nat \<Rightarrow> 'w host \<Rightarrow> endian \<Rightarrow> stack_junk \<Rightarrow> rdma_session \<Rightarrow> string \<Rightarrow> int \<Rightarrow>
    init_params \<Rightarrow> ('w, rdma_session \<times> init_params) prog" where
  "session_connect fuel H e j s0 hostname port params =
     bnd (rdma_socket_p (h_verbs H) (h_sys H) e j (Some hostname) port 0 params) (\<lambda>(ctx, params).
     bnd (init fuel H (s0\<lparr>s_ctx := ctx\<rparr>)) (\<lambda>s. ret (s, params)))"

text \<open>A loop of \<open>close\<close> over an array of registered blocks.\<close>

fun dereg_all :: "'w host \<Rightarrow> rdma_mem option list \<Rightarrow> nat list \<Rightarrow> ('w, bool) prog" where
  "dereg_all H mems [] = ret True"
| "dereg_all H mems (i # is) =
     bnd (elem_at mems i) (\<lambda>e.
     bnd (rdma_dereg_mr (h_verbs H) (h_sys H) e) (\<lambda>r.
     if r \<noteq> 0 then ret False else dereg_all H mems is))"

definition close :: "'w host \<Rightarrow> rdma_session \<Rightarrow> ('w, int) prog" where
  "close H s =
     bnd (case recv_mem s of None \<Rightarrow> ret True | Some ms \<Rightarrow> dereg_all H ms [0..<recv_nums s]) (\<lambda>ok.
     if \<not> ok then ret (- 1) else
     bnd (case send_mem s of None \<Rightarrow> ret 0 | Some m \<Rightarrow> rdma_dereg_mr (h_verbs H) (h_sys H) (Some m)) (\<lambda>r.
     if r \<noteq> 0 then ret 1 else
     bnd (case rw_mem s of None \<Rightarrow> ret True | Some ms \<Rightarrow> dereg_all H ms [0..<slices s]) (\<lambda>ok.
     if \<not> ok then ret (- 1) else
     bnd (deref (s_ctx s)) (\<lambda>ctx.
     bnd (case ctx_rw ctx of None \<Rightarrow> ret 0 | Some m \<Rightarrow> rdma_dereg_mr (h_verbs H) (h_sys H) (Some m)) (\<lambda>r.
     if r \<noteq> 0 then ret (- 1) else
     bnd (free_buf H (rbuf s)) (\<lambda>_.
     bnd (free_buf H (sbuf s)) (\<lambda>_.
     bnd (free_array H (qbuf_ptr s)) (\<lambda>_.
     bnd (free_array H (rkeys_ptr s)) (\<lambda>_.
     bnd (free_array H (raddrs_ptr s)) (\<lambda>_.
     bnd (free_huge_pages (h_mem H) (s_store s) (rwbuf s)) (\<lambda>_.
     rdma_close_ctx (h_verbs H) (h_sys H) ctx)))))))))))"

text \<open>
  \<open>rdma_portal::accept\<close>: it always listens on port 18185, whatever port it is given. \<open>calloc\<close> of
  the parameters gives all zeros, or a null pointer that is written to. (There is no enumerator 0
  for \<open>mtu\<close>; \<open>rdma_socket_p\<close> overwrites the field before it is read.)
\<close>

definition params_zero :: init_params where
  "params_zero = \<lparr>p_port = 0, p_ib_port = 0, p_gidx = 0, p_use_event = 0, p_rx_depth = 0,
     p_sockfd = 0, p_mem_size = 0, p_mtu = IBV_MTU_256, p_ib_devname = None, p_sr = 0\<rparr>"

definition portal_accept :: "nat \<Rightarrow> 'w host \<Rightarrow> endian \<Rightarrow> stack_junk \<Rightarrow> rdma_session \<Rightarrow> int \<Rightarrow> init_params option \<Rightarrow>
    ('w, int \<times> rdma_session) prog" where
  "portal_accept fuel H e j s0 port params =
     bnd (open_server (h_sys H) 18185) (\<lambda>sockfd.
     bnd (case params of Some p \<Rightarrow> ret p
          | None \<Rightarrow> bnd (call (sys_alloc (h_sys H))) (\<lambda>q. bnd (deref q) (\<lambda>_. ret params_zero))) (\<lambda>p.
     bnd (rdma_socket_p (h_verbs H) (h_sys H) e j None port 1 (p\<lparr>p_sockfd := sockfd\<rparr>)) (\<lambda>(ctx, _).
     bnd (session_of_ctx fuel H s0 ctx) (\<lambda>s. ret (sockfd, s)))))"

section \<open>Reading\<close>

text \<open>The query always fails, so a read that returns at all has delivered nothing.\<close>

lemma read_returns_nothing:
  assumes "read fuel H room s w = (Inr ((n, room'), s'), w')"
  shows "n = 0 \<and> room' = room"
proof -
  obtain ctx where "s_ctx s = Some ctx" using assms by (auto simp: read_def query_def run_iffs)
  then have "query fuel H (s_maxCQE s) s w = (Inr (- 1, s), w)"
    by (simp add: query_def prog_simps rdma_query_cq_bad_flag store_wcs_def)
  then show ?thesis
    using assms by (auto simp: read_def run_iffs sbnd_Inr_iff read_completions_def read_tail_def)
qed

section \<open>Watching what is posted\<close>

text \<open>An environment that logs the work requests it is given, in order.\<close>

datatype posted = Posted_send ibv_send_wr | Posted_recv ibv_recv_wr

definition logged_verbs :: "'w verbs \<Rightarrow> ('w \<times> posted list) verbs" where
  "logged_verbs V = (lift_verbs V)\<lparr>
     ibv_post_send := (\<lambda>qp wrs. logging_call (map Posted_send wrs) (ibv_post_send V qp wrs)),
     ibv_post_recv := (\<lambda>qp wr. logging_call [Posted_recv wr] (ibv_post_recv V qp wr))\<rparr>"

lemma logged_verbs_sel [simp]:
  "ibv_post_send (logged_verbs V) = (\<lambda>qp wrs. logging_call (map Posted_send wrs) (ibv_post_send V qp wrs))"
  "ibv_post_recv (logged_verbs V) = (\<lambda>qp wr. logging_call [Posted_recv wr] (ibv_post_recv V qp wr))"
  "ibv_poll_cq (logged_verbs V) = (\<lambda>a b. unseen (ibv_poll_cq V a b))"
  "ibv_reg_mr (logged_verbs V) = (\<lambda>a b c d. unseen (ibv_reg_mr V a b c d))"
  "ibv_dereg_mr (logged_verbs V) = (\<lambda>a. unseen (ibv_dereg_mr V a))"
  by (simp_all add: logged_verbs_def)

lemma ghost_free_poll_loop:
  assumes "\<And>cq m. \<exists>f. ibv_poll_cq V cq m = unseen f"
  shows "ghost_free (poll_loop fuel V cq m 0)"
proof (induction fuel)
  case 0
  then show ?case by simp
next
  case (Suc fuel)
  obtain f where "ibv_poll_cq V cq m = unseen f" using assms by blast
  then show ?case using Suc by (auto intro!: ghost_free_bnd split: poll_result.split)
qed

lemma ghost_free_query:
  assumes "\<And>cq m. \<exists>f. ibv_poll_cq V cq m = unseen f"
  shows "ghost_free (rdma_query_cq fuel V ctx m flag)"
  using ghost_free_poll_loop [OF assms]
  by (auto simp: rdma_query_cq_def Let_def wait_event_def intro!: ghost_free_bnd split: poll_result.split)

lemma ghost_free_query_logged [simp]: "ghost_free (rdma_query_cq fuel (logged_verbs V) ctx m flag)"
  and ghost_free_query_tracked [simp]: "ghost_free (rdma_query_cq fuel (tracked_verbs V) ctx m flag)"
  by (rule ghost_free_query; simp; blast)+

lemma ghost_free_reg_mr [simp]: "ghost_free (rdma_reg_mr (logged_verbs V) (lift_sys S) ctx buf sz)"
  by (auto simp: rdma_reg_mr_def split: option.split)

lemma ghost_free_dereg_mr [simp]: "ghost_free (rdma_dereg_mr (logged_verbs V) (lift_sys S) m)"
  by (simp add: rdma_dereg_mr_def)

section \<open>Bulk transfer\<close>

lemma reg_mem_block_describes:
  "reg_mem_block H s buf sz w = (Inr (Some m), w') \<Longrightarrow> rm_buf m = buf \<and> rm_size m = sz"
  by (auto simp: reg_mem_block_def rdma_reg_mr_def run_iffs split: option.splits)

lemma bulk_reg_describes:
  "bulk_reg H s ptr ss w = (Inr (Some ms), w') \<Longrightarrow>
   map (\<lambda>m. (rm_buf m, rm_size m)) ms = map (\<lambda>(c, l). (ptr + of_nat c, of_nat l)) ss"
proof (induction H s ptr ss arbitrary: w w' ms rule: bulk_reg.induct)
  case (1 H s ptr)
  then show ?case by (simp add: run_iffs)
next
  case (2 H s ptr c l ss)
  then obtain m rest w1 w2 where reg: "reg_mem_block H s (ptr + of_nat c) (of_nat l) w = (Inr (Some m), w1)"
    and rest: "bulk_reg H s ptr ss w1 = (Inr (Some rest), w2)" and "ms = m # rest"
    by (auto simp: run_iffs split: option.splits)
  then show ?case using 2(1) [OF rest] reg_mem_block_describes [OF reg] by simp
qed

text \<open>The write that \<open>rdma\<close> posts for a block, as far as it does not depend on the local key.\<close>

definition write_of :: "rdma_session \<Rightarrow> nat \<Rightarrow> u64 \<times> size_t \<Rightarrow> ibv_wr_opcode \<times> u64 \<times> u32 \<times> u64 \<times> u32" where
  "write_of s i b = (IBV_WR_RDMA_WRITE, fst b, ucast (snd b), raddrs s ! (i mod slices s), rkeys s ! (i mod slices s))"

fun posted_write :: "posted \<Rightarrow> (ibv_wr_opcode \<times> u64 \<times> u32 \<times> u64 \<times> u32) option" where
  "posted_write (Posted_send wr) =
     (case swr_sg_list wr of
        [sge] \<Rightarrow> Some (swr_opcode wr, sge_addr sge, sge_length sge, swr_remote_addr wr, swr_rkey wr)
      | _ \<Rightarrow> None)"
| "posted_write (Posted_recv wr) = None"

text \<open>A session that has the peer's table: one address and one key for each of its slices.\<close>

definition has_table :: "rdma_session \<Rightarrow> bool" where
  "has_table s \<longleftrightarrow> 0 < slices s \<and> rdma_index s < slices s \<and> length (raddrs s) = slices s
     \<and> length (rkeys s) = slices s \<and> (\<forall>i < slices s. raddrs s ! i \<noteq> 0)"

lemma rdma_posts:
  assumes "h_verbs H = logged_verbs V" and "has_table s"
    and run: "rdma H (Some m) s (w, g) = (Inr (0, s'), (w', g'))"
  shows "map posted_write g' = map posted_write g @ [Some (write_of s (rdma_index s) (rm_buf m, rm_size m))]
    \<and> s' = s\<lparr>rdma_index := (rdma_index s + 1) mod slices s\<rparr>"
proof -
  have "rdma_index s < length (raddrs s)" "rdma_index s < length (rkeys s)" "raddrs s ! rdma_index s \<noteq> 0"
    "rdma_index s mod slices s = rdma_index s"
    using assms(2) by (auto simp: has_table_def)
  then show ?thesis
    using run assms(1)
    by (auto simp: rdma_def elem_at_def send_task_def rdma_post_send_def send_wr_def Let_def run_iffs
        watch_simps write_of_def split: if_splits)
qed

lemma bulk_post_posts:
  assumes "h_verbs H = logged_verbs V" and "has_table s"
    and "bulk_post H ms s (w, g) = (Inr (0, s'), (w', g'))"
  shows "map posted_write g' = map posted_write g
      @ map (\<lambda>k. Some (write_of s (rdma_index s + k) (rm_buf (ms ! k), rm_size (ms ! k)))) [0..<length ms]
    \<and> s' = s\<lparr>rdma_index := (rdma_index s + length ms) mod slices s\<rparr>"
  using assms(2,3)
proof (induction ms arbitrary: s w g)
  case Nil
  then show ?case by (simp add: run_iffs has_table_def)
next
  case (Cons m ms)
  define s1 where "s1 = s\<lparr>rdma_index := (rdma_index s + 1) mod slices s\<rparr>"
  obtain r t w1 g1 where one: "rdma H (Some m) s (w, g) = (Inr (r, t), (w1, g1))"
    and cont: "(if r \<noteq> 0 then ret (- 1, t) else bulk_post H ms t) (w1, g1) = (Inr (0, s'), (w', g'))"
    using Cons.prems(2) by (auto simp: bnd_Inr_iff)
  have r: "r = 0" using cont by (auto simp: ret_Inr_iff split: if_splits)
  note one = one [unfolded r]
  have t: "t = s1" using rdma_posts [OF assms(1) Cons.prems(1) one] by (simp add: s1_def)
  have rest: "bulk_post H ms s1 (w1, g1) = (Inr (0, s'), (w', g'))" using cont by (simp add: r t)
  have tab: "has_table s1" using Cons.prems(1) by (simp add: has_table_def s1_def)
  have shift: "write_of s1 (rdma_index s1 + k) b = write_of s (rdma_index s + Suc k) b" for k b
    by (simp add: write_of_def s1_def mod_simps)
  have idx: "(rdma_index s1 + length ms) mod slices s1 = (rdma_index s + length (m # ms)) mod slices s"
    by (simp add: s1_def mod_simps)
  have "s1\<lparr>rdma_index := i\<rparr> = s\<lparr>rdma_index := i\<rparr>" for i by (simp add: s1_def)
  moreover note Cons.IH [OF tab rest, unfolded shift idx]
  ultimately show ?case
    using conjunct1 [OF rdma_posts [OF assms(1) Cons.prems(1) one]]
    by (simp add: upt_conv_Cons map_Suc_upt [symmetric] del: upt_Suc)
qed

lemma ghost_free_bulk_reg:
  assumes "h_verbs H = logged_verbs V" and "h_sys H = lift_sys S"
  shows "ghost_free (bulk_reg H s ptr ss)"
  using assms by (induction H s ptr ss rule: bulk_reg.induct) (auto simp: reg_mem_block_def split: option.split)

lemma ghost_free_send_query:
  "(\<And>ctx m. ghost_free (rdma_query_cq pf (h_verbs H) ctx m 1)) \<Longrightarrow> ghost_free (send_query pf H s)"
  by (auto simp: send_query_def intro!: ghost_free_bnd split: prod.split)

lemma ghost_free_bulk_ack:
  assumes "\<And>ctx m. ghost_free (rdma_query_cq pf (h_verbs H) ctx m 1)"
  shows "ghost_free (bulk_ack fuel pf H num ack s)"
  using assms
  by (induction fuel pf H num ack s rule: bulk_ack.induct)
    (auto simp: ghost_free_send_query intro!: ghost_free_bnd)

lemma ghost_free_bulk_dereg:
  assumes "h_verbs H = logged_verbs V" and "h_sys H = lift_sys S"
  shows "ghost_free (bulk_dereg H ms)"
  using assms by (induction H ms rule: bulk_dereg.induct) auto

lemma ghost_free_free_array: "h_sys H = lift_sys S \<Longrightarrow> ghost_free (free_array H p)"
  by (auto simp: free_array_def split: option.split)

text \<open>What a bulk transfer that returns 0 has gone through.\<close>

lemma early_exit_iff:
  "(if r \<noteq> 0 then ret (- 1, s) else m) w = (Inr (0, s'), w') \<longleftrightarrow> (r :: int) = 0 \<and> m w = (Inr (0 :: int, s'), w')"
  by (auto simp: ret_Inr_iff)

lemma bulk_send_run:
  assumes "bulk_send fuel pf H num arr ms s w = (Inr (0, s'), w')"
  obtains s1 w1 w2 w3 where "bulk_post H ms s w = (Inr (0, s1), w1)"
    and "bulk_ack fuel pf H (int num) 0 s1 w1 = (Inr (0, s'), w2)"
    and "bulk_dereg H ms w2 = (Inr 0, w3)" and "free_array H arr w3 = (Inr (), w')"
  using assms unfolding bulk_send_def
  by (clarsimp simp add: bnd_Inr_iff early_exit_iff ret_Inr_iff)

lemma bulk_run:
  assumes "bulk fuel pf H ptr sz s w = (Inr (0, s'), w')"
  obtains arr ss ms w1 w2 where "0 < rdma_gap s" and "sys_alloc (h_sys H) w = (arr, w1)"
    and "bulk_slices (rdma_gap s) sz 0 = Inr ss" and "bulk_reg H s ptr ss w1 = (Inr (Some ms), w2)"
    and "bulk_send fuel pf H (bulk_num (rdma_gap s) sz) arr ms s w2 = (Inr (0, s'), w')"
proof -
  obtain arr w1 ss mems w2 where "rdma_gap s \<noteq> 0" "sys_alloc (h_sys H) w = (arr, w1)"
    "bulk_slices (rdma_gap s) sz 0 = Inr ss" "bulk_reg H s ptr ss w1 = (Inr mems, w2)"
    and c: "(case mems of None \<Rightarrow> ret (- 1, s)
      | Some ms \<Rightarrow> bulk_send fuel pf H (bulk_num (rdma_gap s) sz) arr ms s) w2 = (Inr (0, s'), w')"
    using assms unfolding bulk_def Let_def run_iffs by blast
  then show ?thesis using that by (cases mems) (auto simp: ret_Inr_iff)
qed

text \<open>Frames of the steps of a transfer in a logged environment.\<close>

lemma bulk_ack_session: "bulk_ack fuel pf H num ack s w = (Inr (r, s'), w') \<Longrightarrow> rdma_index s' = rdma_index s"
  by (induction fuel pf H num ack s arbitrary: w rule: bulk_ack.induct)
    (auto simp: send_query_def run_iffs split: if_splits)

section \<open>Memory of a transfer\<close>

lemma bulk_reg_holds:
  assumes "h_verbs H = tracked_verbs V" and "h_sys H = tracked_sys S"
    and "bulk_reg H s ptr ss (w, l) = (Inr (Some ms), (w', l'))"
  shows "held l' = held l + sum_list (map mr_resources ms) \<and> sound l' = sound l"
  using assms
proof (induction H s ptr ss arbitrary: w l ms rule: bulk_reg.induct)
  case (1 H s ptr)
  then show ?case by (simp add: run_iffs)
next
  case (2 H s ptr c k ss)
  then obtain ctx m rest w1 l1
    where reg: "rdma_reg_mr (tracked_verbs V) (tracked_sys S) ctx (ptr + of_nat c) (of_nat k) (w, l) = (Inr (Some m), (w1, l1))"
      and rest: "bulk_reg H s ptr ss (w1, l1) = (Inr (Some rest), (w', l'))" and "ms = m # rest"
    by (auto simp: reg_mem_block_def run_iffs split: option.splits)
  then show ?case
    using 2(1) [OF 2(2,3) rest] mrlife.build_holds [of V S "(ctx, ptr + of_nat c, of_nat k)", simplified, OF reg]
    by simp
qed

lemma bulk_dereg_releases:
  assumes "h_verbs H = tracked_verbs V" and "h_sys H = tracked_sys S"
    and "bulk_dereg H ms (w, l) = (Inr 0, (w', l'))" and "held l = X + sum_list (map mr_resources ms)"
  shows "held l' = X \<and> sound l' = sound l"
  using assms
proof (induction H ms arbitrary: w l rule: bulk_dereg.induct)
  case (1 H)
  then show ?case by (simp add: run_iffs)
next
  case (2 H m ms)
  obtain w1 l1 where one: "rdma_dereg_mr (tracked_verbs V) (tracked_sys S) (Some m) (w, l) = (Inr 0, (w1, l1))"
    and rest: "bulk_dereg H ms (w1, l1) = (Inr 0, (w', l'))"
    using 2(2-4) by (auto simp: run_iffs split: if_splits)
  have "held l1 = held l - mr_resources m \<and> sound l1 = sound l"
    using mrlife.destroy_releases [OF one] 2(5) by simp
  then show ?case using 2(1) [of 0, OF _ 2(2,3) rest] 2(5) by simp
qed

lemma ghost_free_rdma_tracked:
  "h_verbs H = tracked_verbs V \<Longrightarrow> ghost_free (rdma H m s)"
  by (auto simp: rdma_def elem_at_def send_task_def rdma_post_send_def send_wr_def Let_def intro!: ghost_free_bnd)

lemma ghost_free_bulk_post_tracked:
  assumes "h_verbs H = tracked_verbs V"
  shows "ghost_free (bulk_post H ms s)"
  using assms
  by (induction H ms s rule: bulk_post.induct) (auto simp: ghost_free_rdma_tracked intro!: ghost_free_bnd)

section \<open>Other lemmas\<close>

text \<open>One slot of \<open>qbuf\<close>.\<close>

definition qslot :: "nat \<Rightarrow> string" where
  "qslot n = print_d (int n) @ replicate (8 - length (print_d (int n))) NUL"

lemma print_d_nat: "print_d (int n) = digits 10 n"
  by (simp add: print_d_def)

lemma length_qtext: "n < 10 ^ 7 \<Longrightarrow> length (print_d (int n)) \<le> 7"
  using length_digits_le_iff [of 10 n 6] by (simp add: print_d_nat)

lemma print_d_no_NUL: "NUL \<notin> set (print_d (int n))"
  using digits_all_digits [of 10 NUL n] by (auto simp: print_d_nat is_digit_specials)

lemma qslot_text:
  assumes "n < 10 ^ 7"
  shows "c_string (qslot n) = digits 10 n \<and> NUL \<in> set (qslot n)"
proof -
  have "qslot n = print_d (int n) @ NUL # replicate (7 - length (print_d (int n))) NUL"
    using length_qtext [OF assms] by (simp add: qslot_def Suc_diff_le flip: replicate_Suc)
  then show ?thesis by (simp add: c_string_append_NUL print_d_no_NUL) (simp add: print_d_nat)
qed

definition qslot_decode :: "string \<Rightarrow> nat option" where
  "qslot_decode s = Some (digits_value 10 (c_string s))"

interpretation qslots: record_codec qslot qslot_decode 8 "\<lambda>n. n < 10 ^ 7"
proof unfold_locales
  fix n :: nat assume n: "n < 10 ^ 7"
  show "length (qslot n) = 8" using length_qtext [OF n] by (simp add: qslot_def)
  show "qslot_decode (qslot n) = Some n"
    using qslot_text [OF n] by (simp add: qslot_decode_def digits_value_digits)
qed

text \<open>The lengths a run of completions leaves in \<open>qbuf\<close>: those of the receives among them.\<close>

definition recv_lens :: "ibv_wc list \<Rightarrow> nat list" where
  "recv_lens wcs = map (\<lambda>wc. unat (wc_byte_len wc)) (filter (\<lambda>wc. wc_wr_id wc = 666) wcs)"

lemma qbuf_put_other: "wc_wr_id wc \<noteq> 666 \<Longrightarrow> qbuf_put wc st = Inr st"
  by (cases st) (simp add: qbuf_put_def)

lemma qbuf_put_recv: "wc_wr_id wc = 666 \<Longrightarrow> qbuf_put wc (q, c) =
  sbnd (memcpy_at q (8 * c) (print_d (uint (wc_byte_len wc)) @ [NUL])) (\<lambda>q. Inr (q, Suc c))"
  by (simp add: qbuf_put_def)

lemma qbuf_put_prefix:
  assumes "\<forall>n \<in> set (recv_lens wcs). n < 10 ^ 7" and "length (recv_lens wcs) \<le> c"
  shows "for_each qbuf_put wcs (replicate (8 * c) NUL, 0) =
    Inr (concat (map qslot (recv_lens wcs)) @ replicate (8 * (c - length (recv_lens wcs))) NUL,
         length (recv_lens wcs))"
  using assms
proof (induction wcs rule: rev_induct)
  case Nil
  then show ?case by (simp add: recv_lens_def)
next
  case (snoc wc wcs)
  define n where "n = unat (wc_byte_len wc)"
  have ih: "for_each qbuf_put wcs (replicate (8 * c) NUL, 0) =
    Inr (concat (map qslot (recv_lens wcs)) @ replicate (8 * (c - length (recv_lens wcs))) NUL,
         length (recv_lens wcs))" (is "_ = Inr (?q, _)")
    using snoc by (auto simp: recv_lens_def)
  show ?case
  proof (cases "wc_wr_id wc = 666")
    case False
    then show ?thesis using ih by (simp add: for_each_append qbuf_put_other recv_lens_def)
  next
    case True
    have lens: "recv_lens (wcs @ [wc]) = recv_lens wcs @ [n]" using True by (simp add: recv_lens_def n_def)
    have len: "length (concat (map qslot (recv_lens wcs))) = 8 * length (recv_lens wcs)"
      using snoc.prems by (intro qslots.table_length) (simp add: lens)
    have t: "length (print_d (int n)) \<le> 7" using snoc.prems lens by (intro length_qtext) simp
    obtain d where d: "c = Suc (length (recv_lens wcs) + d)"
      using snoc.prems(2) by (auto simp: lens Suc_le_eq dest: less_imp_Suc_add)
    have "memcpy_at ?q (8 * length (recv_lens wcs)) (print_d (int n) @ [NUL]) =
      Inr (concat (map qslot (recv_lens (wcs @ [wc]))) @ replicate (8 * d) NUL)"
      using len t d by (simp add: memcpy_at_def lens qslot_def replicate_add [symmetric] replicate_Suc [symmetric] Suc_diff_le
          del: replicate_Suc)
    then show ?thesis using ih True d by (simp add: for_each_append qbuf_put_recv lens n_def)
  qed
qed

text \<open>The receive request for one buffer.\<close>

definition recv_wr :: "rdma_mem \<Rightarrow> ibv_recv_wr" where
  "recv_wr m = \<lparr>rwr_id = 666, rwr_sg_list =
     [\<lparr>sge_addr = rm_buf m, sge_length = ucast (rm_size m), sge_lkey = mr_lkey (rm_mr m)\<rparr>]\<rparr>"

lemma rdma_post_recv_logged:
  "ctx_qp ctx = Some qp \<Longrightarrow> rdma_post_recv (logged_verbs V) ctx (recv_task m) (w, g) =
     (Inr (fst (ibv_post_recv V qp (recv_wr m) w)), (snd (ibv_post_recv V qp (recv_wr m) w), g @ [Posted_recv (recv_wr m)]))"
  by (simp add: rdma_post_recv_def recv_task_def recv_wr_def prog_simps watch_simps)

lemma post_recv_loop_posts:
  assumes "h_verbs H = logged_verbs V" and "s_ctx s = Some ctx" and "ctx_qp ctx = Some qp"
    and "recv_mem s = Some (map Some ms)" and "length ms = recv_nums s" and "0 < recv_nums s"
    and "\<And>wr w. fst (ibv_post_recv V qp wr w) = 0" and "i \<le> min 16000 (nat nums)"
  shows "\<exists>w'. post_recv_loop H s nums i (w, g) =
    (Inr (0, min 16000 (nat nums)),
     (w', g @ map (\<lambda>i. Posted_recv (recv_wr (ms ! (i mod recv_nums s)))) [i..<min 16000 (nat nums)]))"
  using assms(8)
proof (induction "min 16000 (nat nums) - i" arbitrary: i w g)
  case 0
  then show ?case using post_recv_loop.simps [of H s nums i] by (auto simp: prog_simps)
next
  case (Suc d)
  define m where "m = ms ! (i mod recv_nums s)"
  have lt: "i < 16000" "int i < nums" "i < min 16000 (nat nums)" using Suc.hyps(2) by auto
  have "i mod recv_nums s < length ms" using assms(5,6) by simp
  then have "post_recv_loop H s nums i (w, g) =
      post_recv_loop H s nums (i + 1) (snd (ibv_post_recv V qp (recv_wr m) w), g @ [Posted_recv (recv_wr m)])"
    using assms(1-7) lt post_recv_loop.simps [of H s nums i]
    by (simp add: elem_at_def rdma_post_recv_logged prog_simps m_def)
  moreover have "[i..<min 16000 (nat nums)] = i # [i + 1..<min 16000 (nat nums)]"
    using lt(3) by (simp add: upt_conv_Cons)
  ultimately show ?case
    using Suc.hyps(1) [of "i + 1" "snd (ibv_post_recv V qp (recv_wr m) w)" "g @ [Posted_recv (recv_wr m)]"]
      Suc.hyps(2) lt(3) by (simp add: m_def)
qed

section \<open>Freeing the receive buffer\<close>

lemma ghost_free_reg_mem_block:
  assumes "h_verbs H = lift_verbs V" and "h_sys H = lift_sys S"
  shows "ghost_free (reg_mem_block H s buf n)"
  using assms by (auto simp: reg_mem_block_def rdma_reg_mr_def split: option.split)

lemma ghost_free_reg_ring:
  assumes "h_verbs H = lift_verbs V" and "h_sys H = lift_sys S"
  shows "ghost_free (reg_ring H s base is mems)"
  using assms
  by (induction H s base "is" mems rule: reg_ring.induct) (auto simp: ghost_free_reg_mem_block intro!: ghost_free_bnd)

lemma ghost_free_dereg_lifted [simp]: "ghost_free (rdma_dereg_mr (lift_verbs V) (lift_sys S) m)"
  by (auto simp: rdma_dereg_mr_def intro!: ghost_free_bnd)

lemma ghost_free_dereg_all:
  assumes "h_verbs H = lift_verbs V" and "h_sys H = lift_sys S"
  shows "ghost_free (dereg_all H mems is)"
  using assms
  by (induction H mems "is" rule: dereg_all.induct) (auto simp: elem_at_def intro!: ghost_free_bnd)

lemma session_huge_inside:
  assumes "h_mem H = block_mem M" and "session_huge H s n (w, g) = (Inr (Some p, s'), (w', g'))"
    and "huge_fits n" and "n \<noteq> 0"
  shows "huge_inside p g'"
  using assms malloc_huge_pages_inside [of M "s_store s" n w g p] by (auto simp: session_huge_def run_iffs)

text \<open>Further allocations and the \<open>free\<close> of another block leave a block in the list.\<close>

lemma session_huge_keeps:
  assumes "h_mem H = block_mem M" and "session_huge H s n (w, g) = (Inr x, (w', g'))"
  shows "set g \<subseteq> set g'"
  using assms
  by (cases "mmap M (ALIGN_TO_PAGE_SIZE (n + HUGE_PAGE_SIZE)) w"; cases "fst (mmap M (ALIGN_TO_PAGE_SIZE (n + HUGE_PAGE_SIZE)) w)")
    (auto simp: session_huge_def malloc_huge_pages_def Let_def prog_simps block_mem_sel enlist_def defined_def
      split: option.splits prod.splits if_splits)

lemma free_buf_keeps:
  assumes "h_mem H = block_mem M" and "free_buf H (Some p) (w, g) = (Inr x, (w', g'))" and "huge_inside p g"
  shows "huge_inside p g'"
proof -
  have "p \<noteq> p - HUGE_PAGE_SIZE" by (simp add: HUGE_PAGE_SIZE_def)
  moreover have "g' = filter (\<lambda>(b, m, k). \<not> (b = p \<and> k)) g"
    using assms(1,2) by (simp add: free_buf_def prog_simps block_mem_sel split: if_splits)
  ultimately show ?thesis using assms(3) by (auto simp: huge_inside_def)
qed

lemma reg_send_buf_keeps:
  assumes "h_verbs H = lift_verbs V" and "h_sys H = lift_sys S" and "h_mem H = block_mem M"
    and "reg_send_buf H s (w, g) = (Inr s', (w', g'))"
  shows "set g \<subseteq> set g' \<and> rbuf s' = rbuf s"
proof -
  obtain q t w1 g1 where huge: "session_huge H s (of_nat (gap s)) (w, g) = (Inr (q, t), (w1, g1))"
    and rest: "(case q of None \<Rightarrow> ret (t\<lparr>sbuf := q\<rparr>) | Some base \<Rightarrow>
        bnd (reg_mem_block H (t\<lparr>sbuf := q\<rparr>) base (of_nat (gap t))) (\<lambda>m.
        if m = None then bnd (rdma_dereg_mr (h_verbs H) (h_sys H) m) (\<lambda>_. ret (t\<lparr>sbuf := q, send_mem := m\<rparr>))
        else ret (t\<lparr>sbuf := q, send_mem := m\<rparr>))) (w1, g1) = (Inr s', (w', g'))"
    using assms(4) by (auto simp: reg_send_buf_def Let_def bnd_Inr_iff cong: if_cong option.case_cong)
  have t: "rbuf t = rbuf s" using huge by (auto simp: session_huge_def run_iffs)
  have "g' = g1 \<and> rbuf s' = rbuf t"
  proof (cases q)
    case None
    then show ?thesis using rest by (auto simp: ret_Inr_iff)
  next
    case (Some base)
    obtain m w2 g2 where blk: "reg_mem_block H (t\<lparr>sbuf := q\<rparr>) base (of_nat (gap t)) (w1, g1) = (Inr m, (w2, g2))"
      and fin: "(if m = None then bnd (rdma_dereg_mr (h_verbs H) (h_sys H) m) (\<lambda>_. ret (t\<lparr>sbuf := q, send_mem := m\<rparr>))
        else ret (t\<lparr>sbuf := q, send_mem := m\<rparr>)) (w2, g2) = (Inr s', (w', g'))"
      using rest Some by (auto simp: bnd_Inr_iff)
    have "g2 = g1" by (rule ghost_freeD [OF ghost_free_reg_mem_block [OF assms(1,2)] blk])
    then show ?thesis using fin by (auto simp: run_iffs rdma_dereg_mr_def split: if_splits)
  qed
  then show ?thesis using session_huge_keeps [OF assms(3) huge] t by simp
qed

lemma reg_mem_inside:
  assumes "h_verbs H = lift_verbs V" and "h_sys H = lift_sys S" and "h_mem H = block_mem M"
    and "reg_mem H sz s0 (w0, g0) = (Inr s, (w1, g1))" and "recv_mem s \<noteq> None" and "rbuf s = Some p"
    and "sz * of_nat (recv_nums s0) \<noteq> 0" and "huge_fits (sz * of_nat (recv_nums s0))"
  shows "huge_inside p g1"
proof -
  obtain arr v where al: "sys_alloc (h_sys H) (w0, g0) = (arr, v)" by (metis prod.exhaust)
  define s1 where "s1 = s0\<lparr>recv_index := 0, recv_mem := map_option (\<lambda>_. []) arr\<rparr>"
  have arr: "arr \<noteq> None"
  proof
    assume "arr = None"
    then show False using assms(4,5) al by (auto simp: reg_mem_def Let_def prog_simps)
  qed
  have n: "recv_nums s1 = recv_nums s0" by (simp add: s1_def)
  obtain q t w2 g2 w3 g3 where huge: "session_huge H s1 (sz * of_nat (recv_nums s0)) (w2, g2) = (Inr (q, t), (w3, g3))"
    and rest: "(case q of None \<Rightarrow> ret (t\<lparr>rbuf := q\<rparr>) | Some base \<Rightarrow>
       bnd (reg_ring H (t\<lparr>rbuf := q\<rparr>) base [0..<recv_nums t] []) (\<lambda>(ok, mems).
       if \<not> ok then bnd (free_buf H q) (\<lambda>_. ret (t\<lparr>rbuf := q, recv_mem := Some mems\<rparr>))
       else reg_send_buf H (t\<lparr>rbuf := q, recv_mem := Some mems\<rparr>))) (w3, g3) = (Inr s, (w1, g1))"
    using assms(4) al arr
    by (auto simp: reg_mem_def Let_def bnd_Inr_iff call_Inr_iff n simp flip: s1_def cong: if_cong option.case_cong)
  obtain base where q: "q = Some base" using rest assms(6) by (cases q) (auto simp: ret_Inr_iff)
  have inside: "huge_inside base g3" using session_huge_inside [OF assms(3) huge [unfolded q] assms(8,7)] .
  obtain ok mems w4 g4 where ring: "reg_ring H (t\<lparr>rbuf := q\<rparr>) base [0..<recv_nums t] [] (w3, g3) = (Inr (ok, mems), (w4, g4))"
    and fin: "(if \<not> ok then bnd (free_buf H q) (\<lambda>_. ret (t\<lparr>rbuf := q, recv_mem := Some mems\<rparr>))
       else reg_send_buf H (t\<lparr>rbuf := q, recv_mem := Some mems\<rparr>)) (w4, g4) = (Inr s, (w1, g1))"
    using rest by (auto simp: q bnd_Inr_iff)
  have "g4 = g3" by (rule ghost_freeD [OF ghost_free_reg_ring [OF assms(1,2)] ring])
  then have inside: "huge_inside base g4" using inside by simp
  show ?thesis
  proof (cases ok)
    case True
    then have "reg_send_buf H (t\<lparr>rbuf := q, recv_mem := Some mems\<rparr>) (w4, g4) = (Inr s, (w1, g1))" using fin by simp
    from reg_send_buf_keeps [OF assms(1-3) this] have "set g4 \<subseteq> set g1" "p = base" using assms(6) q by auto
    then show ?thesis using inside by (auto simp: huge_inside_def)
  next
    case False
    then obtain x where fb: "free_buf H (Some base) (w4, g4) = (Inr x, (w1, g1))" and "s = t\<lparr>rbuf := q, recv_mem := Some mems\<rparr>"
      using fin q by (auto simp: bnd_Inr_iff ret_Inr_iff)
    then have "p = base" using assms(6) q by simp
    then show ?thesis using free_buf_keeps [OF assms(3) fb inside] by simp
  qed
qed

text \<open>\<open>close\<close> stops at a receive buffer that \<open>free\<close> does not accept.\<close>

lemma close_stops:
  assumes "h_verbs H = lift_verbs V" and "h_sys H = lift_sys S" and "rbuf s = Some p"
    and no: "\<And>v. \<not> is_block (h_mem H) p (v, g)" and "close H s (w, g) = (r, w')"
  shows "r = Inr (- 1) \<or> r = Inr 1 \<or> (\<exists>e. r = Inl e)"
proof (cases r)
  case (Inl e)
  then show ?thesis by blast
next
  case (Inr x)
  have stop: "free_buf H (rbuf s) (v, g) = (Inl Undefined_behaviour, (v, g))" for v
    using no by (simp add: assms(3) free_buf_def prog_simps)
  have frame: "ghost_free (case ms of None \<Rightarrow> ret True | Some ms \<Rightarrow> dereg_all H ms is)"
    "ghost_free (case m of None \<Rightarrow> ret 0 | Some m \<Rightarrow> rdma_dereg_mr (h_verbs H) (h_sys H) (Some m))" for ms "is" m
    using ghost_free_dereg_all [OF assms(1,2)] assms(1,2) by (auto split: option.split)
  have "x = - 1 \<or> x = 1"
    using assms(5) stop unfolding Inr close_def
    by (auto simp: bnd_Inr_iff ret_Inr_iff deref_Inr_iff split: if_splits dest!: ghost_freeD [OF frame(1)] ghost_freeD [OF frame(2)])
  then show ?thesis using Inr by blast
qed

section \<open>Properties\<close>

text \<open>
  C2. A bulk transfer that reports success has written the whole block to the peer: it has cut the
  \<open>sz\<close> bytes into slices that tile it, and has posted exactly one RDMA write per slice and nothing
  else, in order, slice \<open>k\<close> from its place in the block to the slot \<open>(rdma_index + k) mod slices\<close>
  of the peer's table; the index moves on by the number of slices.
\<close>
theorem bulk_writes_block:
  assumes "h_verbs H = logged_verbs V" and "h_sys H = lift_sys S" and "has_table s"
    and run: "bulk fuel pf H ptr sz s (w, g) = (Inr (0, s'), (w', g'))"
  shows "\<exists>ss. bulk_slices (rdma_gap s) sz 0 = Inr ss \<and> concat (map (\<lambda>(c, l). [c..<c + l]) ss) = [0..<sz]
    \<and> map posted_write g' = map posted_write g
        @ map (\<lambda>k. Some (IBV_WR_RDMA_WRITE, ptr + of_nat (fst (ss ! k)), ucast (of_nat (snd (ss ! k)) :: size_t),
                     raddrs s ! ((rdma_index s + k) mod slices s), rkeys s ! ((rdma_index s + k) mod slices s)))
              [0..<length ss]
    \<and> rdma_index s' = (rdma_index s + length ss) mod slices s"
proof -
  obtain arr ss ms w1 g1 w2 g2 where gap: "0 < rdma_gap s" and al: "sys_alloc (h_sys H) (w, g) = (arr, (w1, g1))"
    and ss: "bulk_slices (rdma_gap s) sz 0 = Inr ss" and reg: "bulk_reg H s ptr ss (w1, g1) = (Inr (Some ms), (w2, g2))"
    and send: "bulk_send fuel pf H (bulk_num (rdma_gap s) sz) arr ms s (w2, g2) = (Inr (0, s'), (w', g'))"
    using bulk_run [OF run] by (metis prod.exhaust)
  obtain s1 w3 g3 w4 g4 w5 g5 where post: "bulk_post H ms s (w2, g2) = (Inr (0, s1), (w3, g3))"
    and ack: "bulk_ack fuel pf H (int (bulk_num (rdma_gap s) sz)) 0 s1 (w3, g3) = (Inr (0, s'), (w4, g4))"
    and dereg: "bulk_dereg H ms (w4, g4) = (Inr 0, (w5, g5))" and fr: "free_array H arr (w5, g5) = (Inr (), (w', g'))"
    using bulk_send_run [OF send] by (metis prod.exhaust)
  have "g1 = g" using al assms(2) by (simp add: watch_simps)
  moreover have "g2 = g1" using ghost_freeD [OF ghost_free_bulk_reg [OF assms(1,2)] reg] .
  moreover have "g4 = g3" using ghost_freeD [OF ghost_free_bulk_ack ack] assms(1) by simp
  moreover have "g5 = g4" using ghost_freeD [OF ghost_free_bulk_dereg [OF assms(1,2)] dereg] .
  moreover have "g' = g5" using ghost_freeD [OF ghost_free_free_array [OF assms(2)] fr] .
  moreover note bulk_post_posts [OF assms(1,3) post]
  moreover have d: "map (\<lambda>m. (rm_buf m, rm_size m)) ms = map (\<lambda>(c, l). (ptr + of_nat c, of_nat l)) ss"
    by (rule bulk_reg_describes [OF reg])
  moreover have len: "length ms = length ss" using map_eq_imp_length_eq [OF d] .
  moreover have "(rm_buf (ms ! k), rm_size (ms ! k)) = (ptr + of_nat (fst (ss ! k)), of_nat (snd (ss ! k)))"
    if "k < length ss" for k
    using arg_cong [OF d, of "\<lambda>xs. xs ! k"] that len by (simp add: split_beta)
  moreover have "concat (map (\<lambda>(c, l). [c..<c + l]) ss) = [0..<sz]" using bulk_slices_ok [OF gap, of sz 0] ss by auto
  ultimately show ?thesis using ss bulk_ack_session [OF ack] by (simp add: write_of_def)
qed

definition sample_session :: rdma_session where
  "sample_session = \<lparr>s_maxCQE = 16, recv_index = 0, recv_nums = 2, posted_recv = 0, gap = 8, s_ctx = Some linked_ctx,
     recv_mem = Some [Some (task_mem write_task), Some (task_mem write_task)], send_mem = None, rw_mem = None,
     s_wc = [], s_send_wc = [], rkeys = [11, 12], raddrs = [8192, 16384], rbuf = Some 4096, sbuf = None,
     qbuf = Some [], rwbuf = None, rwbuf_size = 0, rdma_index = 1, slices = 2, rdma_gap = 4, rbuf_size = 16,
     qbuf_size = 32, sbuf_size = 8, s_flag = 1, s_store = (\<lambda>_. None), qbuf_ptr = None, rkeys_ptr = None,
     raddrs_ptr = None\<rparr>"

text \<open>A host around given verbs and system calls.\<close>

definition simple_host :: "'w verbs \<Rightarrow> 'w sys \<Rightarrow> 'w host" where
  "simple_host V S = \<lparr>h_verbs = V, h_sys = S,
     h_mem = \<lparr>mmap = (\<lambda>_ w. (None, w)), munmap = (\<lambda>_ _ w. (0, w)), malloc = (\<lambda>_ w. (None, w)), free = (\<lambda>_ w. ((), w)),
       is_block = (\<lambda>_ _. False)\<rparr>,
     mem_load = (\<lambda>_ n w. (replicate n NUL, w)), mem_store = (\<lambda>_ _ w. ((), w)), h_junk = (\<lambda>_. NUL)\<rparr>"

definition two_acks :: "nat verbs" where
  "two_acks = sample_verbs\<lparr>ibv_poll_cq := (\<lambda>cq m w. (Completions [sample_wc, sample_wc], w))\<rparr>"

lemma sample_has_table: "has_table sample_session"
  by (auto simp: has_table_def sample_session_def less_2_cases_iff)

lemma sample_slices: "bulk_slices 4 6 0 = Inr [(0, 4), (4, 2)]"
  by (simp add: bulk_slices.simps Let_def)

lemma sample_bulk_run:
  "\<exists>s' w' g'. bulk (Suc (Suc 0)) (Suc 0)
      (simple_host (logged_verbs two_acks) (lift_sys sample_sys)) 1000 6 sample_session (0, [])
    = (Inr (0, s'), (w', g'))"
proof -
  define H where "H = simple_host (logged_verbs two_acks) (lift_sys sample_sys)"
  have h: "h_verbs H = logged_verbs two_acks" "h_sys H = lift_sys sample_sys" by (simp_all add: H_def simple_host_def)
  have s: "rdma_gap sample_session = 4" "s_ctx sample_session = Some linked_ctx" "rdma_index sample_session = 1"
    "slices sample_session = 2" "raddrs sample_session = [8192, 16384]" "rkeys sample_session = [11, 12]"
    by (simp_all add: sample_session_def)
  have c: "ctx_pd linked_ctx = Some 3" "ctx_qp linked_ctx = Some \<lparr>qp_handle = 6, qp_num = 21\<rparr>" "ctx_send_cq linked_ctx = Some 5"
    by (simp_all add: linked_ctx_def sample_ctx_def)
  have n: "bulk_num 4 6 = 2" by (simp add: bulk_num_def)
  obtain m1 m2 where reg: "bulk_reg H sample_session 1000 [(0, 4), (4, 2)] (1, []) = (Inr (Some [m1, m2]), (5, []))"
    by (simp add: reg_mem_block_def rdma_reg_mr_def h s c prog_simps watch_simps sample_verbs_def two_acks_def sample_sys_def)
  have "\<exists>s' w' g'. bulk_send (Suc (Suc 0)) (Suc 0) H 2 (Some 0) [m1, m2] sample_session (5, []) = (Inr (0, s'), (w', g'))"
    by (simp add: bulk_send_def rdma_dereg_mr_def rdma_def elem_at_def send_task_def rdma_post_send_def send_wr_def
        send_query_def rdma_query_cq_def wait_event_def free_array_def two_acks_def sample_verbs_def sample_sys_def
        sample_wc_def Let_def prog_simps watch_simps h s c)
  moreover have "sys_alloc (h_sys H) (0, []) = (Some 0, (1, []))" by (simp add: h watch_simps sample_sys_def)
  ultimately show ?thesis
    unfolding H_def [symmetric] bulk_def
    by (simp add: s n sample_slices prog_simps reg [unfolded One_nat_def] Let_def del: bulk_reg.simps)
qed
lemma bulk_writes_block_witness:
  "\<exists>s' w' g'. bulk 2 1 (simple_host (logged_verbs two_acks) (lift_sys sample_sys)) 1000 6 sample_session (0, [])
      = (Inr (0, s'), (w', g'))
    \<and> map posted_write g' =
      [Some (IBV_WR_RDMA_WRITE, 1000, 4, 16384, 12), Some (IBV_WR_RDMA_WRITE, 1004, 2, 8192, 11)] \<and> rdma_index s' = 1"
proof -
  define H where "H = simple_host (logged_verbs two_acks) (lift_sys sample_sys)"
  obtain s' w' g' where run: "bulk 2 1 H 1000 6 sample_session (0, []) = (Inr (0, s'), (w', g'))"
    using sample_bulk_run by (auto simp: H_def numeral_2_eq_2)
  have "bulk_slices (rdma_gap sample_session) 6 0 = Inr [(0, 4), (4, 2)]"
    by (simp add: sample_session_def sample_slices)
  moreover have "h_verbs H = logged_verbs two_acks" "h_sys H = lift_sys sample_sys"
    by (simp_all add: H_def simple_host_def)
  ultimately show ?thesis
    using bulk_writes_block [OF _ _ sample_has_table run] run
    by (simp add: sample_session_def flip: H_def)
qed

text \<open>
  C25. A bulk transfer that reports success gives back all memory it registered and allocated: the
  objects held at the end are those held at the start, and every release named an open object.
\<close>
theorem bulk_releases_memory:
  assumes "h_verbs H = tracked_verbs V" and "h_sys H = tracked_sys S"
    and run: "bulk fuel pf H ptr sz s (w, l) = (Inr (0, s'), (w', l'))"
  shows "held l' = held l \<and> sound l' = sound l"
proof -
  obtain arr ss ms w1 l1 w2 l2 where al: "sys_alloc (h_sys H) (w, l) = (arr, (w1, l1))"
    and reg: "bulk_reg H s ptr ss (w1, l1) = (Inr (Some ms), (w2, l2))"
    and send: "bulk_send fuel pf H (bulk_num (rdma_gap s) sz) arr ms s (w2, l2) = (Inr (0, s'), (w', l'))"
    using bulk_run [OF run] by (metis prod.exhaust)
  obtain s1 w3 l3 w4 l4 w5 l5 where post: "bulk_post H ms s (w2, l2) = (Inr (0, s1), (w3, l3))"
    and ack: "bulk_ack fuel pf H (int (bulk_num (rdma_gap s) sz)) 0 s1 (w3, l3) = (Inr (0, s'), (w4, l4))"
    and dereg: "bulk_dereg H ms (w4, l4) = (Inr 0, (w5, l5))" and fr: "free_array H arr (w5, l5) = (Inr (), (w', l'))"
    using bulk_send_run [OF send] by (metis prod.exhaust)
  define X where "X = held l + (case arr of None \<Rightarrow> {#} | Some a \<Rightarrow> {#R_mem a#})"
  have "held l1 = X \<and> sound l1 = sound l" using al assms(2) by (auto simp: X_def watch_simps split: option.split)
  moreover note bulk_reg_holds [OF assms(1,2) reg]
  moreover have "l3 = l2" using ghost_freeD [OF ghost_free_bulk_post_tracked [OF assms(1)] post] .
  moreover have "l4 = l3" using ghost_freeD [OF ghost_free_bulk_ack ack] assms(1) by simp
  ultimately have "held l5 = X \<and> sound l5 = sound l" using bulk_dereg_releases [OF assms(1,2) dereg, of X] by simp
  then show ?thesis using fr assms(2) by (cases arr) (auto simp: X_def free_array_def run_iffs watch_simps)
qed

lemma bulk_releases_memory_witness:
  "\<exists>s' w' l'. bulk (Suc (Suc 0)) (Suc 0) (simple_host (tracked_verbs two_acks) (tracked_sys sample_sys)) 1000 6
      sample_session (0, ledger_empty) = (Inr (0, s'), (w', l')) \<and> held l' = {#} \<and> sound l'"
proof -
  define H where "H = simple_host (tracked_verbs two_acks) (tracked_sys sample_sys)"
  have h: "h_verbs H = tracked_verbs two_acks" "h_sys H = tracked_sys sample_sys" by (simp_all add: H_def simple_host_def)
  have s: "rdma_gap sample_session = 4" "s_ctx sample_session = Some linked_ctx" "rdma_index sample_session = 1"
    "slices sample_session = 2" "raddrs sample_session = [8192, 16384]" "rkeys sample_session = [11, 12]"
    by (simp_all add: sample_session_def)
  have c: "ctx_pd linked_ctx = Some 3" "ctx_qp linked_ctx = Some \<lparr>qp_handle = 6, qp_num = 21\<rparr>" "ctx_send_cq linked_ctx = Some 5"
    by (simp_all add: linked_ctx_def sample_ctx_def)
  have n: "bulk_num 4 6 = 2" by (simp add: bulk_num_def)
  have al: "\<exists>l1. sys_alloc (h_sys H) (0, ledger_empty) = (Some 0, (1, l1))" by (simp add: h watch_simps sample_sys_def)
  have reg: "\<exists>m1 m2 l2. bulk_reg H sample_session 1000 [(0, 4), (4, 2)] (1, l1) = (Inr (Some [m1, m2]), (5, l2))" for l1
    by (simp add: reg_mem_block_def rdma_reg_mr_def h s c prog_simps watch_simps sample_verbs_def two_acks_def sample_sys_def)
  have send: "\<exists>s' w' l'. bulk_send (Suc (Suc 0)) (Suc 0) H 2 (Some 0) [m1, m2] sample_session (5, l2) = (Inr (0, s'), (w', l'))"
    for m1 m2 l2
    by (simp add: bulk_send_def rdma_dereg_mr_def rdma_def elem_at_def send_task_def rdma_post_send_def send_wr_def
        send_query_def rdma_query_cq_def wait_event_def free_array_def two_acks_def sample_verbs_def sample_sys_def
        sample_wc_def Let_def prog_simps watch_simps h s c)
  obtain l1 m1 m2 l2 where al1: "sys_alloc (h_sys H) (0, ledger_empty) = (Some 0, (1, l1))"
    and reg1: "bulk_reg H sample_session 1000 [(0, 4), (4, 2)] (1, l1) = (Inr (Some [m1, m2]), (5, l2))"
    using al reg by blast
  obtain s' w' l' where "bulk_send (Suc (Suc 0)) (Suc 0) H 2 (Some 0) [m1, m2] sample_session (5, l2) = (Inr (0, s'), (w', l'))"
    using send by blast
  then have run: "bulk (Suc (Suc 0)) (Suc 0) H 1000 6 sample_session (0, ledger_empty) = (Inr (0, s'), (w', l'))"
    by (simp add: bulk_def s n sample_slices prog_simps al1 reg1 [unfolded One_nat_def] Let_def del: bulk_reg.simps)
  then show ?thesis
    using bulk_releases_memory [OF h run] by (simp add: ledger_empty_def flip: H_def)
qed

text \<open>
  C28. \<open>post_recv\<close> hands the receive buffers to the adapter round robin: when every post is
  accepted, it posts exactly \<open>min 16000 nums\<close> receives, the \<open>i\<close>-th for buffer \<open>i mod recv_nums\<close>
  at its full size and with the id 666, and counts them.
\<close>
theorem post_recv_round_robin:
  assumes "h_verbs H = logged_verbs V" and "s_ctx s = Some ctx" and "ctx_qp ctx = Some qp"
    and "recv_mem s = Some (map Some ms)" and "length ms = recv_nums s" and "0 < recv_nums s"
    and "\<And>wr w. fst (ibv_post_recv V qp wr w) = 0"
  shows "\<exists>w'. post_recv H nums s (w, g) =
    (Inr (0, s\<lparr>posted_recv := posted_recv s + int (min 16000 (nat nums))\<rparr>),
     (w', g @ map (\<lambda>i. Posted_recv (recv_wr (ms ! (i mod recv_nums s)))) [0..<min 16000 (nat nums)]))"
  using post_recv_loop_posts [OF assms, of 0 nums w g]
  by (auto simp: post_recv_def prog_simps simp del: upt_Suc)

lemma post_recv_round_robin_witness:
  "\<exists>w'. post_recv (simple_host (logged_verbs sample_verbs) (lift_sys sample_sys)) 3 sample_session (0, []) =
    (Inr (0, sample_session\<lparr>posted_recv := 3\<rparr>), (w', replicate 3 (Posted_recv \<lparr>rwr_id = 666,
      rwr_sg_list = [\<lparr>sge_addr = 4096, sge_length = 65536, sge_lkey = 11\<rparr>]\<rparr>)))"
proof -
  have "recv_mem sample_session = Some (map Some [task_mem write_task, task_mem write_task])"
    "s_ctx sample_session = Some linked_ctx" "recv_nums sample_session = 2" "posted_recv sample_session = 0"
    by (simp_all add: sample_session_def)
  moreover have "ctx_qp linked_ctx = Some \<lparr>qp_handle = 6, qp_num = 21\<rparr>" by (simp add: linked_ctx_def sample_ctx_def)
  moreover have "[task_mem write_task, task_mem write_task] ! (i mod 2) = task_mem write_task" for i :: nat
    using mod_less_divisor [of 2 i] by (auto simp: less_2_cases_iff simp del: mod_less_divisor)
  moreover have "recv_wr (task_mem write_task) = \<lparr>rwr_id = 666, rwr_sg_list = [\<lparr>sge_addr = 4096, sge_length = 65536, sge_lkey = 11\<rparr>]\<rparr>"
    by (simp add: recv_wr_def write_task_def)
  moreover have "[0..<3::nat] = [0, 1, 2]" by (simp add: upt_conv_Cons)
  ultimately show ?thesis
    using post_recv_round_robin [of "simple_host (logged_verbs sample_verbs) (lift_sys sample_sys)" sample_verbs
      sample_session linked_ctx "\<lparr>qp_handle = 6, qp_num = 21\<rparr>" "[task_mem write_task, task_mem write_task]" 3 0 "[]"]
    by (simp add: simple_host_def sample_verbs_def numeral_3_eq_3)
qed

text \<open>
  C39. \<open>read\<close> never delivers anything: \<open>query\<close> asks \<open>rdma_query_cq\<close> with the flag 3, which it does not
  know, so \<open>read\<close> returns 0 and leaves the session and the destination as they were, whatever has
  arrived. (A caller that loops until it has its bytes never ends.)
\<close>
theorem read_delivers_nothing:
  assumes "s_ctx s = Some ctx" and "recv_mem s = Some (map Some ms)" and "rbuf s = Some base"
    and "recv_index s < length ms" and "length ms = recv_nums s"
  shows "\<exists>w'. read fuel H room s w = (Inr ((0, room), s), w')"
proof -
  have q: "query fuel H (s_maxCQE s) s w = (Inr (- 1, s), w)"
    using assms(1) by (simp add: query_def prog_simps rdma_query_cq_bad_flag store_wcs_def)
  have "takeWhile (\<lambda>e. e \<noteq> None) (map Some ms) = map Some ms" by (rule takeWhile_eq_all_conv [THEN iffD2]) auto
  then have "buf_offsets base (map Some ms) = map (\<lambda>m. unat (rm_buf m - base)) ms"
    unfolding buf_offsets_def by (simp only: list.map_comp comp_def option.sel)
  then have st: "start_of (buf_offsets base (map Some ms)) (recv_index s) = Inr (unat (rm_buf (ms ! recv_index s) - base))"
    using assms(4) by (simp add: start_of_def)
  show ?thesis
    using assms by (simp add: read_def q prog_simps elem_at_def read_completions_def st read_tail_def)
qed

lemma read_delivers_nothing_witness:
  "\<exists>w'. read 5 (simple_host two_acks sample_sys) ''xyz'' sample_session 0 = (Inr ((0, ''xyz''), sample_session), w')"
  using read_delivers_nothing [of sample_session linked_ctx "[task_mem write_task, task_mem write_task]" 4096 5
      "simple_host two_acks sample_sys" "''xyz''" 0]
  by (simp add: sample_session_def)

text \<open>
  C29. \<open>query_sr\<close> reports the received messages faithfully: when the query returns at most
  1024 completions and every message is shorter than ten million bytes, the result is the
  number of receives among them, and slot \<open>k\<close> of \<open>qbuf\<close> (eight bytes) holds the decimal length of
  the \<open>k\<close>-th one, NUL-terminated.
\<close>
theorem query_sr_reports:
  assumes "s_ctx s = Some ctx" and "qbuf s \<noteq> None" and "qbuf_size s = 8 * 1024"
    and "rdma_query_cq fuel (h_verbs H) ctx (s_maxCQE s) 2 w = (Inr (int (length wcs), wcs), w')"
    and "length wcs \<le> 1024" and "\<forall>n \<in> set (recv_lens wcs). n < 10 ^ 7"
  shows "\<exists>q s'. query_sr fuel H s w = (Inr (int (length (recv_lens wcs)), s'), w') \<and> qbuf s' = Some q
    \<and> (\<forall>k < length (recv_lens wcs). c_string (take 8 (drop (8 * k) q)) = digits 10 (recv_lens wcs ! k)
         \<and> NUL \<in> set (take 8 (drop (8 * k) q)))"
proof -
  have "length (recv_lens wcs) \<le> 1024" using assms(5) by (auto simp: recv_lens_def intro: le_trans [OF length_filter_le])
  note put = qbuf_put_prefix [OF assms(6) this]
  define t where "t = replicate (8 * (1024 - length (recv_lens wcs))) NUL"
  have "c_string (take 8 (drop (8 * k) (concat (map qslot (recv_lens wcs)) @ t))) = digits 10 (recv_lens wcs ! k)
      \<and> NUL \<in> set (take 8 (drop (8 * k) (concat (map qslot (recv_lens wcs)) @ t)))" if "k < length (recv_lens wcs)" for k
    unfolding qslots.table_slice [OF assms(6) that] using that assms(6) by (simp add: qslot_text)
  then show ?thesis
    using assms(1-4) put by (auto simp: query_sr_def prog_simps t_def simp del: take_append drop_append)
qed

lemma query_sr_reports_witness:
  "\<exists>q s'. query_sr 5 (simple_host two_acks sample_sys) (sample_session\<lparr>qbuf_size := 8 * 1024\<rparr>) 0 = (Inr (2, s'), 0)
    \<and> qbuf s' = Some q \<and> c_string (take 8 (drop 8 q)) = ''100''"
proof -
  define s where "s = sample_session\<lparr>qbuf_size := 8 * 1024\<rparr>"
  have run: "rdma_query_cq 5 (h_verbs (simple_host two_acks sample_sys)) linked_ctx (s_maxCQE s) 2 0
      = (Inr (int (length [sample_wc, sample_wc]), [sample_wc, sample_wc]), 0)"
    by (simp add: rdma_query_cq_def simple_host_def two_acks_def linked_ctx_def sample_ctx_def sample_wc_def wait_event_def
        prog_simps numeral_eq_Suc)
  have l: "recv_lens [sample_wc, sample_wc] = [100, 100]" by (simp add: recv_lens_def sample_wc_def)
  have d: "digits 10 100 = ''100''" by code_simp
  have "s_ctx s = Some linked_ctx" "qbuf s \<noteq> None" "qbuf_size s = 8 * 1024"
    by (simp_all add: s_def sample_session_def)
  from query_sr_reports [OF this run] obtain q s' where "query_sr 5 (simple_host two_acks sample_sys) s 0 = (Inr (2, s'), 0)"
    "qbuf s' = Some q" and k: "\<forall>k < 2. c_string (take 8 (drop (8 * k) q)) = digits 10 ([100, 100] ! k)
       \<and> NUL \<in> set (take 8 (drop (8 * k) q))"
    unfolding l by (auto simp: numeral_2_eq_2)
  moreover have "c_string (take 8 (drop 8 q)) = ''100''" using spec [OF k, of 1] by (simp add: d)
  ultimately show ?thesis unfolding s_def by blast
qed

text \<open>
  C40. \<open>close\<close> cannot succeed on a session whose receive buffer \<open>reg_mem\<close> has allocated: it passes the
  pointer from \<open>malloc_huge_pages\<close>, which lies one huge page behind the start of a mapping or of a
  \<open>malloc\<close> block, to \<open>free\<close>. As long as that block is live and no live block starts inside another,
  no later call of \<open>close\<close>, in any environment and whatever else has changed in the session, gets
  past this \<open>free\<close>: it faults, or has returned \<open>-1\<close> or 1 for a failed deregistration before, and
  never closes the context.
\<close>
theorem close_frees_huge_pages_wrongly:
  assumes "h_verbs H = lift_verbs V" and "h_sys H = lift_sys S" and "h_mem H = block_mem M"
    and "reg_mem H sz s0 (w0, g0) = (Inr s, (w1, g1))" and "recv_mem s \<noteq> None" and "rbuf s = Some p"
    and "sz * of_nat (recv_nums s0) \<noteq> 0" and "huge_fits (sz * of_nat (recv_nums s0))"
    and "rbuf s' = rbuf s" and "set g1 \<subseteq> set g" and "separate g"
    and "close H s' (w, g) = (r, w')"
  shows "r = Inr (- 1) \<or> r = Inr 1 \<or> (\<exists>e. r = Inl e)"
proof -
  have "huge_inside p g1" by (rule reg_mem_inside [OF assms(1-8)])
  then have "huge_inside p g" using assms(10) by (auto simp: huge_inside_def)
  then have no: "\<not> is_block (h_mem H) p (v, g)" for v
    unfolding assms(3) using assms(11) by (rule huge_inside_no_block)
  show ?thesis
    using close_stops [OF assms(1,2) _ no assms(12)] assms(6,9) by auto
qed

text \<open>A memory system whose mappings start \<open>2 ^ 32\<close> apart, and a host on it.\<close>

definition paged_mem :: "nat mem_sys" where
  "paged_mem = \<lparr>mmap = (\<lambda>_ w. (Some (of_nat w * 0x100000000), w + 1)), munmap = (\<lambda>_ _ w. (0, w)),
     malloc = (\<lambda>_ w. (None, w)), free = (\<lambda>_ w. ((), w)), is_block = (\<lambda>_ _. False)\<rparr>"

definition paged_host :: "(nat \<times> live) host" where
  "paged_host = (simple_host (lift_verbs sample_verbs) (lift_sys sample_sys))\<lparr>h_mem := block_mem paged_mem\<rparr>"

lemma paged_host_sel [simp]:
  "h_verbs paged_host = lift_verbs sample_verbs" "h_sys paged_host = lift_sys sample_sys"
  "h_mem paged_host = block_mem paged_mem"
  by (simp_all add: paged_host_def simple_host_def)

lemma paged_reg_mem_run:
  "\<exists>s w. reg_mem paged_host 8 sample_session (0, []) =
      (Inr s, (w, [(of_nat 6 * 0x100000000, 0x400000, False), (0x100000000, 0x400000, False)]))
    \<and> recv_mem s \<noteq> None \<and> rbuf s = Some (0x100000000 + HUGE_PAGE_SIZE)"
proof -
  have s: "recv_nums sample_session = 2" "gap sample_session = 8" "s_ctx sample_session = Some linked_ctx"
    by (simp_all add: sample_session_def)
  have c: "ctx_pd linked_ctx = Some 3" by (simp add: linked_ctx_def sample_ctx_def)
  have n: "ALIGN_TO_PAGE_SIZE (8 + HUGE_PAGE_SIZE) = 0x400000" "ALIGN_TO_PAGE_SIZE (16 + HUGE_PAGE_SIZE) = 0x400000"
    by (simp_all add: ALIGN_TO_PAGE_SIZE_def HUGE_PAGE_SIZE_def)
  have two: "[0..<2::nat] = [0, 1]" by (simp add: upt_conv_Cons)
  show ?thesis
    by (simp add: reg_mem_def reg_send_buf_def session_huge_def malloc_huge_pages_def reg_mem_block_def rdma_reg_mr_def
        Let_def prog_simps watch_simps block_mem_sel enlist_def paged_mem_def sample_verbs_def sample_sys_def s c n two)
qed

lemma close_frees_huge_pages_wrongly_witness:
  "\<exists>s w g. reg_mem paged_host 8 sample_session (0, []) = (Inr s, (w, g)) \<and> separate g
    \<and> fst (close paged_host s (w, g)) \<noteq> Inr 0"
proof -
  obtain s w where run: "reg_mem paged_host 8 sample_session (0, []) =
      (Inr s, (w, [(of_nat 6 * 0x100000000, 0x400000, False), (0x100000000, 0x400000, False)]))" (is "_ = (_, (_, ?g))")
    and arr: "recv_mem s \<noteq> None" and p: "rbuf s = Some (0x100000000 + HUGE_PAGE_SIZE)"
    using paged_reg_mem_run by blast
  have sep: "separate ?g" by (simp add: separate_def)
  have size: "8 * of_nat (recv_nums sample_session) \<noteq> (0 :: size_t)" "huge_fits (8 * of_nat (recv_nums sample_session))"
    by (simp_all add: sample_session_def huge_fits_def)
  obtain r v where c: "close paged_host s (w, ?g) = (r, v)" by (metis prod.exhaust)
  have "r = Inr (- 1) \<or> r = Inr 1 \<or> (\<exists>e. r = Inl e)"
    by (rule close_frees_huge_pages_wrongly [OF _ _ _ run arr p size refl order.refl sep c]) simp_all
  then show ?thesis using run sep c by auto
qed

end
