(* ===== verification/Patterns.thy ===== *)
theory Patterns
  imports Prelude
begin

text \<open>
  The test data of the benchmark drivers in \<open>debug/\<close>: a block is filled with runs of one letter, the
  letters going round the alphabet, and a receiver checks the runs. \<open>xx.cpp\<close> uses runs of four
  capital letters, \<open>cpyread.cpp\<close> and \<open>regread.cpp\<close> runs of 128 small ones. The locale \<open>run_filler\<close> is what the
  loops share.
\<close>

section \<open>Runs of letters\<close>

text \<open>The letter of run \<open>j\<close>, and the first \<open>k\<close> runs.\<close>

definition letter :: "nat \<Rightarrow> nat \<Rightarrow> char" where
  "letter first j = char_of (first + j mod 26)"

definition runs :: "nat \<Rightarrow> nat \<Rightarrow> nat \<Rightarrow> nat \<Rightarrow> bytes" where
  "runs width first j k = concat (map (\<lambda>i. replicate width (letter first i)) [j..<j + k])"

lemma length_runs [simp]: "length (runs width first j k) = width * k"
  by (simp add: runs_def length_concat sum_list_triv o_def mult.commute)

lemma runs_0 [simp]: "runs width first j 0 = []"
  by (simp add: runs_def)

lemma runs_Suc: "runs width first j (Suc k) = replicate width (letter first j) @ runs width first (Suc j) k"
proof -
  have "[j..<j + Suc k] = j # [Suc j..<Suc j + k]" by (simp add: upt_conv_Cons)
  then show ?thesis by (simp add: runs_def)
qed

lemma runs_nth:
  assumes "i < width * k"
  shows "runs width first 0 k ! i = letter first (i div width)"
proof -
  have gen: "i < width * k \<Longrightarrow> runs width first j k ! i = letter first (j + i div width)" for i j
  proof (induction k arbitrary: i j)
    case 0
    then show ?case by simp
  next
    case (Suc k)
    have w: "0 < width" using Suc.prems by (cases width) auto
    show ?case
    proof (cases "i < width")
      case True
      then show ?thesis by (simp add: runs_Suc nth_append)
    next
      case False
      then have "(i - width) div width = i div width - 1" and "0 < i div width"
        using w by (simp_all add: le_div_geq div_greater_zero_iff)
      moreover have "i - width < width * k" using Suc.prems False by simp
      ultimately show ?thesis using False Suc.IH [of "i - width" "Suc j"] by (simp add: runs_Suc nth_append)
    qed
  qed
  show ?thesis using gen [OF assms, of 0] by simp
qed

section \<open>Loops that fill a block\<close>

text \<open>
  The contract: while the index is below the size, write a run, move on by its width and go to the next
  letter.
\<close>

locale run_filler =
  fixes fill :: "nat \<Rightarrow> nat \<Rightarrow> char \<Rightarrow> bytes \<Rightarrow> fault + bytes"
    and width :: nat
    and first :: nat
    and next_letter :: "char \<Rightarrow> char"
  assumes width: "0 < width"
    and step: "fill n i ch mem =
      (if i < n then sbnd (memcpy_at mem i (replicate width ch)) (fill n (i + width) (next_letter ch)) else Inr mem)"
    and letters: "next_letter (letter first j) = letter first (Suc j)"
begin

lemma fill_from:
  assumes "length mem = i + width * k"
  shows "fill (i + width * k) i (letter first j) mem = Inr (take i mem @ runs width first j k)"
  using assms
proof (induction k arbitrary: i j mem)
  case 0
  then show ?case by (subst step) simp
next
  case (Suc k)
  define mem' where "mem' = take i mem @ replicate width (letter first j) @ drop (i + width) mem"
  have "memcpy_at mem i (replicate width (letter first j)) = Inr mem'"
    using Suc.prems by (simp add: memcpy_at_def mem'_def)
  then have "fill (i + width * Suc k) i (letter first j) mem
      = fill ((i + width) + width * k) (i + width) (letter first (Suc j)) mem'"
    using width by (subst step) (simp add: letters add.assoc)
  also have "\<dots> = Inr (take (i + width) mem' @ runs width first (Suc j) k)"
    using Suc.prems by (intro Suc.IH) (simp add: mem'_def)
  finally show ?case using Suc.prems by (simp add: mem'_def runs_Suc)
qed

text \<open>A block whose size is a multiple of the width is filled exactly.\<close>

lemma fill_block:
  assumes "length mem = n" and "width dvd n"
  shows "fill n 0 (letter first 0) mem = Inr (runs width first 0 (n div width))"
  using fill_from [of mem 0 "n div width" 0] assms by simp

text \<open>Any other block is overrun.\<close>

lemma fill_overruns:
  assumes "length mem = n" and "\<not> width dvd n"
  shows "fill n 0 (letter first 0) mem = Inl Undefined_behaviour"
proof -
  have "fill n i (letter first j) mem = Inl Undefined_behaviour" if "width dvd i" "i < n" "length mem = n" for i j mem
    using that
  proof (induction "n - i" arbitrary: i j mem rule: less_induct)
    case less
    show ?case
    proof (cases "i + width \<le> n")
      case False
      then show ?thesis using less.prems by (subst step) (simp add: memcpy_at_def)
    next
      case True
      then obtain mem' where c: "memcpy_at mem i (replicate width (letter first j)) = Inr mem'" "length mem' = n"
        using less.prems(3) by (auto simp: memcpy_at_def)
      have "i + width \<noteq> n" using less.prems(1) assms(2) by auto
      then have "fill n (i + width) (letter first (Suc j)) mem' = Inl Undefined_behaviour"
        using True less.prems width c(2) by (intro less.hyps) auto
      then show ?thesis using less.prems c by (subst step) (simp add: letters)
    qed
  qed
  from this [of 0 mem 0] show ?thesis using assms by (cases n) auto
qed

end

end
