(* ===== verification/BenchDriver.thy ===== *)
theory BenchDriver
  imports RdmaSession Patterns
begin

text \<open>
  \<open>debug/xx.cpp\<close>: the client fills a block with a pattern and sends it in messages of one size, waiting for
  each to complete; the server collects the block and checks the pattern.

  The block \<open>ts\<close> is private memory and is kept as its bytes; a null pointer is an empty block, of which
  no byte may be touched. Timing is reduced to whether \<open>gettimeofday\<close> fails, and output is left out.
  \<open>rs->device\<close> is called through a pointer that has no value yet; the method does not look at the object,
  and the model calls the method. The message with the peer's name reads through \<open>ctx\<close>. A function that runs off its end has the result \<open>None\<close>.
\<close>

section \<open>Environment\<close>

text \<open>
  \<open>d_malloc\<close> says whether an allocation succeeds, \<open>d_fresh\<close> is the contents of new memory. \<open>d_order\<close>, \<open>d_junk\<close>
  and \<open>d_storage\<close> are what setting up a session needs beside the host (theory RdmaSession).
\<close>

record 'w driver =
  d_host :: "'w host"
  d_clock :: "'w \<Rightarrow> int \<times> 'w"
  d_srand48 :: "'w \<Rightarrow> unit \<times> 'w"
  d_malloc :: "size_t \<Rightarrow> 'w \<Rightarrow> bool \<times> 'w"
  d_fresh :: "nat \<Rightarrow> char"
  d_order :: endian
  d_junk :: stack_junk
  d_storage :: rdma_session

definition new_block :: "'w driver \<Rightarrow> size_t \<Rightarrow> ('w, bytes) prog" where
  "new_block D n = bnd (call (d_malloc D n)) (\<lambda>ok. ret (if ok then map (d_fresh D) [0..<unat n] else []))"

text \<open>A product of two \<open>int\<close>, and its conversion to \<open>size_t\<close>.\<close>

definition int_product :: "int \<Rightarrow> int \<Rightarrow> ('w, size_t) prog" where
  "int_product a b = bnd (defined (- (2 ^ 31) \<le> a * b \<and> a * b < 2 ^ 31)) (\<lambda>_. ret (of_int (a * b)))"

section \<open>The client\<close>

definition next_AZ :: "char \<Rightarrow> char" where
  "next_AZ ch = (let n = (of_char ch + 1 :: nat) in if n = of_char (CHR ''Z'') + 1 then CHR ''A'' else char_of n)"

function fill_ts :: "nat \<Rightarrow> nat \<Rightarrow> char \<Rightarrow> bytes \<Rightarrow> fault + bytes" where
  "fill_ts n i ch ts =
     (if i < n then sbnd (memcpy_at ts i (replicate 4 ch)) (fill_ts n (i + 4) (next_AZ ch)) else Inr ts)"
  by pat_completeness auto
termination by (relation "measure (\<lambda>(n, i, ch, ts). n - i)") auto

declare fill_ts.simps [simp del]

definition client_params :: "int \<Rightarrow> int \<Rightarrow> string \<Rightarrow> init_params" where
  "client_params sz iter dev = params_zero\<lparr>p_gidx := 0, p_ib_devname := Some dev, p_sr := 1,
     p_rx_depth := iter, p_mem_size := of_int sz\<rparr>"

text \<open>
  \<open>memcpy(dest, ts+cur, size)\<close> into the send buffer: the copy has to stay inside the block that is
  registered for sending. The code does not test this; a session registers 32K, whatever the size.
\<close>

definition load_slice :: "'w host \<Rightarrow> rdma_mem \<Rightarrow> bytes \<Rightarrow> size_t \<Rightarrow> int \<Rightarrow> ('w, unit) prog" where
  "load_slice H m ts cur sz =
     bnd (pure_prog (read_at ts (unat cur) (unat (of_int sz :: size_t)))) (\<lambda>bs.
     bnd (defined (length bs \<le> unat (rm_size m))) (\<lambda>_. call (mem_store H (rm_buf m) bs)))"

definition client_task :: "rdma_mem \<Rightarrow> int \<Rightarrow> rdma_task" where
  "client_task m sz = \<lparr>task_mem = m, task_opcode = IBV_WR_SEND, task_size = of_int sz, task_rkey = 0,
     task_remote_addr = 0, task_id = 0\<rparr>"

text \<open>
  The loop that sends the rest; \<open>Some 1\<close> is the return for a failed query, and the result of \<open>send\<close> is
  ignored. Each query may make \<open>pf\<close> polls.
\<close>

fun client_loop :: "nat \<Rightarrow> nat \<Rightarrow> 'w host \<Rightarrow> bytes \<Rightarrow> size_t \<Rightarrow> int \<Rightarrow> rdma_mem \<Rightarrow> size_t \<Rightarrow> rdma_session \<Rightarrow>
    ('w, int option \<times> rdma_session) prog" where
  "client_loop 0 pf H ts bytes sz m cur s = fail Out_of_fuel"
| "client_loop (Suc fuel) pf H ts bytes sz m cur s =
     (if cur < bytes then
        bnd (deref (s_ctx s)) (\<lambda>ctx.
        bnd (rdma_query_cq pf (h_verbs H) ctx 1 1) (\<lambda>(r, wcs).
        let s = s\<lparr>s_send_wc := store_wcs wcs (s_send_wc s)\<rparr> in
        if r = - 1 then ret (Some 1, s)
        else
          bnd (load_slice H m ts cur sz) (\<lambda>_.
          bnd (send_task H s (client_task m sz)) (\<lambda>_.
          client_loop fuel pf H ts bytes sz m (cur + of_int sz) s))))
      else ret (None, s))"

text \<open>From the allocation of the block to the second reading of the clock.\<close>

definition client_send :: "nat \<Rightarrow> nat \<Rightarrow> 'w driver \<Rightarrow> int \<Rightarrow> int \<Rightarrow> rdma_session \<Rightarrow> ('w, int option \<times> rdma_session) prog" where
  "client_send fuel pf D sz iter s =
     (let H = d_host D in
      bnd (int_product sz iter) (\<lambda>bytes.
      bnd (new_block D bytes) (\<lambda>block.
      bnd (pure_prog (fill_ts (unat bytes) 0 (CHR ''A'') block)) (\<lambda>ts.
      bnd (deref (send_mem s)) (\<lambda>m.
      bnd (load_slice H m ts 0 sz) (\<lambda>_.
      bnd (send_task H s (client_task m sz)) (\<lambda>r.
      if r \<noteq> 0 then ret (Some 1, s) else
      bnd (call (d_clock D)) (\<lambda>c.
      if c \<noteq> 0 then ret (Some 1, s) else
      bnd (client_loop fuel pf H ts bytes sz m (of_int sz) s) (\<lambda>(r, s).
      if r \<noteq> None then ret (r, s) else
      bnd (call (d_clock D)) (\<lambda>c. if c \<noteq> 0 then ret (Some 1, s) else ret (None, s)))))))))))"

definition client :: "nat \<Rightarrow> nat \<Rightarrow> 'w driver \<Rightarrow> string \<Rightarrow> int \<Rightarrow> int \<Rightarrow> ('w, int option) prog" where
  "client fuel pf D servername sz iter =
     bnd (get_device (h_verbs (d_host D)) ''Ethernet'') (\<lambda>dev.
     bnd (call (d_srand48 D)) (\<lambda>_.
     bnd (session_connect pf (d_host D) (d_order D) (d_junk D) (d_storage D) servername 18185 (client_params sz iter dev)) (\<lambda>(s, _).
     bnd (client_send fuel pf D sz iter s) (\<lambda>(r, s).
     if r \<noteq> None then ret r else bnd (close (d_host D) s) (\<lambda>_. ret None)))))"

section \<open>The server\<close>

definition byte_at :: "bytes \<Rightarrow> nat \<Rightarrow> fault + char" where
  "byte_at ts i = (if i < length ts then Inr (ts ! i) else Inl Undefined_behaviour)"

text \<open>The condition on one group of four, from left to right and only as far as it holds.\<close>

definition group_is :: "char \<Rightarrow> bytes \<Rightarrow> nat \<Rightarrow> fault + bool" where
  "group_is ch ts i =
     sbnd (byte_at ts i) (\<lambda>a. if a \<noteq> ch then Inr False else
     sbnd (byte_at ts (i + 1)) (\<lambda>b. if a \<noteq> b then Inr False else
     sbnd (byte_at ts (i + 2)) (\<lambda>c. if a \<noteq> c then Inr False else
     sbnd (byte_at ts (i + 3)) (\<lambda>d. Inr (a = d)))))"

text \<open>
  The checking loop: \<open>None\<close> for a block that passes, or the place of the first group that does not. For the
  message 15 bytes are copied from there, however many are left.
\<close>

function check_ts :: "nat \<Rightarrow> nat \<Rightarrow> char \<Rightarrow> bytes \<Rightarrow> fault + nat option" where
  "check_ts n cur ch ts =
     (if cur < n then
        sbnd (group_is ch ts cur) (\<lambda>ok.
        if ok then check_ts n (cur + 4) (next_AZ ch) ts
        else sbnd (read_at ts cur 15) (\<lambda>_. Inr (Some cur)))
      else Inr None)"
  by pat_completeness auto
termination by (relation "measure (\<lambda>(n, cur, ch, ts). n - cur)") auto

declare check_ts.simps [simp del]

text \<open>
  The receiving loop: the clock is read again after the first message, and \<open>Inl 1\<close> is the return when that
  fails. \<open>cur\<close> is an \<open>int\<close> and is converted for the comparison.
\<close>

fun server_loop :: "nat \<Rightarrow> nat \<Rightarrow> 'w driver \<Rightarrow> size_t \<Rightarrow> int \<Rightarrow> bool \<Rightarrow> bytes \<Rightarrow> rdma_session \<Rightarrow>
    ('w, int + bytes \<times> rdma_session) prog" where
  "server_loop 0 pf D bytes cur ii ts s = fail Out_of_fuel"
| "server_loop (Suc fuel) pf D bytes cur ii ts s =
     (if (of_int cur :: size_t) < bytes then
        bnd (read pf (d_host D) (drop (nat cur) ts) s) (\<lambda>((rcnt, room), s).
        let ts = take (nat cur) ts @ room; cur = cur + rcnt in
        if ii then server_loop fuel pf D bytes cur ii ts s
        else bnd (call (d_clock D)) (\<lambda>c.
             if c \<noteq> 0 then ret (Inl 1) else server_loop fuel pf D bytes cur True ts s))
      else ret (Inr (ts, s)))"

text \<open>From the accepted session on.\<close>

definition server_recv :: "nat \<Rightarrow> nat \<Rightarrow> 'w driver \<Rightarrow> int \<Rightarrow> int \<Rightarrow> rdma_session \<Rightarrow> ('w, int option) prog" where
  "server_recv fuel pf D sz iter s =
     bnd (int_product sz iter) (\<lambda>bytes.
     bnd (new_block D bytes) (\<lambda>block.
     bnd (pure_prog (memcpy_at block 0 (replicate (unat bytes) (CHR ''a'')))) (\<lambda>ts.
     bnd (call (d_clock D)) (\<lambda>c.
     if c \<noteq> 0 then ret (Some 1) else
     bnd (server_loop fuel pf D bytes 0 False ts s) (\<lambda>x.
     case x of Inl r \<Rightarrow> ret (Some r) | Inr (ts, s) \<Rightarrow>
     bnd (call (d_clock D)) (\<lambda>c.
     if c \<noteq> 0 then ret (Some 1) else
     bnd (pure_prog (check_ts (unat bytes) 0 (CHR ''A'') ts)) (\<lambda>v.
     if v \<noteq> None then ret (Some 0) else bnd (close (d_host D) s) (\<lambda>_. ret None))))))))"

definition server :: "nat \<Rightarrow> nat \<Rightarrow> 'w driver \<Rightarrow> int \<Rightarrow> int \<Rightarrow> ('w, int option) prog" where
  "server fuel pf D sz iter =
     bnd (get_device (h_verbs (d_host D)) ''Ethernet'') (\<lambda>dev.
     bnd (call (d_srand48 D)) (\<lambda>_.
     bnd (portal_accept pf (d_host D) (d_order D) (d_junk D) (d_storage D) 18185 (Some (client_params sz iter dev))) (\<lambda>(_, s).
     bnd (deref (s_ctx s)) (\<lambda>_.
     server_recv fuel pf D sz iter s))))"

text \<open>
  \<open>main\<close>, after the arguments have been read as numbers; \<open>host\<close> is the third one. The results of \<open>client\<close> and \<open>server\<close>
  are not looked at.
\<close>

definition bench_main :: "nat \<Rightarrow> nat \<Rightarrow> 'w driver \<Rightarrow> int \<Rightarrow> int \<Rightarrow> string option \<Rightarrow> ('w, int) prog" where
  "bench_main fuel pf D sz iter host =
     (case host of
        Some servername \<Rightarrow> bnd (client fuel pf D servername sz iter) (\<lambda>_. ret 0)
      | None \<Rightarrow> bnd (server fuel pf D sz iter) (\<lambda>_. ret 0))"

section \<open>The pattern\<close>

lemma letter_AZ: "letter 65 0 = CHR ''A''" "next_AZ (letter 65 j) = letter 65 (Suc j)"
proof -
  show "letter 65 0 = CHR ''A''" by (simp add: letter_def) code_simp
  have z: "of_char (CHR ''Z'') = (90 :: nat)" and a: "char_of (65 :: nat) = CHR ''A''" by code_simp+
  have "of_char (letter 65 j) = (65 + j mod 26 :: nat)" by (simp add: letter_def)
  then show "next_AZ (letter 65 j) = letter 65 (Suc j)"
    using a by (auto simp: next_AZ_def z letter_def mod_Suc)
qed

interpretation tsfill: run_filler fill_ts 4 65 next_AZ
  by unfold_locales (simp, rule fill_ts.simps, rule letter_AZ(2))

lemma group_is_eq:
  assumes "i + 4 \<le> length ts"
  shows "group_is ch ts i = Inr (take 4 (drop i ts) = replicate 4 ch)"
proof -
  obtain a b c d rest where d: "drop i ts = a # b # c # d # rest"
    using assms by (cases "drop i ts"; cases "tl (drop i ts)"; cases "tl (tl (drop i ts))"; cases "tl (tl (tl (drop i ts)))")
      (auto dest: arg_cong [of _ _ length])
  have "ts ! (i + k) = drop i ts ! k" if "k < 4" for k using assms that by simp
  from this [of 0] this [of 1] this [of 2] this [of 3] have "ts ! i = a" "ts ! (i + 1) = b" "ts ! (i + 2) = c" "ts ! (i + 3) = d"
    by (simp_all add: d)
  moreover have "replicate 4 ch = [ch, ch, ch, ch]" by (simp add: numeral_eq_Suc)
  moreover have "take 4 (drop i ts) = [a, b, c, d]" by (simp add: d)
  ultimately show ?thesis using assms by (auto simp: group_is_def byte_at_def)
qed

lemma check_ts_from:
  assumes "length ts = i + 4 * k"
  shows "check_ts (i + 4 * k) i (letter 65 j) ts = Inr None \<longleftrightarrow> drop i ts = runs 4 65 j k"
  using assms
proof (induction k arbitrary: i j)
  case 0
  then show ?case by (subst check_ts.simps) simp
next
  case (Suc k)
  have g: "group_is (letter 65 j) ts i = Inr (take 4 (drop i ts) = replicate 4 (letter 65 j))"
    using Suc.prems by (intro group_is_eq) simp
  have rec: "check_ts (i + 4 * Suc k) (i + 4) (letter 65 (Suc j)) ts = Inr None \<longleftrightarrow> drop (i + 4) ts = runs 4 65 (Suc j) k"
    using Suc.IH [of "i + 4" "Suc j"] Suc.prems by (simp add: algebra_simps)
  have split: "drop i ts = take 4 (drop i ts) @ drop (i + 4) ts"
    using append_take_drop_id [of 4 "drop i ts"] by (simp add: add.commute)
  have "length (take 4 (drop i ts)) = length (replicate 4 (letter 65 j))" using Suc.prems by simp
  then have "take 4 (drop i ts) @ drop (i + 4) ts = runs 4 65 j (Suc k) \<longleftrightarrow>
      take 4 (drop i ts) = replicate 4 (letter 65 j) \<and> drop (i + 4) ts = runs 4 65 (Suc j) k"
    unfolding runs_Suc by (intro append_eq_append_conv) simp
  then have "drop i ts = runs 4 65 j (Suc k) \<longleftrightarrow> take 4 (drop i ts) = replicate 4 (letter 65 j) \<and> drop (i + 4) ts = runs 4 65 (Suc j) k"
    using split by simp
  moreover have "check_ts (i + 4 * Suc k) i (letter 65 j) ts = Inr None \<longleftrightarrow>
      take 4 (drop i ts) = replicate 4 (letter 65 j) \<and> check_ts (i + 4 * Suc k) (i + 4) (letter 65 (Suc j)) ts = Inr None"
    by (subst check_ts.simps) (auto simp: g letter_AZ sbnd_def split: sum.splits)
  ultimately show ?case using rec by simp
qed

section \<open>Sending the block\<close>

text \<open>A host that logs what is copied into registered memory, posted, and written to a file or socket, in order.\<close>

datatype wire_event = Stored u64 bytes | Sent ibv_send_wr | Written int bytes

definition traced_host :: "'w host \<Rightarrow> ('w \<times> wire_event list) host" where
  "traced_host H = \<lparr>
     h_verbs = (lift_verbs (h_verbs H))\<lparr>ibv_post_send := (\<lambda>qp wrs. logging_call (map Sent wrs) (ibv_post_send (h_verbs H) qp wrs))\<rparr>,
     h_sys = (lift_sys (h_sys H))\<lparr>sys_write := (\<lambda>fd bs. logging_call [Written fd bs] (sys_write (h_sys H) fd bs))\<rparr>,
     h_mem = \<lparr>mmap = (\<lambda>n. unseen (mmap (h_mem H) n)), munmap = (\<lambda>p n. unseen (munmap (h_mem H) p n)),
              malloc = (\<lambda>n. unseen (malloc (h_mem H) n)), free = (\<lambda>p. unseen (free (h_mem H) p)),
              is_block = (\<lambda>p (w, g). is_block (h_mem H) p w)\<rparr>,
     mem_load = (\<lambda>a n. unseen (mem_load H a n)),
     mem_store = (\<lambda>a bs. logging_call [Stored a bs] (mem_store H a bs)),
     h_junk = h_junk H\<rparr>"

definition traced :: "'w driver \<Rightarrow> ('w \<times> wire_event list) driver" where
  "traced D = \<lparr>d_host = traced_host (d_host D), d_clock = unseen (d_clock D), d_srand48 = unseen (d_srand48 D),
     d_malloc = (\<lambda>n. unseen (d_malloc D n)), d_fresh = d_fresh D, d_order = d_order D, d_junk = d_junk D,
     d_storage = d_storage D\<rparr>"

lemma traced_sel [simp]:
  "ibv_post_send (h_verbs (traced_host H)) = (\<lambda>qp wrs. logging_call (map Sent wrs) (ibv_post_send (h_verbs H) qp wrs))"
  "ibv_poll_cq (h_verbs (traced_host H)) = (\<lambda>cq n. unseen (ibv_poll_cq (h_verbs H) cq n))"
  "mem_store (traced_host H) = (\<lambda>a bs. logging_call [Stored a bs] (mem_store H a bs))"
  "sys_write (h_sys (traced_host H)) = (\<lambda>fd bs. logging_call [Written fd bs] (sys_write (h_sys H) fd bs))"
  "sys_read (h_sys (traced_host H)) = (\<lambda>fd n. unseen (sys_read (h_sys H) fd n))"
  "d_host (traced D) = traced_host (d_host D)" "d_clock (traced D) = unseen (d_clock D)"
  "d_malloc (traced D) = (\<lambda>n. unseen (d_malloc D n))" "d_fresh (traced D) = d_fresh D"
  by (simp_all add: traced_host_def traced_def)

text \<open>
  A connection on which every post is accepted and every query finds a successful completion after fewer
  than \<open>pf\<close> polls that find none.
\<close>

definition prompt :: "'w verbs \<Rightarrow> ibv_qp \<Rightarrow> handle \<Rightarrow> nat \<Rightarrow> bool" where
  "prompt V qp cq pf \<longleftrightarrow> (\<forall>wrs w. fst (ibv_post_send V qp wrs w) = 0)
     \<and> (\<forall>w. \<exists>k < pf. \<exists>w1 wc w2. empty_polls V cq 1 k w w1 \<and> ibv_poll_cq V cq 1 w1 = (Completions [wc], w2)
          \<and> wc_status wc = IBV_WC_SUCCESS)"

definition linked :: "rdma_session \<Rightarrow> ibv_qp \<Rightarrow> handle \<Rightarrow> bool" where
  "linked s qp cq \<longleftrightarrow> (\<exists>ctx. s_ctx s = Some ctx \<and> ctx_qp ctx = Some qp \<and> ctx_send_cq ctx = Some cq)"

abbreviation slice_at :: "bytes \<Rightarrow> nat \<Rightarrow> nat \<Rightarrow> bytes" where
  "slice_at ts n i \<equiv> take n (drop (i * n) ts)"

definition client_wr :: "rdma_mem \<Rightarrow> int \<Rightarrow> ibv_send_wr" where
  "client_wr m sz = \<lparr>swr_id = 0, swr_sg_list = [\<lparr>sge_addr = rm_buf m, sge_length = of_int sz, sge_lkey = mr_lkey (rm_mr m)\<rparr>],
     swr_opcode = IBV_WR_SEND, swr_signaled = True, swr_remote_addr = 0, swr_rkey = 0\<rparr>"

abbreviation slice_events :: "rdma_mem \<Rightarrow> int \<Rightarrow> bytes \<Rightarrow> nat \<Rightarrow> wire_event list" where
  "slice_events m sz ts i \<equiv> [Stored (rm_buf m) (slice_at ts (nat sz) i), Sent (client_wr m sz)]"

lemma empty_polls_traced:
  "empty_polls (h_verbs H) cq m k w w1 \<Longrightarrow> empty_polls (h_verbs (traced_host H)) cq m k (w, g) (w1, g)"
  by (induction k arbitrary: w) (simp_all add: watch_simps)

lemma prompt_query:
  assumes "prompt (h_verbs H) qp cq pf" and "ctx_send_cq ctx = Some cq"
  shows "\<exists>wc w'. rdma_query_cq pf (h_verbs (traced_host H)) ctx 1 1 (w, g) = (Inr (1, [wc]), (w', g))"
proof -
  obtain k w1 wc w2 where k: "k < pf" "empty_polls (h_verbs H) cq 1 k w w1"
    and poll: "ibv_poll_cq (h_verbs H) cq 1 w1 = (Completions [wc], w2)" "wc_status wc = IBV_WC_SUCCESS"
    using assms(1) unfolding prompt_def by blast
  have "poll_loop pf (h_verbs (traced_host H)) cq 1 0 (w, g) = (Inr (Completions [wc]), (w2, g))"
    using empty_polls_traced [OF k(2), of g] k(1) poll(1) by (intro poll_loop_finds) (auto simp: watch_simps)
  moreover have "cq_of_flag ctx 1 = Some cq" using assms(2) by (simp add: cq_of_flag_def)
  ultimately show ?thesis using poll(2) by (simp add: rdma_query_cq_eq query_result_def prog_simps)
qed

lemma send_client_task:
  assumes "linked s qp cq" and "0 \<le> sz" and "sz < 2 ^ 31"
  shows "\<exists>w'. send_task (traced_host H) s (client_task m sz) (w, g)
    = (Inr (if fst (ibv_post_send (h_verbs H) qp [client_wr m sz] w) = 0 then 0 else - 1), (w', g @ [Sent (client_wr m sz)]))"
proof -
  have "ucast (of_int sz :: size_t) = (of_int sz :: u32)" by (rule bit_word_eqI) (simp add: bit_simps)
  then show ?thesis
    using assms by (auto simp: linked_def send_task_def rdma_post_send_def send_wr_def client_task_def client_wr_def
        prog_simps watch_simps)
qed

lemma unat_int_size: "0 \<le> sz \<Longrightarrow> sz < 2 ^ 31 \<Longrightarrow> unat (of_int sz :: size_t) = nat sz"
  by (simp add: unsigned_of_int take_bit_int_eq_self)

lemma load_slice_ok:
  assumes "i * nat sz + nat sz \<le> length ts" and "0 \<le> sz" and "sz < 2 ^ 31" and "unat cur = i * nat sz"
    and "nat sz \<le> unat (rm_size m)"
  shows "\<exists>w'. load_slice (traced_host H) m ts cur sz (w, g) = (Inr (), (w', g @ [Stored (rm_buf m) (slice_at ts (nat sz) i)]))"
  using assms by (simp add: load_slice_def read_at_def prog_simps watch_simps unat_int_size [OF assms(2,3)] min_absorb2)

text \<open>What a run that comes back has done, in any environment.\<close>

lemma load_slice_log:
  assumes "load_slice (traced_host H) m ts cur sz (w, g) = (Inr u, (w', g'))" and "0 \<le> sz" and "sz < 2 ^ 31"
    and "unat cur = i * nat sz"
  shows "g' = g @ [Stored (rm_buf m) (slice_at ts (nat sz) i)] \<and> nat sz \<le> unat (rm_size m)"
  using assms(1,4)
  by (auto simp: load_slice_def read_at_def run_iffs watch_simps unat_int_size [OF assms(2,3)] min_absorb2 split: if_splits)

lemma send_task_log:
  assumes "send_task (traced_host H) s (client_task m sz) (w, g) = (Inr r, (w', g'))" and "0 \<le> sz" and "sz < 2 ^ 31"
  shows "g' = g @ [Sent (client_wr m sz)]"
proof -
  have "ucast (of_int sz :: size_t) = (of_int sz :: u32)" by (rule bit_word_eqI) (simp add: bit_simps)
  then show ?thesis
    using assms(1) by (auto simp: send_task_def rdma_post_send_def send_wr_def client_task_def client_wr_def
        run_iffs watch_simps split: if_splits)
qed

lemma ghost_free_query_traced [simp]: "ghost_free (rdma_query_cq fuel (h_verbs (traced_host H)) ctx m flag)"
  by (rule ghost_free_query; simp; blast)

lemma size_facts:
  assumes "0 < sz" and "sz * int n < 2 ^ 31" and "k < n"
  shows "n * nat sz < 2 ^ 31" "sz < 2 ^ 31" "Suc k * nat sz \<le> n * nat sz"
    "(of_nat (k * nat sz) :: size_t) < of_nat (n * nat sz)"
    "of_nat (k * nat sz) + of_int sz = (of_nat (Suc k * nat sz) :: size_t)"
    "unat (of_nat (k * nat sz) :: size_t) = k * nat sz"
proof -
  have "int (n * nat sz) < 2 ^ 31" using assms by (simp add: mult.commute)
  then show small: "n * nat sz < 2 ^ 31" by (metis of_nat_less_imp_less of_nat_numeral of_nat_power)
  show fits: "Suc k * nat sz \<le> n * nat sz" using assms(3) by (intro mult_le_mono1) simp
  have "nat sz \<le> n * nat sz" using assms(3) by (cases n) simp_all
  then have "nat sz < 2 ^ 31" using small by (rule le_less_trans)
  then show "sz < 2 ^ 31" by (simp add: nat_less_iff)
  have u: "unat (of_nat j :: size_t) = j" if "j \<le> n * nat sz" for j
    using that small by (intro unat_of_nat_small) simp
  have lt: "k * nat sz < n * nat sz" using assms(1,3) by simp
  then show "unat (of_nat (k * nat sz) :: size_t) = k * nat sz" by (intro u) simp
  show "(of_nat (k * nat sz) :: size_t) < of_nat (n * nat sz)"
    using lt by (simp only: word_less_nat_alt u order.refl less_imp_le)
  have "int (nat sz) = sz" using assms(1) by simp
  then show "of_nat (k * nat sz) + of_int sz = (of_nat (Suc k * nat sz) :: size_t)"
    by (metis add.commute mult_Suc of_int_of_nat_eq of_nat_add)
qed

lemma client_loop_log:
  assumes sz: "0 < sz" "sz * int n < 2 ^ 31"
    and "client_loop fuel pf (traced_host H) ts (of_nat (n * nat sz)) sz m (of_nat (k * nat sz)) s (w, g)
      = (Inr (None, s'), (w', g'))" and "k \<le> n"
  shows "g' = g @ concat (map (slice_events m sz ts) [k..<n])"
  using assms(3,4)
proof (induction fuel arbitrary: k s w g)
  case 0
  then show ?case by (simp add: run_iffs)
next
  case (Suc fuel)
  show ?case
  proof (cases "k = n")
    case True
    then show ?thesis using Suc.prems by (simp add: run_iffs)
  next
    case False
    then have k: "k < n" using Suc.prems(2) by simp
    note f = size_facts [OF sz k]
    obtain ctx q s1 w1 g1 w2 g2 r w3 g3 where
      qu: "rdma_query_cq pf (h_verbs (traced_host H)) ctx 1 1 (w, g) = (Inr q, (w1, g1))"
      and ld: "load_slice (traced_host H) m ts (of_nat (k * nat sz)) sz (w1, g1) = (Inr (), (w2, g2))"
      and sd: "send_task (traced_host H) s1 (client_task m sz) (w2, g2) = (Inr r, (w3, g3))"
      and lp: "client_loop fuel pf (traced_host H) ts (of_nat (n * nat sz)) sz m (of_nat (Suc k * nat sz)) s1 (w3, g3)
        = (Inr (None, s'), (w', g'))"
      using Suc.prems(1) by (auto simp: f(4,5) run_iffs Let_def simp del: of_nat_mult split: if_splits)
    have "g1 = g" by (rule ghost_freeD [OF ghost_free_query_traced qu])
    moreover have "g2 = g1 @ [Stored (rm_buf m) (slice_at ts (nat sz) k)]"
      using load_slice_log [OF ld _ f(2,6)] sz(1) by simp
    moreover have "g3 = g2 @ [Sent (client_wr m sz)]" using send_task_log [OF sd _ f(2)] sz(1) by simp
    moreover have "g' = g3 @ concat (map (slice_events m sz ts) [Suc k..<n])" using k by (intro Suc.IH [OF lp]) simp
    ultimately show ?thesis using k by (simp add: upt_conv_Cons)
  qed
qed

lemma client_loop_sends:
  assumes net: "prompt (h_verbs H) qp cq pf" "nat sz \<le> unat (rm_size m)" and sz: "0 < sz" "sz * int n < 2 ^ 31"
    and ts: "length ts = n * nat sz" and "linked s qp cq" and "k \<le> n" and "n - k < fuel"
  shows "\<exists>s' w'. client_loop fuel pf (traced_host H) ts (of_nat (n * nat sz)) sz m (of_nat (k * nat sz)) s (w, g)
    = (Inr (None, s'), (w', g @ concat (map (slice_events m sz ts) [k..<n])))"
  using assms(6-8)
proof (induction "n - k" arbitrary: k fuel s w g)
  case 0
  then obtain f where "fuel = Suc f" by (cases fuel) auto
  then show ?case using 0 by (simp add: prog_simps)
next
  case (Suc d)
  obtain f where f: "fuel = Suc f" using Suc.prems(3) by (cases fuel) auto
  have k: "k < n" using Suc.hyps(2) by simp
  note z = size_facts [OF sz k]
  obtain ctx where ctx: "s_ctx s = Some ctx" "ctx_send_cq ctx = Some cq" using Suc.prems(1) by (auto simp: linked_def)
  obtain wc w1 where q: "rdma_query_cq pf (h_verbs (traced_host H)) ctx 1 1 (w, g) = (Inr (1, [wc]), (w1, g))"
    using prompt_query [OF net(1) ctx(2)] by blast
  define s1 where "s1 = s\<lparr>s_send_wc := store_wcs [wc] (s_send_wc s)\<rparr>"
  have l1: "linked s1 qp cq" using Suc.prems(1) by (simp add: linked_def s1_def)
  obtain w2 where ld: "load_slice (traced_host H) m ts (of_nat (k * nat sz)) sz (w1, g)
      = (Inr (), (w2, g @ [Stored (rm_buf m) (slice_at ts (nat sz) k)]))"
    using load_slice_ok [of k sz ts "of_nat (k * nat sz)" m H w1 g] z ts sz(1) net(2) by auto
  obtain w3 r where sd: "send_task (traced_host H) s1 (client_task m sz) (w2, g @ [Stored (rm_buf m) (slice_at ts (nat sz) k)])
      = (Inr r, (w3, g @ slice_events m sz ts k))"
    using send_client_task [OF l1, of sz H m w2 "g @ [Stored (rm_buf m) (slice_at ts (nat sz) k)]"] sz(1) z(2) by auto
  have ne: "(1 :: int) = - 1 \<longleftrightarrow> False" by simp
  have d: "d = n - Suc k" and k': "Suc k \<le> n" "n - Suc k < f" using Suc.hyps(2) Suc.prems(3) k f by simp_all
  obtain s' w' where "client_loop f pf (traced_host H) ts (of_nat (n * nat sz)) sz m (of_nat (Suc k * nat sz)) s1
      (w3, g @ slice_events m sz ts k) = (Inr (None, s'), (w', (g @ slice_events m sz ts k) @ concat (map (slice_events m sz ts) [Suc k..<n])))"
    using Suc.hyps(1) [OF d l1 k', of w3 "g @ slice_events m sz ts k"] by (elim exE) (rule that)
  then have "client_loop fuel pf (traced_host H) ts (of_nat (n * nat sz)) sz m (of_nat (k * nat sz)) s (w, g)
      = (Inr (None, s'), (w', (g @ slice_events m sz ts k) @ concat (map (slice_events m sz ts) [Suc k..<n])))"
    by (simp only: f client_loop.simps z(4,5) if_True if_False ne bnd_apply deref_apply ctx(1) q ld sd fst_conv snd_conv
        sum.case option.case prod.case Let_def s1_def [symmetric])
  then show ?case using k by (simp add: upt_conv_Cons)
qed

lemma concat_slices: "length ts = n * b \<Longrightarrow> concat (map (slice_at ts b) [0..<n]) = ts"
proof (induction n arbitrary: ts)
  case 0
  then show ?case by simp
next
  case (Suc n)
  have "map (slice_at ts b) [0..<Suc n] = take b ts # map (slice_at (drop b ts) b) [0..<n]"
    unfolding map_upt_Suc by (simp add: add.commute)
  moreover have "concat (map (slice_at (drop b ts) b) [0..<n]) = drop b ts" using Suc.prems by (intro Suc.IH) simp
  ultimately show ?case by simp
qed

lemma int_product_ok:
  assumes "0 < a" and "0 < b" and "a * b < 2 ^ 31"
  shows "int_product a b w = (Inr (of_nat (nat b * nat a)), w)" "unat (of_nat (nat b * nat a) :: size_t) = nat (a * b)"
proof -
  have n: "int (nat b * nat a) = a * b" "nat b * nat a = nat (a * b)" using assms(1,2) by (simp_all add: nat_mult_distrib mult.commute)
  have "(of_int (a * b) :: size_t) = of_nat (nat b * nat a)" by (simp only: flip: n(1)) simp
  moreover have "0 < a * b" using assms(1,2) by simp
  ultimately show "int_product a b w = (Inr (of_nat (nat b * nat a)), w)"
    using assms(3) by (simp add: int_product_def prog_simps del: of_int_mult)
  have "nat (a * b) < 2 ^ 31" using assms(3) by (simp add: nat_less_iff)
  then show "unat (of_nat (nat b * nat a) :: size_t) = nat (a * b)" unfolding n(2) by (intro unat_of_nat_small) simp
qed

lemma fill_ts_pattern:
  assumes "4 dvd N" and "fill_ts N 0 (CHR ''A'') block = Inr ts" and "block = [] \<or> length block = N"
  shows "ts = runs 4 65 0 (N div 4)"
proof (cases "N = 0")
  case True
  then show ?thesis using assms by (auto simp: fill_ts.simps runs_def)
next
  case False
  then have "block \<noteq> []" using assms(2) by (auto simp: fill_ts.simps memcpy_at_def)
  then show ?thesis using tsfill.fill_block [of block N] assms by (simp add: letter_AZ(1))
qed

lemma go_on_iff:
  "(if b then ret (Some 1, s) else M) w = (Inr (None, s'), w') \<longleftrightarrow> \<not> b \<and> M w = (Inr (None, s'), w')"
  "(if r \<noteq> None then ret (r, t) else M) w = (Inr (None, s'), w') \<longleftrightarrow> r = None \<and> M w = (Inr (None, s'), w')"
  by (auto simp: ret_Inr_iff)

lemma client_send_run:
  assumes run: "client_send fuel pf (traced D) sz iter s (w, g) = (Inr (None, s'), (w', g'))" and "send_mem s = Some m"
    and prod: "int_product sz iter (w, g) = (Inr bytes, (w, g))"
  obtains block ts w1 g1 w2 g2 w3 g3 w4 g4 s1 w5 g5 where "new_block (traced D) bytes (w, g) = (Inr block, (w1, g1))"
    and "fill_ts (unat bytes) 0 (CHR ''A'') block = Inr ts"
    and "load_slice (traced_host (d_host D)) m ts 0 sz (w1, g1) = (Inr (), (w2, g2))"
    and "send_task (traced_host (d_host D)) s (client_task m sz) (w2, g2) = (Inr 0, (w3, g3))"
    and "unseen (d_clock D) (w3, g3) = (0, (w4, g4))"
    and "client_loop fuel pf (traced_host (d_host D)) ts bytes sz m (of_int sz) s (w4, g4) = (Inr (None, s1), (w5, g5))"
    and "unseen (d_clock D) (w5, g5) = (0, (w', g'))"
  using run unfolding client_send_def Let_def
  by (clarsimp simp: bnd_Inr_iff deref_Inr_iff pure_prog_Inr_iff call_Inr_iff assms(2) prod ret_Inr_iff go_on_iff simp del: not_None_eq)

lemma client_send_log:
  assumes "0 < sz" and "0 < iter" and "sz * iter < 2 ^ 31" and "4 dvd sz * iter" and "send_mem s = Some m"
    and run: "client_send fuel pf (traced D) sz iter s (w, g) = (Inr (None, s'), (w', g'))"
    and ts: "ts = runs 4 65 0 (nat (sz * iter) div 4)"
  shows "g' = g @ concat (map (slice_events m sz ts) [0..<nat iter]) \<and> nat sz \<le> unat (rm_size m)"
proof -
  define n where "n = nat iter"
  define N where "N = nat (sz * iter)"
  have N: "N = n * nat sz" using assms(1,2) by (simp add: N_def n_def nat_mult_distrib)
  have dvd: "4 dvd N" using assms(4) by (auto elim!: dvdE simp: N_def nat_mult_distrib)
  have prod: "int_product sz iter x = (Inr (of_nat N), x)" and u: "unat (of_nat N :: size_t) = N" for x :: "'a \<times> wire_event list"
    using int_product_ok [OF assms(1-3)] unfolding N [unfolded n_def, symmetric] N_def [symmetric] by simp_all
  have sn: "sz * int n < 2 ^ 31" "0 < n" using assms(2,3) by (simp_all add: n_def)
  note z = size_facts [OF assms(1) sn(1,2)]
  obtain block ts' w1 g1 w2 g2 w3 g3 c1 w4 g4 s1 w5 g5 where blk: "new_block (traced D) (of_nat N) (w, g) = (Inr block, (w1, g1))"
    and fill: "fill_ts N 0 (CHR ''A'') block = Inr ts'"
    and ld: "load_slice (traced_host (d_host D)) m ts' 0 sz (w1, g1) = (Inr (), (w2, g2))"
    and sd: "send_task (traced_host (d_host D)) s (client_task m sz) (w2, g2) = (Inr 0, (w3, g3))"
    and cl: "unseen (d_clock D) (w3, g3) = (0, (w4, g4))"
    and lp: "client_loop fuel pf (traced_host (d_host D)) ts' (of_nat N) sz m (of_int sz) s (w4, g4) = (Inr (None, s1), (w5, g5))"
    and cl2: "unseen (d_clock D) (w5, g5) = (0, (w', g'))"
    by (rule client_send_run [OF run assms(5) prod [of "(w, g)"]]) (simp only: u)
  have blk': "g1 = g" "block = [] \<or> length block = N"
    using blk by (auto simp: new_block_def run_iffs watch_simps u)
  have ts': "ts' = ts" using fill_ts_pattern [OF dvd fill blk'(2)] ts by (simp add: N_def)
  have "g2 = g @ [Stored (rm_buf m) (slice_at ts (nat sz) 0)] \<and> nat sz \<le> unat (rm_size m)"
    using load_slice_log [OF ld _ z(2), of 0] assms(1) blk'(1) ts' by simp
  moreover have "g3 = g2 @ [Sent (client_wr m sz)]" using send_task_log [OF sd _ z(2)] assms(1) by simp
  moreover have "g4 = g3" "g' = g5" using cl cl2 by (auto simp: watch_simps)
  moreover have "(of_int sz :: size_t) = of_nat (1 * nat sz)" using assms(1) by simp
  then have "g5 = g4 @ concat (map (slice_events m sz ts) [1..<n])"
    using client_loop_log [OF assms(1) sn(1), of fuel pf "d_host D" ts m 1 s w4 g4 s1 w5 g5] lp N ts' sn(2) by simp
  moreover have "[0..<n] = 0 # [1..<n]" using sn(2) by (simp add: upt_conv_Cons)
  ultimately show ?thesis by (simp add: n_def)
qed

lemma client_send_returns:
  assumes "prompt (h_verbs (d_host D)) qp cq pf" and "linked s qp cq" and "send_mem s = Some m"
    and "\<And>w. fst (d_clock D w) = 0" and "\<And>n w. fst (d_malloc D n w)"
    and "0 < sz" and "0 < iter" and "sz * iter < 2 ^ 31" and "4 dvd sz * iter" and "nat iter \<le> fuel"
    and "nat sz \<le> unat (rm_size m)"
  shows "\<exists>s' w' g'. client_send fuel pf (traced D) sz iter s (w, g) = (Inr (None, s'), (w', g'))"
proof -
  define n where "n = nat iter"
  define N where "N = nat (sz * iter)"
  define ts where "ts = runs 4 65 0 (N div 4)"
  have N: "N = n * nat sz" using assms(6,7) by (simp add: N_def n_def nat_mult_distrib)
  have "4 dvd N" using assms(9) by (auto elim!: dvdE simp: N_def nat_mult_distrib)
  then have len: "length ts = n * nat sz" using N by (simp add: ts_def)
  have prod: "int_product sz iter x = (Inr (of_nat N), x)" and u: "unat (of_nat N :: size_t) = N" for x :: "'a \<times> wire_event list"
    using int_product_ok [OF assms(6-8)] unfolding N [unfolded n_def, symmetric] N_def [symmetric] by simp_all
  obtain w1 where blk: "new_block (traced D) (of_nat N) (w, g) = (Inr (map (d_fresh D) [0..<N]), (w1, g))"
    using assms(5) by (simp add: new_block_def prog_simps watch_simps u)
  have fill: "fill_ts N 0 (CHR ''A'') (map (d_fresh D) [0..<N]) = Inr ts"
    using tsfill.fill_block [of "map (d_fresh D) [0..<N]" N] \<open>4 dvd N\<close> by (simp add: letter_AZ(1) ts_def)
  have sn: "sz * int n < 2 ^ 31" "0 < n" using assms(7,8) by (simp_all add: n_def)
  note z = size_facts [OF assms(6) sn(1,2)]
  let ?s0 = "Stored (rm_buf m) (slice_at ts (nat sz) 0)"
  obtain w2 where ld: "load_slice (traced_host (d_host D)) m ts 0 sz (w1, g) = (Inr (), (w2, g @ [?s0]))"
    using load_slice_ok [of 0 sz ts 0 m "d_host D" w1 g] z(2,3) len assms(6,11) by auto
  obtain w3 where sd: "send_task (traced_host (d_host D)) s (client_task m sz) (w2, g @ [?s0]) = (Inr 0, (w3, g @ slice_events m sz ts 0))"
    using send_client_task [OF assms(2) _ z(2), of "d_host D" m w2 "g @ [?s0]"] assms(1,6) by (auto simp: prompt_def)
  obtain w4 where c1: "d_clock D w3 = (0, w4)" using assms(4) [of w3] by (cases "d_clock D w3") auto
  have "1 \<le> n" "n - 1 < fuel" "(of_int sz :: size_t) = of_nat (1 * nat sz)"
    using assms(6,7,10) sn(2) by (auto simp: n_def)
  then obtain s' w5 where lp: "client_loop fuel pf (traced_host (d_host D)) ts (of_nat N) sz m (of_int sz) s (w4, g @ slice_events m sz ts 0)
      = (Inr (None, s'), (w5, (g @ slice_events m sz ts 0) @ concat (map (slice_events m sz ts) [1..<n])))"
    using client_loop_sends [OF assms(1,11,6) sn(1) len assms(2), of 1 fuel w4 "g @ slice_events m sz ts 0"] unfolding N by auto
  obtain w6 where c2: "d_clock D w5 = (0, w6)" using assms(4) [of w5] by (cases "d_clock D w5") auto
  show ?thesis
    by (simp add: client_send_def Let_def prog_simps watch_simps prod blk u fill assms(3) ld [simplified] sd [simplified] c1 lp [simplified] c2)
qed

text \<open>
  C15. The client of the benchmark sends its test data, whole and in order. Take a block of \<open>size * iter\<close> bytes
  that fits an \<open>int\<close> and is a multiple of four. In every environment, a run of the client that gets to its end
  has put the \<open>iter\<close> slices of the block one after the other into the send buffer and posted the buffer after
  each, and nothing else; the slices make up the runs AAAABBBB\<open>\<dots>\<close>ZZZZAAAA\<open>\<dots>\<close>, and the size is at most that of
  the registered send buffer. And the run does get to its end when the size is at most that, memory and clock are
  there, every post is accepted and every query finds a successful completion after fewer than \<open>pf\<close> empty polls.
  (For a size above that of the send buffer the copy runs over its end, and the run of the model faults.)
\<close>
theorem client_sends_pattern:
  assumes "0 < sz" and "0 < iter" and "sz * iter < 2 ^ 31" and "4 dvd sz * iter" and "send_mem s = Some m"
    and "ts = runs 4 65 0 (nat (sz * iter) div 4)"
  shows "(client_send fuel pf (traced D) sz iter s (w, g) = (Inr (None, s'), (w', g')) \<longrightarrow>
      g' = g @ concat (map (slice_events m sz ts) [0..<nat iter]) \<and> nat sz \<le> unat (rm_size m))
    \<and> concat (map (slice_at ts (nat sz)) [0..<nat iter]) = ts
    \<and> (linked s qp cq \<longrightarrow> prompt (h_verbs (d_host D)) qp cq pf \<longrightarrow> (\<forall>w. fst (d_clock D w) = 0) \<longrightarrow>
       (\<forall>n w. fst (d_malloc D n w)) \<longrightarrow> nat iter \<le> fuel \<longrightarrow> nat sz \<le> unat (rm_size m) \<longrightarrow>
       (\<exists>s' w' g'. client_send fuel pf (traced D) sz iter s (w, g) = (Inr (None, s'), (w', g'))))"
proof -
  have "4 dvd nat (sz * iter)" using assms(4) by (auto elim!: dvdE simp: nat_mult_distrib)
  then have "length ts = nat iter * nat sz" using assms(1,2,6) by (simp add: nat_mult_distrib mult.commute)
  then have all: "concat (map (slice_at ts (nat sz)) [0..<nat iter]) = ts" by (rule concat_slices)
  show ?thesis
  proof (intro conjI impI)
    assume run: "client_send fuel pf (traced D) sz iter s (w, g) = (Inr (None, s'), (w', g'))"
    note client_send_log [OF assms(1-5) run assms(6)]
    then show "g' = g @ concat (map (slice_events m sz ts) [0..<nat iter])" "nat sz \<le> unat (rm_size m)" by blast+
  next
    assume "linked s qp cq" "prompt (h_verbs (d_host D)) qp cq pf" "\<forall>w. fst (d_clock D w) = 0"
      "\<forall>n w. fst (d_malloc D n w)" "nat iter \<le> fuel" "nat sz \<le> unat (rm_size m)"
    then show "\<exists>s' w' g'. client_send fuel pf (traced D) sz iter s (w, g) = (Inr (None, s'), (w', g'))"
      using assms(1-5) by (intro client_send_returns) auto
  qed (rule all)
qed

definition prompt_verbs :: "nat verbs" where
  "prompt_verbs = sample_verbs\<lparr>ibv_poll_cq := (\<lambda>cq n w. (Completions (if even w then [] else [sample_wc]), Suc w))\<rparr>"

definition sample_driver :: "nat driver" where
  "sample_driver = \<lparr>d_host = simple_host prompt_verbs sample_sys, d_clock = (\<lambda>w. (0, w)), d_srand48 = (\<lambda>w. ((), w)),
     d_malloc = (\<lambda>n w. (True, w)), d_fresh = (\<lambda>i. NUL), d_order = Little, d_junk = sample_junk, d_storage = sample_session\<rparr>"

lemma prompt_sample: "prompt (h_verbs (d_host sample_driver)) \<lparr>qp_handle = 6, qp_num = 21\<rparr> 5 2"
proof -
  have "\<exists>k < 2. \<exists>w1 wc w2. empty_polls prompt_verbs 5 1 k w w1 \<and> ibv_poll_cq prompt_verbs 5 1 w1 = (Completions [wc], w2)
      \<and> wc_status wc = IBV_WC_SUCCESS" for w
  proof (cases "even w")
    case True
    then have "empty_polls prompt_verbs 5 1 1 w (Suc w)" "ibv_poll_cq prompt_verbs 5 1 (Suc w) = (Completions [sample_wc], Suc (Suc w))"
      by (simp_all add: prompt_verbs_def)
    then show ?thesis by (intro exI [of _ 1]) (auto simp: sample_wc_def)
  next
    case False
    then have "ibv_poll_cq prompt_verbs 5 1 w = (Completions [sample_wc], Suc w)" by (simp add: prompt_verbs_def)
    then show ?thesis by (intro exI [of _ 0]) (auto simp: sample_wc_def)
  qed
  then show ?thesis by (simp add: prompt_def sample_driver_def simple_host_def) (simp add: prompt_verbs_def sample_verbs_def)
qed

lemma client_sends_pattern_witness:
  "\<exists>s' w'. client_send 2 2 (traced sample_driver) 6 2 (sample_session\<lparr>send_mem := Some (task_mem write_task)\<rparr>) (0, []) = (Inr (None, s'), (w',
     [Stored 4096 ''AAAABB'', Sent (client_wr (task_mem write_task) 6),
      Stored 4096 ''BBCCCC'', Sent (client_wr (task_mem write_task) 6)]))"
proof -
  define s where "s = sample_session\<lparr>send_mem := Some (task_mem write_task)\<rparr>"
  define ts where "ts = runs 4 65 0 (nat (6 * 2) div 4)"
  have ts: "ts = ''AAAABBBBCCCC''" unfolding ts_def runs_def letter_def by code_simp
  have m: "send_mem s = Some (task_mem write_task)" "rm_buf (task_mem write_task) = 4096" "rm_size (task_mem write_task) = 65536"
    by (simp_all add: s_def write_task_def)
  note thm6 = client_sends_pattern [of 6 2 s "task_mem write_task" ts 2 2 sample_driver 0 "[]", OF _ _ _ _ m(1) ts_def]
  have l: "linked s \<lparr>qp_handle = 6, qp_num = 21\<rparr> 5"
    by (simp add: linked_def s_def sample_session_def linked_ctx_def sample_ctx_def)
  have "\<forall>w. fst (d_clock sample_driver w) = 0" "\<forall>n w. fst (d_malloc sample_driver n w)" by (simp_all add: sample_driver_def)
  then obtain s' w' g' where run: "client_send 2 2 (traced sample_driver) 6 2 s (0, []) = (Inr (None, s'), (w', g'))"
    using thm6 [of undefined undefined undefined "\<lparr>qp_handle = 6, qp_num = 21\<rparr>" 5] prompt_sample l m(3) by auto
  have "g' = concat (map (slice_events (task_mem write_task) 6 ts) [0..<2])" using thm6 [of s' w' g'] run by simp
  moreover have "[0..<2] = [0, 1::nat]" by (simp add: upt_conv_Cons)
  ultimately show ?thesis using run m(2) by (simp add: ts s_def)
qed

text \<open>
  C17. The server's check accepts exactly the client's block: on a block of \<open>n\<close> bytes, \<open>n\<close> a multiple of four, the
  client's loop fills every byte, and the server's loop goes through to its end if and only if what it is given is
  what the client's loop makes. For any other \<open>n\<close> the client's loop writes behind the block.
\<close>
theorem check_accepts_fill:
  assumes "length block = n" and "length ts = n"
  shows "if 4 dvd n then check_ts n 0 (CHR ''A'') ts = Inr None \<longleftrightarrow> fill_ts n 0 (CHR ''A'') block = Inr ts
    else fill_ts n 0 (CHR ''A'') block = Inl Undefined_behaviour"
proof (cases "4 dvd n")
  case True
  then obtain k where k: "n = 4 * k" by blast
  have "fill_ts n 0 (letter 65 0) block = Inr (runs 4 65 0 k)"
    using tsfill.fill_block [OF assms(1)] True by (simp add: k)
  moreover have "check_ts n 0 (letter 65 0) ts = Inr None \<longleftrightarrow> ts = runs 4 65 0 k"
    using check_ts_from [of ts 0 k 0] assms(2) by (simp add: k)
  ultimately show ?thesis using True by (auto simp: letter_AZ(1))
next
  case False
  then show ?thesis using tsfill.fill_overruns [OF assms(1)] by (simp add: letter_AZ(1))
qed

lemma check_accepts_fill_witness:
  "check_ts 8 0 (CHR ''A'') ''AAAABBBB'' = Inr None \<and> fill_ts 6 0 (CHR ''A'') ''abcdef'' = Inl Undefined_behaviour"
proof -
  have "fill_ts 8 0 (CHR ''A'') ''abcdefgh'' = Inr ''AAAABBBB''" by code_simp
  then have "check_ts 8 0 (CHR ''A'') ''AAAABBBB'' = Inr None"
    using check_accepts_fill [of "''abcdefgh''" 8 "''AAAABBBB''"] by simp
  moreover have "fill_ts 6 0 (CHR ''A'') ''abcdef'' = Inl Undefined_behaviour"
    using check_accepts_fill [of "''abcdef''" 6 "''abcdef''"] by (simp add: dvd_def) presburger
  ultimately show ?thesis by blast
qed

section \<open>Receiving the block\<close>

lemma server_loop_ends:
  assumes "server_loop fuel pf D bytes 0 ii ts s w = (Inr r, w')" and "0 < bytes"
  shows "r = Inl 1"
  using assms(1)
proof (induction fuel arbitrary: ii ts s w)
  case 0
  then show ?case by (simp add: fail_def)
next
  case (Suc fuel)
  from Suc.prems assms(2) obtain rcnt room s1 w1 where rd: "read pf (d_host D) ts s w = (Inr ((rcnt, room), s1), w1)"
    and rest: "(if ii then server_loop fuel pf D bytes rcnt ii room s1
        else bnd (call (d_clock D)) (\<lambda>c. if c \<noteq> 0 then ret (Inl 1) else server_loop fuel pf D bytes rcnt True room s1)) w1 = (Inr r, w')"
    by (auto simp: run_iffs Let_def)
  have "rcnt = 0" using read_returns_nothing [OF rd] by simp
  then show ?case using rest Suc.IH by (auto simp: run_iffs split: if_splits)
qed

text \<open>
  C37. The server of the benchmark never gets its data: whatever arrives, for a block that is not empty its
  receiving loop cannot come to its end, because \<open>read\<close> returns 0 each time. The only way back out is the
  return of 1 when the clock cannot be read; the check is never reached and the session never closed.
\<close>
theorem server_never_reports:
  assumes "server_recv fuel pf D sz iter s w = (Inr r, w')" and "0 < sz * iter"
  shows "r = Some 1"
proof -
  define b where "b = (of_int (sz * iter) :: size_t)"
  have small: "sz * iter < 2 ^ 31" using assms(1) by (simp add: server_recv_def int_product_def run_iffs del: of_int_mult)
  then have "unat b = nat (sz * iter)"
    using assms(2) by (simp add: b_def unsigned_of_int take_bit_int_eq_self del: of_int_mult)
  then have b: "0 < b" using assms(2) by (simp add: word_less_nat_alt)
  have "int_product sz iter w = (Inr b, w)" using small assms(2) by (simp add: int_product_def b_def prog_simps del: of_int_mult)
  with assms(1) consider "r = Some 1"
    | ts w1 x w2 where "server_loop fuel pf D b 0 False ts s w1 = (Inr x, w2)"
        and "(case x of Inl v \<Rightarrow> ret (Some v) | Inr (ts, s) \<Rightarrow>
          bnd (call (d_clock D)) (\<lambda>c. if c \<noteq> 0 then ret (Some 1) else
          bnd (pure_prog (check_ts (unat b) 0 (CHR ''A'') ts)) (\<lambda>v.
          if v \<noteq> None then ret (Some 0) else bnd (close (d_host D) s) (\<lambda>_. ret None)))) w2 = (Inr r, w')"
    unfolding server_recv_def bnd_Inr_iff by (elim exE conjE) (auto simp: call_Inr_iff pure_prog_Inr_iff ret_Inr_iff bnd_Inr_iff split: if_splits)
  then show ?thesis
  proof cases
    case 2
    then show ?thesis using server_loop_ends [OF 2(1) b] by (simp add: ret_Inr_iff)
  qed
qed

lemma server_never_reports_witness:
  "fst (server_recv (Suc 0) 3 (sample_driver\<lparr>d_clock := (\<lambda>w. (int w, Suc w))\<rparr>) 4 1 sample_session 0) = Inr (Some 1)
    \<and> (0 :: int) < 4 * 1"
proof -
  define D where "D = sample_driver\<lparr>d_clock := (\<lambda>w. (int w, Suc w))\<rparr>"
  have q: "query 3 (d_host D) n sample_session w = (Inr (- 1, sample_session), w)" for n w
    by (simp add: query_def prog_simps rdma_query_cq_bad_flag store_wcs_def sample_session_def)
  have rd: "read 3 (d_host D) room sample_session w = (Inr ((0, room), sample_session), w)" for room w
  proof -
    have f: "recv_mem sample_session = Some [Some (task_mem write_task), Some (task_mem write_task)]" "rbuf sample_session = Some 4096"
      "recv_index sample_session = 0" "recv_nums sample_session = 2" "sample_session\<lparr>recv_index := 0\<rparr> = sample_session"
      by (simp_all add: sample_session_def)
    have "mem_load (d_host D) = (\<lambda>_ n w. (replicate n NUL, w))" by (simp add: D_def sample_driver_def simple_host_def)
    then show ?thesis
      by (simp add: read_def q f prog_simps elem_at_def read_completions_def read_tail_def start_of_def buf_offsets_def)
  qed
  have fresh: "d_malloc D = (\<lambda>n w. (True, w))" "d_fresh D = (\<lambda>i. NUL)" "d_clock D = (\<lambda>w. (int w, Suc w))"
    by (simp_all add: D_def sample_driver_def)
  have "server_recv (Suc 0) 3 D 4 1 sample_session 0 = (Inr (Some 1), 2)"
    by (simp add: server_recv_def int_product_def new_block_def fresh memcpy_at_def rd Let_def prog_simps)
  then show ?thesis using server_never_reports [of "Suc 0" 3 D 4 1 sample_session 0 "Some 1" 2] by (simp add: D_def)
qed

end
