(* ===== verification/BlockDrivers.thy ===== *)
theory BlockDrivers
  imports BenchDriver
begin

text \<open>
  \<open>debug/cpyread.cpp\<close>, \<open>debug/regread.cpp\<close> and \<open>debug/migration.cpp\<close>: three senders that offer a peer the
  contents of a large block. The first copies it through the registered block of the connection, the second
  registers it piece by piece and publishes the keys, the third copies its standard input.

  The programs call \<open>send_blocking\<close> and \<open>roce_name\<close>, which the session class does not have; both are parameters,
  \<open>blocking\<close> and \<open>roce\<close>, about which nothing is assumed. \<open>tg\<close> and \<open>RW_SIZE\<close> are arguments where a loop depends
  on them, with the value of the source in \<open>main\<close>. Timing and output are treated as in theory BenchDriver.
\<close>

section \<open>What the programs share\<close>

abbreviation tg_size :: size_t where
  "tg_size \<equiv> 2 * (1024 * 1024 * 1024)"

definition next_az :: "char \<Rightarrow> char" where
  "next_az ch = (if ch = CHR ''z'' then CHR ''a'' else char_of (of_char ch + 1 :: nat))"

text \<open>The loop of \<open>init_mem\<close>, which is the same in two programs.\<close>

function fill_az :: "nat \<Rightarrow> nat \<Rightarrow> char \<Rightarrow> bytes \<Rightarrow> fault + bytes" where
  "fill_az n i ch mem =
     (if i < n then sbnd (memcpy_at mem i (replicate 128 ch)) (fill_az n (i + 128) (next_az ch)) else Inr mem)"
  by pat_completeness auto
termination by (relation "measure (\<lambda>(n, i, ch, mem). n - i)") auto

declare fill_az.simps [simp del]

text \<open>What \<open>connect\<close> does in each program; they differ in how they choose the device and in the size.\<close>

definition block_params :: "size_t \<Rightarrow> string \<Rightarrow> init_params" where
  "block_params sz dev = params_zero\<lparr>p_mem_size := sz, p_ib_devname := Some dev, p_gidx := 0\<rparr>"

definition open_session :: "nat \<Rightarrow> 'w driver \<Rightarrow> rdma_session \<Rightarrow> ('w, string) prog \<Rightarrow> string \<Rightarrow> size_t \<Rightarrow> ('w, rdma_session) prog" where
  "open_session pf D storage device url sz =
     bnd device (\<lambda>dev.
     bnd (call (d_srand48 D)) (\<lambda>_.
     bnd (session_connect pf (d_host D) (d_order D) (d_junk D) storage url 18185 (block_params sz dev)) (\<lambda>(s, _). ret s)))"

text \<open>\<open>get_rw_buf()\<close>: the block that is registered for the peer.\<close>

definition get_rw_buf :: "rdma_session \<Rightarrow> ('w, rdma_mem) prog" where
  "get_rw_buf s = bnd (deref (s_ctx s)) (\<lambda>ctx. deref (ctx_rw ctx))"

text \<open>\<open>send_blocking(data, strlen(data)+1)\<close> and the answer of \<open>strcmp\<close> with a string.\<close>

type_synonym 'w blocking = "bytes \<Rightarrow> rdma_session \<Rightarrow> ('w, int \<times> rdma_session) prog"

definition sprint_d :: "int \<Rightarrow> bytes \<Rightarrow> fault + bytes" where
  "sprint_d i data = memcpy_at data 0 (print_d i @ [NUL])"

section \<open>cpyread\<close>

definition cpy_init_mem :: "'w driver \<Rightarrow> size_t \<Rightarrow> ('w, bytes) prog" where
  "cpy_init_mem D tg = bnd (new_block D tg) (\<lambda>block. pure_prog (fill_az (unat tg) 0 (CHR ''a'') block))"

definition cpy_connect :: "nat \<Rightarrow> 'w driver \<Rightarrow> string \<Rightarrow> int \<Rightarrow> ('w, rdma_session) prog" where
  "cpy_connect pf D url sz =
     open_session pf D (d_storage D) (get_device (h_verbs (d_host D)) ''Ethernet'') url (of_int sz)"

definition move :: "'w host \<Rightarrow> size_t \<Rightarrow> rdma_mem \<Rightarrow> bytes \<Rightarrow> int \<Rightarrow> int \<Rightarrow> ('w, unit) prog" where
  "move H tg dest src cur sz =
     (let index = (of_int cur :: size_t) mod tg; n = unat (of_int sz :: size_t) in
      bnd (pure_prog (read_at src (unat index) n)) (\<lambda>bs.
      bnd (defined (n \<le> unat (rm_size dest))) (\<lambda>_. call (mem_store H (rm_buf dest) bs))))"

text \<open>The loop of \<open>main\<close>; its result is \<open>cur\<close>, the number of bytes that the peer has acknowledged.\<close>

fun cpy_loop :: "nat \<Rightarrow> nat \<Rightarrow> 'w host \<Rightarrow> 'w blocking \<Rightarrow> size_t \<Rightarrow> int \<Rightarrow> bytes \<Rightarrow> int \<Rightarrow> bytes \<Rightarrow> int \<Rightarrow> rdma_session \<Rightarrow>
    ('w, int \<times> rdma_session) prog" where
  "cpy_loop 0 pf H blocking tg all ptr ss data cur s = fail Out_of_fuel"
| "cpy_loop (Suc fuel) pf H blocking tg all ptr ss data cur s =
     (if cur < all then
        bnd (get_rw_buf s) (\<lambda>rw.
        bnd (move H tg rw ptr cur ss) (\<lambda>_.
        bnd (pure_prog (sprint_d ss data)) (\<lambda>data.
        bnd (blocking (c_string data @ [NUL]) s) (\<lambda>(_, s).
        bnd (read pf H data s) (\<lambda>((_, data), s).
        if c_string data \<noteq> ''done'' then ret (cur, s)
        else
          bnd (if posted_recv s < 1000 then post_recv H 15000 s else ret (0, s)) (\<lambda>(_, s).
          cpy_loop fuel pf H blocking tg all ptr ss data (cur + ss) s))))))
      else ret (cur, s))"

definition cpy_main :: "nat \<Rightarrow> nat \<Rightarrow> 'w driver \<Rightarrow> 'w blocking \<Rightarrow> int \<Rightarrow> ('w, int) prog" where
  "cpy_main fuel pf D blocking ss =
     (let H = d_host D in
      bnd (call (d_malloc D (of_int ss))) (\<lambda>_.
      bnd (cpy_init_mem D tg_size) (\<lambda>ptr.
      bnd (cpy_connect pf D ''192.168.1.3'' ss) (\<lambda>s.
      bnd (deref (s_ctx s)) (\<lambda>_.
      bnd (call (d_clock D)) (\<lambda>c.
      if c \<noteq> 0 then ret 1 else
      bnd (cpy_loop fuel pf H blocking tg_size (2 * 1073741824) ptr ss (map (d_fresh D) [0..<20]) 0 s) (\<lambda>(_, s).
      bnd (blocking (''0'' @ [NUL]) s) (\<lambda>(_, s).
      bnd (call (d_clock D)) (\<lambda>c.
      if c \<noteq> 0 then ret 1 else bnd (close H s) (\<lambda>_. ret 0))))))))))"

section \<open>regread\<close>

text \<open>
  The block is filled before any part of it is registered, so the stores are put together. \<open>d_fresh\<close> is
  what it holds before.
\<close>

definition reg_init_mem :: "'w driver \<Rightarrow> size_store \<Rightarrow> size_t \<Rightarrow> ('w, u64 \<times> size_store) prog" where
  "reg_init_mem D store tg =
     bnd (malloc_huge_pages (h_mem (d_host D)) store tg) (\<lambda>(p, store).
     bnd (deref p) (\<lambda>base.
     bnd (pure_prog (fill_az (unat tg) 0 (CHR ''a'') (map (d_fresh D) [0..<unat tg]))) (\<lambda>bs.
     bnd (call (mem_store (d_host D) base bs)) (\<lambda>_. ret (base, store)))))"

text \<open>\<open>connect\<close>; the sizes that \<open>malloc_huge_pages\<close> has stored so far are in \<open>store\<close>.\<close>

definition reg_connect :: "nat \<Rightarrow> 'w driver \<Rightarrow> size_store \<Rightarrow> string \<Rightarrow> int \<Rightarrow> ('w, rdma_session) prog" where
  "reg_connect pf D store url sz =
     open_session pf D ((d_storage D)\<lparr>s_store := store\<rparr>) (get_device (h_verbs (d_host D)) ''IB'') url (of_int sz)"

text \<open>
  \<open>reg_memory\<close>: register the block in pieces of \<open>bs\<close> bytes and print a key for each into the block \<open>data\<close>, which
  \<open>sprintf\<close> must not leave. \<open>mems\<close> has \<open>num\<close> elements. \<open>Inl 1\<close> is \<open>exit(1)\<close>.
\<close>

fun reg_memory :: "nat \<Rightarrow> 'w host \<Rightarrow> nat \<Rightarrow> size_t \<Rightarrow> rdma_session \<Rightarrow> u64 \<Rightarrow> rdma_mem \<Rightarrow> int \<Rightarrow> size_t \<Rightarrow> rdma_mem list \<Rightarrow>
    ('w, int + rdma_mem list) prog" where
  "reg_memory 0 H num tg s ptr data bs cur mems = fail Out_of_fuel"
| "reg_memory (Suc fuel) H num tg s ptr data bs cur mems =
     (if cur < tg then
        bnd (defined (length mems < num)) (\<lambda>_.
        bnd (reg_mem_block H s (ptr + cur) (of_int bs)) (\<lambda>e.
        case e of None \<Rightarrow> ret (Inl 1) | Some m \<Rightarrow>
        let i = 25 * length mems; text = rw_entry (mr_addr (rm_mr m), mr_rkey (rm_mr m)) @ [NUL] in
        bnd (defined (i + length text \<le> unat (rm_size data))) (\<lambda>_.
        bnd (call (mem_store H (rm_buf data + of_nat i) text)) (\<lambda>_.
        reg_memory fuel H num tg s ptr data bs (cur + of_int bs) (mems @ [m])))))
      else ret (Inr mems))"

fun dereg_memory :: "'w host \<Rightarrow> rdma_mem list \<Rightarrow> nat list \<Rightarrow> ('w, unit) prog" where
  "dereg_memory H mems [] = ret ()"
| "dereg_memory H mems (i # is) =
     bnd (elem_at mems i) (\<lambda>m. bnd (rdma_dereg_mr (h_verbs H) (h_sys H) (Some m)) (\<lambda>_. dereg_memory H mems is))"

text \<open>
  Division of the language rounds towards zero, and storing a \<open>long\<close> in an \<open>int\<close> keeps the low 32 bits.
\<close>

definition piece_count :: "int \<Rightarrow> int \<Rightarrow> ('w, int) prog" where
  "piece_count all ss =
     bnd (defined (ss \<noteq> 0)) (\<lambda>_. ret (sint (of_int (sgn ss * (all div \<bar>ss\<bar>)) :: u32)))"

text \<open>
  \<open>main\<close>. The comparison of \<open>data\<close> with \<open>done\<close> only decides about a message. The array for the
  registrations is null when there is no memory for it.
\<close>

definition reg_main :: "nat \<Rightarrow> nat \<Rightarrow> 'w driver \<Rightarrow> 'w blocking \<Rightarrow> int \<Rightarrow> ('w, int) prog" where
  "reg_main fuel pf D blocking ss =
     (let H = d_host D in
      bnd (call (d_malloc D (of_int ss))) (\<lambda>_.
      bnd (reg_init_mem D (s_store (d_storage D)) tg_size) (\<lambda>(ptr, store).
      bnd (piece_count (2 * 1073741824) ss) (\<lambda>num.
      let len = num * 25 in
      bnd (defined (- (2 ^ 31) \<le> len \<and> len < 2 ^ 31)) (\<lambda>_.
      bnd (reg_connect pf D store ''192.168.1.88'' len) (\<lambda>s.
      bnd (deref (s_ctx s)) (\<lambda>_.
      bnd (call (d_clock D)) (\<lambda>c.
      if c \<noteq> 0 then ret 1 else
      bnd (call (d_malloc D (8 * of_int num))) (\<lambda>ok.
      bnd (get_rw_buf s) (\<lambda>data.
      bnd (reg_memory fuel H (if ok then nat num else 0) tg_size s ptr data ss 0 []) (\<lambda>x.
      case x of Inl r \<Rightarrow> ret r | Inr mems \<Rightarrow>
      bnd (pure_prog (sprint_d len (map (d_fresh D) [0..<20]))) (\<lambda>head.
      bnd (blocking (c_string head @ [NUL]) s) (\<lambda>(_, s).
      bnd (read pf H (map (d_fresh D) [0..<20]) s) (\<lambda>(_, s).
      bnd (call (d_clock D)) (\<lambda>c.
      if c \<noteq> 0 then ret 1 else
      bnd (dereg_memory H mems [0..<nat num]) (\<lambda>_.
      bnd (close H s) (\<lambda>_.
      bnd (free_huge_pages (h_mem H) (s_store s) (Some ptr)) (\<lambda>_. ret 0))))))))))))))))))"

section \<open>migration\<close>

abbreviation RW_SIZE :: int where
  "RW_SIZE \<equiv> 1073741824"

text \<open>\<open>collect\<close>: read standard input to its end, or until the block at \<open>pool\<close> is full.\<close>

fun collect :: "nat \<Rightarrow> 'w host \<Rightarrow> int \<Rightarrow> u64 \<Rightarrow> int \<Rightarrow> ('w, int) prog" where
  "collect 0 H rw_size pool r = fail Out_of_fuel"
| "collect (Suc fuel) H rw_size pool r =
     bnd (call (sys_read (h_sys H) 0 (nat (rw_size - r)))) (\<lambda>(tmp, bs).
     if tmp > 0 then bnd (call (mem_store H (pool + of_int r) bs)) (\<lambda>_. collect fuel H rw_size pool (r + tmp))
     else if tmp = 0 then ret r
     else ret (- 1))"

text \<open>The loop of \<open>main\<close>: announce a block on the socket and wait for the peer's answer.\<close>

fun mig_loop :: "nat \<Rightarrow> nat \<Rightarrow> 'w host \<Rightarrow> int \<Rightarrow> int \<Rightarrow> bytes \<Rightarrow> rdma_session \<Rightarrow> ('w, unit) prog" where
  "mig_loop 0 cf H rw_size fd data s = fail Out_of_fuel"
| "mig_loop (Suc fuel) cf H rw_size fd data s =
     bnd (get_rw_buf s) (\<lambda>rw.
     bnd (collect cf H rw_size (rm_buf rw) 0) (\<lambda>sz.
     if sz = 0 \<or> sz = - 1 then ret () else
     bnd (pure_prog (sprint_d sz data)) (\<lambda>data.
     bnd (call (sys_write (h_sys H) fd (c_string data @ [NUL]))) (\<lambda>_.
     bnd (call (sys_read (h_sys H) fd 10)) (\<lambda>(_, bs).
     bnd (pure_prog (memcpy_at data 0 bs)) (\<lambda>data.
     if c_string data \<noteq> ''done'' then ret ()
     else mig_loop fuel cf H rw_size fd data s))))))"

definition mig_connect :: "nat \<Rightarrow> 'w driver \<Rightarrow> ('w, string) prog \<Rightarrow> string \<Rightarrow> ('w, rdma_session) prog" where
  "mig_connect pf D roce url = open_session pf D (d_storage D) roce url (of_int RW_SIZE)"

definition mig_main :: "nat \<Rightarrow> nat \<Rightarrow> nat \<Rightarrow> 'w driver \<Rightarrow> ('w, string) prog \<Rightarrow> ('w, int) prog" where
  "mig_main fuel cf pf D roce =
     bnd (mig_connect pf D roce ''192.168.1.3'') (\<lambda>s.
     bnd (deref (s_ctx s)) (\<lambda>ctx.
     bnd (mig_loop fuel cf (d_host D) RW_SIZE (ctx_fd ctx) (map (d_fresh D) [0..<20]) s) (\<lambda>_.
     bnd (call (sys_write (h_sys (d_host D)) (ctx_fd ctx) (''0'' @ [NUL]))) (\<lambda>_.
     bnd (close (d_host D) s) (\<lambda>_. ret 0)))))"

section \<open>The block\<close>

lemma letter_az: "letter 97 0 = CHR ''a''" "next_az (letter 97 j) = letter 97 (Suc j)"
proof -
  show "letter 97 0 = CHR ''a''" by (simp add: letter_def) code_simp
  have z: "of_char (CHR ''z'') = (122 :: nat)" and a: "char_of (97 :: nat) = CHR ''a''" by code_simp+
  have n: "of_char (letter 97 j) = (97 + j mod 26 :: nat)" by (simp add: letter_def)
  have "letter 97 j = CHR ''z'' \<longleftrightarrow> (of_char (letter 97 j) :: nat) = of_char (CHR ''z'')" by (simp only: of_char_eq_iff)
  then have "letter 97 j = CHR ''z'' \<longleftrightarrow> j mod 26 = 25" by (simp add: n z)
  then show "next_az (letter 97 j) = letter 97 (Suc j)"
    using a n by (auto simp: next_az_def letter_def mod_Suc)
qed

interpretation azfill: run_filler fill_az 128 97 next_az
  by unfold_locales (simp, rule fill_az.simps, rule letter_az(2))

lemma cpy_init_mem_fills:
  assumes "fst (d_malloc D tg w)" and "128 dvd unat tg"
  shows "cpy_init_mem D tg w = (Inr (runs 128 97 0 (unat tg div 128)), snd (d_malloc D tg w))"
  using azfill.fill_block [of "map (d_fresh D) [0..<unat tg]" "unat tg"] assms
  by (simp add: cpy_init_mem_def new_block_def prog_simps letter_az(1))

section \<open>cpyread gives up\<close>

lemma print_d_chars: "c \<in> set (print_d i) \<Longrightarrow> c = CHR ''-'' \<or> is_digit 10 c"
  using digits_all_digits [of 10 c] by (auto simp: print_d_def split: if_splits)

lemma print_d_text: "NUL \<notin> set (print_d i)" "print_d i \<noteq> ''done''"
proof -
  show "NUL \<notin> set (print_d i)" using print_d_chars [of NUL i] digit_not_NUL by auto
  have "\<not> is_digit 10 (CHR ''d'')" by code_simp
  then show "print_d i \<noteq> ''done''" using print_d_chars [of "CHR ''d''" i] by auto
qed

lemma sprint_d_text: "sprint_d i data = Inr d \<Longrightarrow> c_string d = print_d i"
  by (auto simp: sprint_d_def memcpy_at_def c_string_append_NUL print_d_text split: if_splits)

text \<open>Two programs that agree on what can happen before them agree.\<close>

lemma bnd_agree: "(\<And>x w1. m w = (Inr x, w1) \<Longrightarrow> f x w1 = g x w1) \<Longrightarrow> bnd m f w = bnd m g w"
  by (simp add: bnd_def split: prod.split sum.split)

text \<open>What the loop does in its first round, when no answer comes.\<close>

definition one_round :: "nat \<Rightarrow> 'w host \<Rightarrow> 'w blocking \<Rightarrow> size_t \<Rightarrow> bytes \<Rightarrow> int \<Rightarrow> bytes \<Rightarrow> int \<Rightarrow> rdma_session \<Rightarrow>
    ('w, int \<times> rdma_session) prog" where
  "one_round pf H blocking tg ptr ss data cur s =
     bnd (get_rw_buf s) (\<lambda>rw.
     bnd (move H tg rw ptr cur ss) (\<lambda>_.
     bnd (pure_prog (sprint_d ss data)) (\<lambda>data.
     bnd (blocking (print_d ss @ [NUL]) s) (\<lambda>(_, s).
     bnd (read pf H data s) (\<lambda>(_, s). ret (cur, s))))))"

text \<open>
  C36. \<open>cpyread\<close> never gets beyond its first block. Whatever \<open>send_blocking\<close> does and whatever the peer answers, the
  answer does not reach \<open>data\<close>, which still holds the size that was printed into it, so the comparison with
  \<open>done\<close> fails: the loop is one round, in which the block is copied, its size is sent and a read is tried, and it
  leaves \<open>cur\<close> where it was. One unit of fuel is enough.
\<close>
theorem cpyread_one_round:
  assumes "cur < all"
  shows "cpy_loop (Suc fuel) pf H blocking tg all ptr ss data cur s w = one_round pf H blocking tg ptr ss data cur s w"
  unfolding one_round_def cpy_loop.simps if_P [OF assms]
proof (intro bnd_agree)
  fix d and w1 w2 :: 'a
  assume "pure_prog (sprint_d ss data) w1 = (Inr d, w2)"
  then have d: "c_string d = print_d ss" by (auto simp: pure_prog_Inr_iff sprint_d_text)
  have "bnd (read pf H d s') (\<lambda>((_, data), s). if c_string data \<noteq> ''done'' then ret (cur, s) else k data s)
      = bnd (read pf H d s') (\<lambda>(_, s). ret (cur, s))" for s' and k :: "bytes \<Rightarrow> rdma_session \<Rightarrow> ('a, int \<times> rdma_session) prog"
    by (intro ext bnd_agree) (auto simp: d print_d_text dest!: read_returns_nothing)
  then show "bnd (blocking (c_string d @ [NUL]) s) (\<lambda>(_, s). bnd (read pf H d s) (\<lambda>((_, data), s).
      if c_string data \<noteq> ''done'' then ret (cur, s)
      else bnd (if posted_recv s < 1000 then post_recv H 15000 s else ret (0, s)) (\<lambda>(_, s).
        cpy_loop fuel pf H blocking tg all ptr ss data (cur + ss) s))) w2
    = bnd (blocking (print_d ss @ [NUL]) s) (\<lambda>(_, s). bnd (read pf H d s) (\<lambda>(_, s). ret (cur, s))) w2"
    by (simp only: d)
qed

definition rw_session :: rdma_session where
  "rw_session = sample_session\<lparr>s_ctx := Some (linked_ctx\<lparr>ctx_rw := Some (task_mem write_task)\<rparr>)\<rparr>"

lemma cpyread_one_round_witness:
  "(0 :: int) < 256 \<and> cpy_loop (Suc (Suc 0)) 1 (simple_host two_acks sample_sys) (\<lambda>bs s. ret (0, s)) 256 256
     (replicate 256 (CHR ''a'')) 128 (replicate 20 NUL) 0 rw_session 0 = (Inr (0, rw_session), 0)"
proof -
  define H where "H = simple_host two_acks sample_sys"
  have f: "s_ctx rw_session = Some (linked_ctx\<lparr>ctx_rw := Some (task_mem write_task)\<rparr>)" "s_wc rw_session = []"
    "recv_mem rw_session = Some [Some (task_mem write_task), Some (task_mem write_task)]" "rbuf rw_session = Some 4096"
    "recv_index rw_session = 0" "recv_nums rw_session = 2" "rw_session\<lparr>recv_index := 0\<rparr> = rw_session"
    "rw_session\<lparr>s_wc := []\<rparr> = rw_session" "rm_size (task_mem write_task) = 65536"
    by (simp_all add: rw_session_def sample_session_def write_task_def)
  have m: "mem_load H = (\<lambda>_ n w. (replicate n NUL, w))" "mem_store H = (\<lambda>_ _ w. ((), w))" by (simp_all add: H_def simple_host_def)
  have q: "query 1 H n rw_session w = (Inr (- 1, rw_session), w)" for n w
    by (simp add: query_def prog_simps rdma_query_cq_bad_flag store_wcs_def f)
  have rd: "read 1 H room rw_session w = (Inr ((0, room), rw_session), w)" for room w
    by (simp add: read_def q f m prog_simps elem_at_def read_completions_def read_tail_def start_of_def buf_offsets_def
        del: One_nat_def)
  have d: "sprint_d 128 (replicate 20 NUL) = Inr (''128'' @ replicate 17 NUL)" unfolding sprint_d_def print_d_def by code_simp
  have "one_round 1 H (\<lambda>bs s. ret (0, s)) 256 (replicate 256 (CHR ''a'')) 128 (replicate 20 NUL) 0 rw_session 0 = (Inr (0, rw_session), 0)"
    by (simp add: one_round_def get_rw_buf_def f move_def Let_def m d rd read_at_def prog_simps del: One_nat_def)
  then show ?thesis
    using cpyread_one_round [of 0 256 "Suc 0" 1 H "\<lambda>bs s. ret (0, s)" 256 "replicate 256 (CHR ''a'')" 128 "replicate 20 NUL" rw_session 0]
    by (simp only: H_def) simp
qed

section \<open>Collecting standard input\<close>

text \<open>
  What \<open>read\<close> promises of standard input, whose unread part is \<open>rest\<close>: some of what is left, not more than was
  asked for, and nothing only at the end of the input or when nothing was asked for. Stores to memory do not
  touch it.
\<close>

definition stdin_ok :: "'w host \<Rightarrow> ('w \<Rightarrow> bytes) \<Rightarrow> bool" where
  "stdin_ok H rest \<longleftrightarrow>
     (\<forall>n w. \<exists>k w'. sys_read (h_sys H) 0 n w = ((int k, take k (rest w)), w') \<and> k \<le> n \<and> k \<le> length (rest w)
        \<and> (k = 0 \<longrightarrow> n = 0 \<or> rest w = []) \<and> rest w' = drop k (rest w))
   \<and> (\<forall>a bs w. rest (snd (mem_store H a bs w)) = rest w)"

lemma stdin_read:
  assumes "stdin_ok H rest"
  obtains k w' where "sys_read (h_sys H) 0 n w = ((int k, take k (rest w)), w')" and "k \<le> n" and "k \<le> length (rest w)"
    and "k = 0 \<longrightarrow> n = 0 \<or> rest w = []" and "rest w' = drop k (rest w)"
  using assms unfolding stdin_ok_def by (elim conjE allE [of _ n] allE [of _ w] exE) (rule that)

text \<open>The bytes that a row of stores lays down from an address on.\<close>

fun laid :: "u64 \<Rightarrow> wire_event list \<Rightarrow> bytes option" where
  "laid a [] = Some []"
| "laid a (Stored b bs # evs) = (if b = a then map_option ((@) bs) (laid (a + of_nat (length bs)) evs) else None)"
| "laid a (_ # evs) = None"

lemma collect_from:
  assumes "stdin_ok H rest" and "r \<le> n" and "min (n - r) (length (rest w)) < fuel"
  shows "\<exists>w' evs. collect fuel (traced_host H) (int n) pool (int r) (w, g)
      = (Inr (int (r + min (n - r) (length (rest w)))), (w', g @ evs))
    \<and> laid (pool + of_nat r) evs = Some (take (n - r) (rest w)) \<and> rest w' = drop (n - r) (rest w)"
  using assms(2,3)
proof (induction fuel arbitrary: r w g)
  case 0
  then show ?case by simp
next
  case (Suc fuel)
  obtain k w1 where rd: "sys_read (h_sys H) 0 (n - r) w = ((int k, take k (rest w)), w1)" and k: "k \<le> n - r" "k \<le> length (rest w)"
    "k = 0 \<longrightarrow> n - r = 0 \<or> rest w = []" and w1: "rest w1 = drop k (rest w)"
    by (rule stdin_read [OF assms(1)])
  have n: "nat (int n - int r) = n - r" by simp
  show ?case
  proof (cases "k = 0")
    case True
    then show ?thesis using rd k w1 by (intro exI [of _ w1] exI [of _ "[]"]) (auto simp: prog_simps watch_simps n)
  next
    case False
    define w2 where "w2 = snd (mem_store H (pool + of_nat r) (take k (rest w)) w1)"
    have w2: "rest w2 = drop k (rest w)" using assms(1) w1 by (simp add: stdin_ok_def w2_def)
    have "r + k \<le> n" "min (n - (r + k)) (length (rest w2)) < fuel" using k False Suc.prems by (auto simp: w2)
    from Suc.IH [OF this, of "g @ [Stored (pool + of_nat r) (take k (rest w))]"] obtain w' evs
      where IH: "collect fuel (traced_host H) (int n) pool (int (r + k)) (w2, g @ [Stored (pool + of_nat r) (take k (rest w))])
          = (Inr (int (r + k + min (n - (r + k)) (length (rest w2)))), (w', (g @ [Stored (pool + of_nat r) (take k (rest w))]) @ evs))"
        "laid (pool + of_nat (r + k)) evs = Some (take (n - (r + k)) (rest w2))" "rest w' = drop (n - (r + k)) (rest w2)"
      by blast
    have "collect (Suc fuel) (traced_host H) (int n) pool (int r) (w, g)
        = (Inr (int (r + min (n - r) (length (rest w)))), (w', g @ Stored (pool + of_nat r) (take k (rest w)) # evs))"
      using rd False IH(1) k by (simp add: prog_simps watch_simps n w2 min_def flip: w2_def) linarith
    moreover have nk: "k + (n - (r + k)) = n - r" using k by simp
    then have "laid (pool + of_nat r) (Stored (pool + of_nat r) (take k (rest w)) # evs) = Some (take (n - r) (rest w))"
      using IH(2) k take_add [of k "n - (r + k)" "rest w"] by (simp add: w2 min_absorb2 add.assoc del: take_append)
    moreover have "rest w' = drop (n - r) (rest w)" using IH(3) nk by (simp add: w2 add.commute)
    ultimately show ?thesis by blast
  qed
qed

text \<open>
  The peer on socket \<open>fd\<close> answers \<open>done\<close> to everything, and talking to it does not touch standard input.
\<close>

definition peer_ok :: "'w host \<Rightarrow> ('w \<Rightarrow> bytes) \<Rightarrow> int \<Rightarrow> bool" where
  "peer_ok H rest fd \<longleftrightarrow>
     (\<forall>w. \<exists>w'. sys_read (h_sys H) fd 10 w = ((5, ''done'' @ [NUL]), w') \<and> rest w' = rest w)
   \<and> (\<forall>bs w. rest (snd (sys_write (h_sys H) fd bs w)) = rest w)"

text \<open>
  A log in which a byte string is offered block by block: each block is laid down at \<open>pool\<close> and its size is
  announced, before the next one overwrites it.
\<close>

inductive offered :: "u64 \<Rightarrow> int \<Rightarrow> nat \<Rightarrow> wire_event list \<Rightarrow> bytes \<Rightarrow> bool" for pool fd n where
  offered_end: "offered pool fd n [] []"
| offered_block: "laid pool evs = Some b \<Longrightarrow> b \<noteq> [] \<Longrightarrow> length b \<le> n \<Longrightarrow> offered pool fd n log bs \<Longrightarrow>
    offered pool fd n (evs @ Written fd (print_d (int (length b)) @ [NUL]) # log) (b @ bs)"

lemma print_d_length:
  assumes "0 \<le> i" and "i < 2 ^ 31"
  shows "length (print_d i) \<le> 10"
proof -
  have "nat i < 10 ^ 10" using assms by simp
  then show ?thesis using assms(1) length_digits_le_iff [of 10 "nat i" 9] by (simp add: print_d_def)
qed

lemma announce:
  assumes "length data = 20" and "0 \<le> i" and "i < 2 ^ 31"
  obtains d d' where "sprint_d i data = Inr d" and "c_string d = print_d i" and "memcpy_at d 0 (''done'' @ [NUL]) = Inr d'"
    and "c_string d' = ''done''" and "length d' = 20"
proof -
  obtain d where d: "sprint_d i data = Inr d" "length d = 20"
    using print_d_length [OF assms(2,3)] assms(1) by (simp add: sprint_d_def memcpy_at_def)
  moreover have "memcpy_at d 0 (''done'' @ [NUL]) = Inr (''done'' @ NUL # drop 5 d)" using d(2) by (simp add: memcpy_at_def numeral_eq_Suc)
  moreover have "c_string (''done'' @ NUL # drop 5 d) = ''done''" by (rule c_string_append_NUL) simp
  moreover have "length (''done'' @ NUL # drop 5 d) = 20" using d(2) by simp
  ultimately show ?thesis using sprint_d_text [OF d(1)] by (intro that)
qed

text \<open>The two kinds of round: nothing is left, or a block is laid down, announced and acknowledged.\<close>

lemma mig_loop_end:
  assumes "stdin_ok H rest" and "get_rw_buf s (w, g) = (Inr rw, (w, g))" and "rest w = []"
  shows "\<exists>w'. mig_loop (Suc fuel) (Suc cf) (traced_host H) (int n) fd data s (w, g) = (Inr (), (w', g)) \<and> rest w' = []"
proof -
  obtain w1 where "sys_read (h_sys H) 0 n w = ((0, []), w1)" "rest w1 = []"
    by (rule stdin_read [OF assms(1), of n w]) (use assms(3) in simp)
  then show ?thesis using assms(2) by (simp add: prog_simps watch_simps)
qed

lemma mig_loop_round:
  assumes "stdin_ok H rest" and "peer_ok H rest fd" and "get_rw_buf s (w, g) = (Inr rw, (w, g))" and "rest w \<noteq> []"
    and "0 < n" and "n < 2 ^ 31" and "n < cf" and "length data = 20"
  obtains d' w3 evs where
    "mig_loop (Suc fuel) cf (traced_host H) (int n) fd data s (w, g) = mig_loop fuel cf (traced_host H) (int n) fd d' s
       (w3, g @ evs @ [Written fd (print_d (int (length (take n (rest w)))) @ [NUL])])"
    "laid (rm_buf rw) evs = Some (take n (rest w))" "rest w3 = drop n (rest w)" "length d' = 20"
proof -
  define m where "m = length (take n (rest w))"
  have "min (n - 0) (length (rest w)) < cf" using assms(7) by simp
  from collect_from [OF assms(1) le0 this, of "rm_buf rw" g] obtain w1 evs where
    col: "collect cf (traced_host H) (int n) (rm_buf rw) 0 (w, g) = (Inr (int m), (w1, g @ evs))"
    and evs: "laid (rm_buf rw) evs = Some (take n (rest w))" and w1: "rest w1 = drop n (rest w)"
    by (auto simp: m_def min.commute [of n])
  have m: "0 < m" "int m < 2 ^ 31" using assms(4-6) by (auto simp: m_def min_less_iff_disj)
  obtain d d' where d: "sprint_d (int m) data = Inr d" "c_string d = print_d (int m)" "memcpy_at d 0 (''done'' @ [NUL]) = Inr d'"
    "c_string d' = ''done''" "length d' = 20"
    using announce [OF assms(8) _ m(2)] by auto
  define w2 where "w2 = snd (sys_write (h_sys H) fd (print_d (int m) @ [NUL]) w1)"
  obtain w3 where w3: "sys_read (h_sys H) fd 10 w2 = ((5, ''done'' @ [NUL]), w3)" "rest w3 = drop n (rest w)"
    using assms(2) w1 unfolding peer_ok_def w2_def by metis
  have "mig_loop (Suc fuel) cf (traced_host H) (int n) fd data s (w, g) = mig_loop fuel cf (traced_host H) (int n) fd d' s
      (w3, g @ evs @ [Written fd (print_d (int m) @ [NUL])])"
    using m(1) d w3(1) by (simp add: assms(3) col prog_simps watch_simps flip: w2_def)
  then show ?thesis using that evs w3(2) d(5) unfolding m_def by blast
qed

text \<open>
  C16. \<open>migration\<close> hands its whole input to the peer: with a standard input that behaves as documented and a peer
  that acknowledges each block, the loop of \<open>main\<close> ends at the end of the input, and what it has offered, block by
  block in the registered memory with the size of each announced on the socket, is the input, complete and in
  order, whatever the sizes in which \<open>read\<close> delivers it. Blocks are at most \<open>RW_SIZE\<close> bytes (here \<open>n\<close>, which is less than
  \<open>2 ^ 31\<close>); a round more than there are bytes of input is enough.
\<close>
theorem migration_offers_input:
  assumes "stdin_ok H rest" and "peer_ok H rest fd" and "s_ctx s = Some ctx" and "ctx_rw ctx = Some rw"
    and "0 < n" and "n < 2 ^ 31" and "n < cf" and "length data = 20" and "length (rest w) < fuel"
  shows "\<exists>w' log. mig_loop fuel cf (traced_host H) (int n) fd data s (w, g) = (Inr (), (w', g @ log))
    \<and> offered (rm_buf rw) fd n log (rest w) \<and> rest w' = []"
  using assms(8,9)
proof (induction fuel arbitrary: data w g)
  case 0
  then show ?case by simp
next
  case (Suc fuel)
  have rw: "get_rw_buf s x = (Inr rw, x)" for x :: "'a \<times> wire_event list" using assms(3,4) by (simp add: get_rw_buf_def prog_simps)
  show ?case
  proof (cases "rest w = []")
    case True
    obtain c where "cf = Suc c" using assms(7) by (cases cf) auto
    moreover obtain w' where "mig_loop (Suc fuel) (Suc c) (traced_host H) (int n) fd data s (w, g) = (Inr (), (w', g))" "rest w' = []"
      using mig_loop_end [OF assms(1) rw [of "(w, g)"] True, of fuel c n fd data] by (elim exE conjE) (rule that)
    ultimately show ?thesis using True by (intro exI [of _ w'] exI [of _ "[]"]) (simp add: offered_end del: mig_loop.simps)
  next
    case False
    obtain d' w3 evs where
      step: "mig_loop (Suc fuel) cf (traced_host H) (int n) fd data s (w, g) = mig_loop fuel cf (traced_host H) (int n) fd d' s
        (w3, g @ evs @ [Written fd (print_d (int (length (take n (rest w)))) @ [NUL])])"
      and evs: "laid (rm_buf rw) evs = Some (take n (rest w))" and w3: "rest w3 = drop n (rest w)" and d': "length d' = 20"
      by (rule mig_loop_round [OF assms(1,2) rw False assms(5-7) Suc.prems(1)])
    let ?ev = "Written fd (print_d (int (length (take n (rest w)))) @ [NUL])"
    have "0 < length (rest w)" using False by simp
    then have "length (rest w3) < fuel" using Suc.prems(2) assms(5) unfolding w3 length_drop by linarith
    from Suc.IH [OF d' this, of "g @ evs @ [?ev]"] obtain w' log where
      IH: "mig_loop fuel cf (traced_host H) (int n) fd d' s (w3, g @ evs @ [?ev]) = (Inr (), (w', (g @ evs @ [?ev]) @ log))"
        "offered (rm_buf rw) fd n log (rest w3)" "rest w' = []"
      by blast
    have "offered (rm_buf rw) fd n (evs @ ?ev # log) (take n (rest w) @ drop n (rest w))"
      using False assms(5) IH(2) w3 by (intro offered_block [OF evs]) simp_all
    then show ?thesis using IH(1,3) step by (intro exI [of _ w'] exI [of _ "evs @ ?ev # log"]) (simp del: mig_loop.simps)
  qed
qed

text \<open>A host with a standard input; the input is part of its state.\<close>

definition input_sys :: "(nat \<times> bytes) sys" where
  "input_sys = (lift_sys sample_sys)\<lparr>sys_read := (\<lambda>fd n (w, inp).
     if fd = 0 then ((int (min n (length inp)), take n inp), (w, drop n inp)) else ((5, ''done'' @ [NUL]), (w, inp)))\<rparr>"

definition input_host :: "(nat \<times> bytes) host" where
  "input_host = simple_host (lift_verbs sample_verbs) input_sys"

lemma migration_offers_input_witness:
  "\<exists>w' log. mig_loop 6 4 (traced_host input_host) 3 3 (replicate 20 NUL) rw_session ((0, ''hello''), []) = (Inr (), (w', log))
    \<and> offered 4096 3 3 log ''hello'' \<and> snd w' = []"
proof -
  have sel: "sys_read (h_sys input_host) = (\<lambda>fd n (w, inp). if fd = 0 then ((int (min n (length inp)), take n inp), (w, drop n inp))
      else ((5, ''done'' @ [NUL]), (w, inp)))" "mem_store input_host = (\<lambda>_ _ w. ((), w))"
    "sys_write (h_sys input_host) = (\<lambda>a b. unseen (sys_write sample_sys a b))"
    by (simp_all add: input_host_def input_sys_def simple_host_def lift_sys_def)
  have "\<exists>k w'. sys_read (h_sys input_host) 0 n w = ((int k, take k (snd w)), w') \<and> k \<le> n \<and> k \<le> length (snd w)
        \<and> (k = 0 \<longrightarrow> n = 0 \<or> snd w = []) \<and> snd w' = drop k (snd w)" for n w
    by (cases w, rule exI [of _ "min n (length (snd w))"]) (auto simp: sel min_def)
  then have "stdin_ok input_host snd" by (simp add: stdin_ok_def sel)
  moreover have "peer_ok input_host snd 3" by (auto simp: peer_ok_def sel unseen_apply)
  moreover have "s_ctx rw_session = Some (linked_ctx\<lparr>ctx_rw := Some (task_mem write_task)\<rparr>)" "rm_buf (task_mem write_task) = 4096"
    by (simp_all add: rw_session_def write_task_def)
  ultimately show ?thesis
    using migration_offers_input [of input_host snd 3 rw_session "linked_ctx\<lparr>ctx_rw := Some (task_mem write_task)\<rparr>"
        "task_mem write_task" 3 4 "replicate 20 NUL" "(0, ''hello'')" 6 "[]"] by simp
qed

section \<open>Publishing the keys\<close>

abbreviation key_text :: "rdma_mem \<Rightarrow> bytes" where
  "key_text m \<equiv> rw_entry (mr_addr (rm_mr m), mr_rkey (rm_mr m)) @ [NUL]"

lemma length_key_text: "26 \<le> length (key_text m)"
  using length_print_padded_ge [of 16 10 "unat (mr_addr (rm_mr m))"] length_print_padded_ge [of 8 16 "unat (mr_rkey (rm_mr m))"]
  by (simp add: rw_entry_def)

lemma reg_memory_stuck:
  assumes "reg_memory fuel H num tg_size s ptr data (int b) (of_nat (length mems * b)) mems w = (Inr (Inr ms), w')"
    and "length mems * b < 2 ^ 31" and "0 < b" and "unat (rm_size data) = 25 * (2 ^ 31 div b)"
  shows False
  using assms(1,2)
proof (induction fuel arbitrary: mems w)
  case 0
  then show ?case by (simp add: fail_def)
next
  case (Suc fuel)
  have "unat (of_nat (length mems * b) :: size_t) = length mems * b" using Suc.prems(2) by (intro unat_of_nat_small) simp
  then have "(of_nat (length mems * b) :: size_t) < tg_size" using Suc.prems(2) by (simp add: word_less_nat_alt del: of_nat_mult)
  with Suc.prems(1) obtain m w1 where fit: "25 * length mems + length (key_text m) \<le> unat (rm_size data)"
    and rec: "reg_memory fuel H num tg_size s ptr data (int b) (of_nat (length mems * b) + of_nat b) (mems @ [m]) w1 = (Inr (Inr ms), w')"
    by (auto simp: run_iffs Let_def split: option.splits simp del: of_nat_mult length_append)
  have "Suc (length mems) < 2 ^ 31 div b" using fit length_key_text [of m] assms(4) by linarith
  then have "Suc (length mems) * b < 2 ^ 31 div b * b" using assms(3) by (intro mult_strict_right_mono)
  also have "\<dots> \<le> 2 ^ 31" by (rule div_times_less_eq_dividend)
  finally have "length (mems @ [m]) * b < 2 ^ 31" by simp
  then show ?case using Suc.IH [of "mems @ [m]" w1] rec by (simp add: algebra_simps)
qed

text \<open>
  C35. \<open>regread\<close> always writes behind the block for the keys: the block has 25 bytes for each whole piece, but the last
  entry is followed by a NUL, so \<open>reg_memory\<close> cannot come to its end inside the block, whatever the size of a piece
  and whatever the environment does; it exits on a failed registration or overruns the block.
\<close>
theorem reg_memory_overruns:
  assumes "0 < bs" and "bs < 2 ^ 31" and "unat (rm_size data) = 25 * (2 ^ 31 div nat bs)"
  shows "reg_memory fuel H num tg_size s ptr data bs 0 [] w \<noteq> (Inr (Inr ms), w')"
  using reg_memory_stuck [of fuel H num s ptr data "nat bs" "[]" w ms w'] assms by auto

lemma reg_memory_overruns_witness:
  "fst (reg_memory 3 (simple_host sample_verbs sample_sys) 2 tg_size rw_session 0
     ((task_mem write_task)\<lparr>rm_size := 50\<rparr>) 1073741824 0 [] 0) = Inl Undefined_behaviour
   \<and> reg_memory 3 (simple_host sample_verbs sample_sys) 2 tg_size rw_session 0
     ((task_mem write_task)\<lparr>rm_size := 50\<rparr>) 1073741824 0 [] 0 \<noteq> (Inr (Inr []), 0)"
proof -
  have c: "s_ctx rw_session = Some (linked_ctx\<lparr>ctx_rw := Some (task_mem write_task)\<rparr>)" "ctx_pd linked_ctx = Some 3"
    by (simp_all add: rw_session_def linked_ctx_def sample_ctx_def)
  have l: "length (rw_entry (a, 2)) = 25" if "rw_ok (a, 2)" for a using length_rw_entry [OF that] .
  have "fst (reg_memory 3 (simple_host sample_verbs sample_sys) 2 tg_size rw_session 0
     ((task_mem write_task)\<lparr>rm_size := 50\<rparr>) 1073741824 0 [] 0) = Inl Undefined_behaviour"
    by (simp add: numeral_3_eq_3 reg_mem_block_def rdma_reg_mr_def c l rw_ok_def prog_simps Let_def
        simple_host_def sample_verbs_def sample_sys_def)
  then show ?thesis
    using reg_memory_overruns [of 1073741824 "(task_mem write_task)\<lparr>rm_size := 50\<rparr>" 3 "simple_host sample_verbs sample_sys"
        2 rw_session 0 0 "[]" 0] by simp
qed

text \<open>An adapter that registers everything, at the address it is given.\<close>

definition registers :: "'w host \<Rightarrow> handle \<Rightarrow> bool" where
  "registers H pd \<longleftrightarrow>
     (\<forall>a n fl w. \<exists>mr w'. ibv_reg_mr (h_verbs H) pd a n fl w = (Some mr, w') \<and> mr_addr mr = a)
   \<and> (\<forall>w. \<exists>p w'. sys_alloc (h_sys H) w = (Some p, w'))"

lemma traced_reg_sel [simp]:
  "ibv_reg_mr (h_verbs (traced_host H)) = (\<lambda>pd a n fl. unseen (ibv_reg_mr (h_verbs H) pd a n fl))"
  "sys_alloc (h_sys (traced_host H)) = unseen (sys_alloc (h_sys H))"
  by (simp_all add: traced_host_def lift_verbs_def lift_sys_def)

lemma registers_block:
  assumes "registers H pd" and "s_ctx s = Some ctx" and "ctx_pd ctx = Some pd" and "unat a < 10 ^ 16"
  obtains m w' where "reg_mem_block (traced_host H) s a n (w, g) = (Inr (Some m), (w', g))" and "rm_buf m = a" and "rm_size m = n"
    and "length (key_text m) = 26"
proof -
  obtain mr w1 where mr: "ibv_reg_mr (h_verbs H) pd a n [IBV_ACCESS_LOCAL_WRITE, IBV_ACCESS_REMOTE_WRITE, IBV_ACCESS_REMOTE_READ] w = (Some mr, w1)"
    "mr_addr mr = a" using assms(1) unfolding registers_def by metis
  then have ok: "rw_ok (mr_addr mr, mr_rkey mr)" using assms(4) by (simp add: rw_ok_def)
  obtain p w2 where "sys_alloc (h_sys H) w1 = (Some p, w2)" using assms(1) unfolding registers_def by metis
  then have "reg_mem_block (traced_host H) s a n (w, g) = (Inr (Some \<lparr>rm_mr = mr, rm_buf = a, rm_size = n, rm_ptr = p\<rparr>), (w2, g))"
    using mr(1) assms(2,3) by (simp add: reg_mem_block_def rdma_reg_mr_def prog_simps watch_simps)
  then show ?thesis using that length_rw_entry [OF ok] by simp
qed

abbreviation key_store :: "rdma_mem \<Rightarrow> nat \<Rightarrow> rdma_mem \<Rightarrow> wire_event" where
  "key_store data j m \<equiv> Stored (rm_buf data + of_nat (25 * j)) (key_text m)"

text \<open>The pieces \<open>j\<close>, \<open>j + 1\<close>, \<open>\<dots>\<close> of a block, as registered.\<close>

definition pieces :: "u64 \<Rightarrow> nat \<Rightarrow> nat \<Rightarrow> rdma_mem list \<Rightarrow> bool" where
  "pieces ptr b j ms \<longleftrightarrow> (\<forall>i < length ms. rm_buf (ms ! i) = ptr + of_nat ((j + i) * b) \<and> rm_size (ms ! i) = of_nat b)"

lemma pieces_Cons: "pieces ptr b j (m # ms) \<longleftrightarrow> rm_buf m = ptr + of_nat (j * b) \<and> rm_size m = of_nat b \<and> pieces ptr b (Suc j) ms"
  by (simp only: pieces_def list.size(4) All_less_Suc2 nth_Cons_0 nth_Cons_Suc add_0_right add_Suc_right add_Suc conj_assoc Suc_eq_plus1 [symmetric])

lemma reg_memory_from:
  assumes "registers H pd" and "s_ctx s = Some ctx" and "ctx_pd ctx = Some pd"
    and "0 < b" and "unat ptr + k * b < 10 ^ 16" and "k \<le> num" and "25 * k < unat (rm_size data)"
    and "length mems \<le> k" and "k - length mems < fuel"
  shows "\<exists>ms w'. reg_memory fuel (traced_host H) num (of_nat (k * b)) s ptr data (int b) (of_nat (length mems * b)) mems (w, g)
      = (Inr (Inr (mems @ ms)), (w', g @ map (\<lambda>i. key_store data (length mems + i) (ms ! i)) [0..<k - length mems]))
    \<and> length ms = k - length mems \<and> pieces ptr b (length mems) ms"
  using assms(8,9)
proof (induction fuel arbitrary: mems w g)
  case 0
  then show ?case by simp
next
  case (Suc fuel)
  define j where "j = length mems"
  have u: "unat (of_nat (i * b) :: size_t) = i * b" if "i \<le> k" for i
  proof -
    have "i * b \<le> k * b" using that by (rule mult_le_mono1)
    then have "i * b < 10 ^ 16" using assms(5) by linarith
    also have "(10 :: nat) ^ 16 \<le> 2 ^ LENGTH(64)" by simp
    finally show ?thesis by (rule unat_of_nat_small)
  qed
  have lt: "(of_nat (j * b) :: size_t) < of_nat (k * b) \<longleftrightarrow> j < k"
    using u [of j] u [of k] Suc.prems(1) assms(4) by (simp add: j_def word_less_nat_alt del: of_nat_mult)
  show ?case
  proof (cases "j < k")
    case False
    then show ?thesis using Suc.prems(1) lt by (intro exI [of _ "[]"] exI [of _ w]) (simp add: prog_simps pieces_def flip: j_def del: of_nat_mult)
  next
    case True
    have "j * b \<le> k * b" using True by simp
    then have "unat ptr + j * b < 10 ^ 16" using assms(5) by linarith
    then have a: "unat (ptr + of_nat (j * b)) < 10 ^ 16"
      using u [of j] True unat_add_no_wrap [of ptr "of_nat (j * b)"] by (simp del: of_nat_mult)
    obtain m w1 where m: "reg_mem_block (traced_host H) s (ptr + of_nat (j * b)) (of_nat b) (w, g) = (Inr (Some m), (w1, g))"
      "rm_buf m = ptr + of_nat (j * b)" "rm_size m = of_nat b" "length (key_text m) = 26"
      by (rule registers_block [OF assms(1-3) a])
    define w2 where "w2 = snd (mem_store H (rm_buf data + of_nat (25 * j)) (key_text m) w1)"
    have "length (mems @ [m]) \<le> k" "k - length (mems @ [m]) < fuel" using True Suc.prems(2) by (simp_all add: j_def)
    from Suc.IH [OF this, of w2 "g @ [key_store data j m]"] obtain ms w' where
      IH: "reg_memory fuel (traced_host H) num (of_nat (k * b)) s ptr data (int b) (of_nat (Suc j * b)) (mems @ [m]) (w2, g @ [key_store data j m])
        = (Inr (Inr ((mems @ [m]) @ ms)), (w', (g @ [key_store data j m]) @ map (\<lambda>i. key_store data (Suc j + i) (ms ! i)) [0..<k - Suc j]))"
      "length ms = k - Suc j" "pieces ptr b (Suc j) ms" by (auto simp: j_def)
    have "25 * j + 26 \<le> unat (rm_size data)" "j < num" using True assms(6,7) by simp_all
    moreover have "of_nat (j * b) + of_int (int b) = (of_nat (Suc j * b) :: size_t)" by simp
    ultimately have "reg_memory (Suc fuel) (traced_host H) num (of_nat (k * b)) s ptr data (int b) (of_nat (j * b)) mems (w, g)
        = (Inr (Inr (mems @ m # ms)), (w', g @ key_store data j m # map (\<lambda>i. key_store data (Suc j + i) (ms ! i)) [0..<k - Suc j]))"
      using True lt m(1,4) IH(1)
      by (simp add: prog_simps watch_simps Let_def w2_def [symmetric] j_def [symmetric] add.commute [of "of_nat b :: size_t"] del: of_nat_mult)
    moreover have "map (\<lambda>i. key_store data (j + i) ((m # ms) ! i)) [0..<k - j]
        = key_store data j m # map (\<lambda>i. key_store data (Suc j + i) (ms ! i)) [0..<k - Suc j]"
    proof -
      have "k - j = Suc (k - Suc j)" using True by simp
      then show ?thesis by (simp only: map_upt_Suc) simp
    qed
    moreover have "pieces ptr b j (m # ms)" using IH(3) m(2,3) by (simp add: pieces_Cons)
    ultimately show ?thesis using IH(2) True by (intro exI [of _ "m # ms"] exI [of _ w']) (simp add: j_def)
  qed
qed

text \<open>
  C18. Given a block for the keys that is longer than 25 bytes for each piece, \<open>reg_memory\<close> publishes the whole memory: if \<open>tg\<close> is \<open>k\<close> pieces of \<open>bs\<close> bytes and
  everything can be registered, \<open>mems\<close> gets the \<open>k\<close> pieces in order, piece \<open>j\<close> at \<open>ptr + j * bs\<close>, and the text of its
  address and key is stored at \<open>25 * j\<close> of the block for the keys. \<open>k + 1\<close> tests of the loop condition are enough.
\<close>
theorem reg_memory_publishes:
  assumes "registers H pd" and "s_ctx s = Some ctx" and "ctx_pd ctx = Some pd"
    and "0 < bs" and "unat ptr + k * nat bs < 10 ^ 16" and "k \<le> num" and "25 * k < unat (rm_size data)" and "k < fuel"
  shows "\<exists>ms w'. reg_memory fuel (traced_host H) num (of_nat (k * nat bs)) s ptr data bs 0 [] (w, g)
      = (Inr (Inr ms), (w', g @ map (\<lambda>j. Stored (rm_buf data + of_nat (25 * j)) (key_text (ms ! j))) [0..<k]))
    \<and> length ms = k \<and> (\<forall>j < k. rm_buf (ms ! j) = ptr + of_nat (j * nat bs) \<and> rm_size (ms ! j) = of_int bs)"
  using reg_memory_from [OF assms(1-3), of "nat bs" ptr k num data "[]" fuel w g] assms(4-8)
  by (auto simp: pieces_def simp del: of_nat_mult)

lemma reg_memory_publishes_witness:
  "\<exists>ms w'. reg_memory 3 (traced_host (simple_host sample_verbs sample_sys)) 2 128 rw_session 0
      ((task_mem write_task)\<lparr>rm_size := 51\<rparr>) 64 0 [] (0, []) = (Inr (Inr ms), w') \<and> length ms = 2 \<and> rm_buf (ms ! 1) = 64"
proof -
  have c: "s_ctx rw_session = Some (linked_ctx\<lparr>ctx_rw := Some (task_mem write_task)\<rparr>)" "ctx_pd linked_ctx = Some 3"
    by (simp_all add: rw_session_def linked_ctx_def sample_ctx_def)
  have "registers (simple_host sample_verbs sample_sys) 3"
    by (simp add: registers_def simple_host_def sample_verbs_def sample_sys_def)
  from reg_memory_publishes [OF this c(1), of 64 0 2 2 "(task_mem write_task)\<lparr>rm_size := 51\<rparr>" 3 0 "[]"]
  show ?thesis using c(2) by (auto simp: less_2_cases_iff)
qed

end
