(* ===== verification/StackEnv.thy ===== *)
theory StackEnv
  imports SampleEnv
begin

text \<open>
  The boundary of the network stack in \<open>rdma/\<close>: the verbs entry points of theory Verbs, and what
  the stack uses beside them (device attributes, queue pair queries, \<open>fcntl\<close>, datagram sockets,
  \<open>malloc\<close> and \<open>new\<close>, the configured failure injection). Nothing is assumed of any of them.
\<close>

section \<open>Data\<close>

record ibv_device_attr =
  phys_port_cnt :: u8
  da_max_srq_wr :: int
  da_max_cqe :: int
  da_max_qp_wr :: int

text \<open>The attributes of a queue pair that the stack asks for.\<close>

record qp_query =
  q_dest_qp_num :: u32
  q_dlid :: u16
  q_qp_state :: ibv_qp_state
  q_cur_qp_state :: ibv_qp_state

text \<open>The address of a peer (\<open>entity_addr_t\<close>) is only stored and passed on.\<close>

type_synonym entity_addr = handle

section \<open>Entry points\<close>

text \<open>
  \<open>ib_again\<close> is \<open>errno == EINTR || errno == EAGAIN\<close> after the last failed call. \<open>ib_new\<close> is the
  address of a new object (\<open>new\<close> does not return null) and \<open>ib_fresh\<close> the contents of fresh memory.
  \<open>ib_received\<close> is what the adapter has written into the receive buffer with the given id by the
  time its completion is polled, and \<open>ib_file_event\<close> the registration of a descriptor with the worker's
  event loop. \<open>ib_rand\<close> draws one of the injected socket failures: whether \<open>rand() % n == 0\<close>.
  \<open>ib_thread\<close> starts a thread that runs the given function object and \<open>ib_join\<close> waits for one to end.
\<close>

record 'w ib_env =
  ib_verbs :: "'w verbs"
  ib_query_device :: "handle \<Rightarrow> 'w \<Rightarrow> (int \<times> ibv_device_attr) \<times> 'w"
  ib_async_fd :: "handle \<Rightarrow> int"
  ib_query_qp :: "ibv_qp \<Rightarrow> 'w \<Rightarrow> (int \<times> qp_query) \<times> 'w"
  ib_getfl :: "int \<Rightarrow> 'w \<Rightarrow> int \<times> 'w"
  ib_setfl_nonblock :: "int \<Rightarrow> int \<Rightarrow> 'w \<Rightarrow> int \<times> 'w"
  ib_malloc :: "size_t \<Rightarrow> 'w \<Rightarrow> u64 option \<times> 'w"
  ib_new :: "'w \<Rightarrow> u64 \<times> 'w"
  ib_fresh :: "u64 \<Rightarrow> char"
  ib_lrand48 :: "'w \<Rightarrow> u32 \<times> 'w"
  ib_socket :: "'w \<Rightarrow> int \<times> 'w"
  ib_setsockopt :: "int \<Rightarrow> 'w \<Rightarrow> int \<times> 'w"
  ib_bind :: "int \<Rightarrow> entity_addr \<Rightarrow> 'w \<Rightarrow> int \<times> 'w"
  ib_connect :: "int \<Rightarrow> entity_addr \<Rightarrow> 'w \<Rightarrow> int \<times> 'w"
  ib_close :: "int \<Rightarrow> 'w \<Rightarrow> int \<times> 'w"
  ib_sendto :: "int \<Rightarrow> bytes \<Rightarrow> entity_addr \<Rightarrow> 'w \<Rightarrow> int \<times> 'w"
  ib_recvfrom :: "int \<Rightarrow> nat \<Rightarrow> 'w \<Rightarrow> (int \<times> bytes \<times> entity_addr) \<times> 'w"
  ib_received :: "u64 \<Rightarrow> 'w \<Rightarrow> bytes \<times> 'w"
  ib_file_event :: "int \<Rightarrow> 'w \<Rightarrow> unit \<times> 'w"
  ib_again :: "'w \<Rightarrow> bool \<times> 'w"
  ib_inject :: bool
  ib_rand :: "'w \<Rightarrow> bool \<times> 'w"
  ib_thread :: "handle \<Rightarrow> 'w \<Rightarrow> handle \<times> 'w"
  ib_join :: "handle \<Rightarrow> 'w \<Rightarrow> unit \<times> 'w"

text \<open>
  The environment with the entry points of another verbs record over the same outside state and a
  ghost: the ghost sees what that record does with it, and nothing else.
\<close>

definition lift_ib :: "('w \<times> 'g) verbs \<Rightarrow> 'w ib_env \<Rightarrow> ('w \<times> 'g) ib_env" where
  "lift_ib V E = \<lparr>
     ib_verbs = V,
     ib_query_device = (\<lambda>a. unseen (ib_query_device E a)),
     ib_async_fd = ib_async_fd E,
     ib_query_qp = (\<lambda>a. unseen (ib_query_qp E a)),
     ib_getfl = (\<lambda>a. unseen (ib_getfl E a)),
     ib_setfl_nonblock = (\<lambda>a b. unseen (ib_setfl_nonblock E a b)),
     ib_malloc = (\<lambda>a. unseen (ib_malloc E a)),
     ib_new = unseen (ib_new E),
     ib_fresh = ib_fresh E,
     ib_lrand48 = unseen (ib_lrand48 E),
     ib_socket = unseen (ib_socket E),
     ib_setsockopt = (\<lambda>a. unseen (ib_setsockopt E a)),
     ib_bind = (\<lambda>a b. unseen (ib_bind E a b)),
     ib_connect = (\<lambda>a b. unseen (ib_connect E a b)),
     ib_close = (\<lambda>a. unseen (ib_close E a)),
     ib_sendto = (\<lambda>a b c. unseen (ib_sendto E a b c)),
     ib_recvfrom = (\<lambda>a b. unseen (ib_recvfrom E a b)),
     ib_received = (\<lambda>a. unseen (ib_received E a)),
     ib_file_event = (\<lambda>a. unseen (ib_file_event E a)),
     ib_again = unseen (ib_again E),
     ib_inject = ib_inject E,
     ib_rand = unseen (ib_rand E),
     ib_thread = (\<lambda>a. unseen (ib_thread E a)),
     ib_join = (\<lambda>a. unseen (ib_join E a))\<rparr>"

lemma lift_ib_sel [simp]:
  "ib_verbs (lift_ib V E) = V"
  "ib_query_device (lift_ib V E) = (\<lambda>a. unseen (ib_query_device E a))"
  "ib_async_fd (lift_ib V E) = ib_async_fd E"
  "ib_query_qp (lift_ib V E) = (\<lambda>a. unseen (ib_query_qp E a))"
  "ib_getfl (lift_ib V E) = (\<lambda>a. unseen (ib_getfl E a))"
  "ib_setfl_nonblock (lift_ib V E) = (\<lambda>a b. unseen (ib_setfl_nonblock E a b))"
  "ib_malloc (lift_ib V E) = (\<lambda>a. unseen (ib_malloc E a))"
  "ib_new (lift_ib V E) = unseen (ib_new E)"
  "ib_fresh (lift_ib V E) = ib_fresh E"
  "ib_lrand48 (lift_ib V E) = unseen (ib_lrand48 E)"
  "ib_socket (lift_ib V E) = unseen (ib_socket E)"
  "ib_setsockopt (lift_ib V E) = (\<lambda>a. unseen (ib_setsockopt E a))"
  "ib_bind (lift_ib V E) = (\<lambda>a b. unseen (ib_bind E a b))"
  "ib_connect (lift_ib V E) = (\<lambda>a b. unseen (ib_connect E a b))"
  "ib_close (lift_ib V E) = (\<lambda>a. unseen (ib_close E a))"
  "ib_sendto (lift_ib V E) = (\<lambda>a b c. unseen (ib_sendto E a b c))"
  "ib_recvfrom (lift_ib V E) = (\<lambda>a b. unseen (ib_recvfrom E a b))"
  "ib_received (lift_ib V E) = (\<lambda>a. unseen (ib_received E a))"
  "ib_file_event (lift_ib V E) = (\<lambda>a. unseen (ib_file_event E a))"
  "ib_again (lift_ib V E) = unseen (ib_again E)"
  "ib_inject (lift_ib V E) = ib_inject E"
  "ib_rand (lift_ib V E) = unseen (ib_rand E)"
  "ib_thread (lift_ib V E) = (\<lambda>a. unseen (ib_thread E a))"
  "ib_join (lift_ib V E) = (\<lambda>a. unseen (ib_join E a))"
  by (simp_all add: lift_ib_def)

text \<open>
  The sample environment of theory SampleEnv, extended: datagrams are accepted whole and nothing
  arrives.
\<close>

definition sample_ib_env :: "nat ib_env" where
  "sample_ib_env = \<lparr>
     ib_verbs = sample_verbs,
     ib_query_device = (\<lambda>a w. ((0, \<lparr>phys_port_cnt = 1, da_max_srq_wr = 512, da_max_cqe = 1024, da_max_qp_wr = 256\<rparr>), w)),
     ib_async_fd = (\<lambda>a. 9),
     ib_query_qp = (\<lambda>a w. ((0, \<lparr>q_dest_qp_num = 0, q_dlid = 0, q_qp_state = IBV_QPS_RTS, q_cur_qp_state = IBV_QPS_RTS\<rparr>), w)),
     ib_getfl = (\<lambda>a w. (2, w)),
     ib_setfl_nonblock = (\<lambda>a b w. (0, w)),
     ib_malloc = (\<lambda>n w. (Some (of_nat w * 65536), Suc w)),
     ib_new = (\<lambda>w. (of_nat w, Suc w)),
     ib_fresh = (\<lambda>a. NUL),
     ib_lrand48 = (\<lambda>w. (0x12345678, w)),
     ib_socket = (\<lambda>w. (3, w)),
     ib_setsockopt = (\<lambda>a w. (0, w)),
     ib_bind = (\<lambda>a b w. (0, w)),
     ib_connect = (\<lambda>a b w. (0, w)),
     ib_close = (\<lambda>a w. (0, w)),
     ib_sendto = (\<lambda>a bs d w. (int (length bs), w)),
     ib_recvfrom = (\<lambda>a n w. ((- 1, [], 0), w)),
     ib_received = (\<lambda>a w. ([], w)),
     ib_file_event = (\<lambda>a w. ((), w)),
     ib_again = (\<lambda>w. (False, w)),
     ib_inject = False,
     ib_rand = (\<lambda>w. (False, w)),
     ib_thread = (\<lambda>a w. (w, Suc w)),
     ib_join = (\<lambda>a w. ((), w))\<rparr>"

text \<open>The calls one by one, for evaluating closed instances.\<close>

lemma sample_ib_env_sel:
  "ib_verbs sample_ib_env = sample_verbs"
  "ib_malloc sample_ib_env n w = (Some (of_nat w * 65536), Suc w)"
  "ib_new sample_ib_env w = (of_nat w, Suc w)"
  "ib_getfl sample_ib_env fd w = (2, w)"
  "ib_setfl_nonblock sample_ib_env fd fl w = (0, w)"
  "ib_lrand48 sample_ib_env w = (0x12345678, w)"
  "ib_sendto sample_ib_env fd bs d w = (int (length bs), w)"
  "ib_socket sample_ib_env w = (3, w)"
  "ib_connect sample_ib_env fd d w = (0, w)"
  "ib_inject sample_ib_env = False"
  by (simp_all add: sample_ib_env_def)

lemma sample_verbs_sel:
  "ibv_reg_mr sample_verbs pd a n acc w = (Some \<lparr>mr_handle = w, mr_addr = a, mr_lkey = 1, mr_rkey = 2\<rparr>, Suc w)"
  "ibv_post_srq_recv sample_verbs q wr w = (0, w)"
  "ibv_post_send sample_verbs qp wrs w = (0, w)"
  "ibv_create_comp_channel sample_verbs c w = (Some \<lparr>channel_handle = w, channel_fd = 5\<rparr>, Suc w)"
  "ibv_create_cq sample_verbs c m ch w = (Some w, Suc w)"
  "ibv_req_notify_cq sample_verbs cq w = (0, w)"
  "ibv_create_qp sample_verbs pd ia w = (Some \<lparr>qp_handle = w, qp_num = 21\<rparr>, Suc w)"
  "ibv_modify_qp sample_verbs qp att msk w = (0, w)"
  "ibv_poll_cq sample_verbs cq m w = (Completions [], w)"
  "ibv_get_cq_event sample_verbs chan w = ((0, 0), w)"
  "ibv_ack_cq_events sample_verbs cq k w = ((), w)"
  by (simp_all add: sample_verbs_def)

lemmas sample_sel = sample_ib_env_sel sample_verbs_sel

end
