(* ===== verification/MemoryManager.thy ===== *)
theory MemoryManager
  imports StackEnv
begin

text \<open>
  \<open>Infiniband::MemoryManager\<close> of \<open>rdma/Infiniband.h\<close>: chunks of registered memory with a cursor,
  clusters of free chunks of one size, and the manager with its clusters for receiving, sending and
  RDMA.

  Chunks are shared by pointer between clusters, sockets and work requests, so they live in an
  explicit heap; a cluster is the vector of the pointers of its free chunks. The bytes of a chunk's
  buffer are kept with the chunk.
\<close>

section \<open>Chunks\<close>

record chunk =
  ck_buffer :: u64
  ck_bytes :: u32
  ck_offset :: size_t
  ck_mr :: ibv_mr
  ck_data :: bytes

type_synonym chunk_ptr = u64
type_synonym chunk_heap = "chunk_ptr \<Rightarrow> chunk option"

definition set_offset :: "u32 \<Rightarrow> chunk \<Rightarrow> chunk" where
  "set_offset p c = c\<lparr>ck_offset := ucast p\<rparr>"

definition chunk_left :: "chunk \<Rightarrow> size_t" where
  "chunk_left c = ucast (ck_bytes c) - ck_offset c"

text \<open>
  \<open>read\<close>: the number of bytes, the bytes stored at the destination, and the chunk. A short read
  moves the cursor back to the start of the chunk.
\<close>

definition chunk_read :: "size_t \<Rightarrow> chunk \<Rightarrow> fault + (size_t \<times> bytes) \<times> chunk" where
  "chunk_read len c =
     (let left = chunk_left c in
      if left \<ge> len then
        sbnd (read_at (ck_data c) (unat (ck_offset c)) (unat len)) (\<lambda>bs.
        Inr ((len, bs), c\<lparr>ck_offset := ck_offset c + len\<rparr>))
      else
        sbnd (read_at (ck_data c) (unat (ck_offset c)) (unat left)) (\<lambda>bs.
        Inr ((left, bs), c\<lparr>ck_offset := 0\<rparr>)))"

text \<open>\<open>write\<close> of all of \<open>bs\<close>, or of as much as there is room for.\<close>

definition chunk_write :: "bytes \<Rightarrow> chunk \<Rightarrow> fault + size_t \<times> chunk" where
  "chunk_write bs c =
     (let left = chunk_left c; len = of_nat (length bs) in
      if left \<ge> len then
        sbnd (memcpy_at (ck_data c) (unat (ck_offset c)) bs) (\<lambda>d.
        Inr (len, c\<lparr>ck_data := d, ck_offset := ck_offset c + len\<rparr>))
      else
        sbnd (memcpy_at (ck_data c) (unat (ck_offset c)) (take (unat left) bs)) (\<lambda>d.
        Inr (left, c\<lparr>ck_data := d, ck_offset := ucast (ck_bytes c)\<rparr>)))"

definition chunk_full :: "chunk \<Rightarrow> bool" where
  "chunk_full c \<longleftrightarrow> ck_offset c = ucast (ck_bytes c)"

section \<open>Clusters\<close>

record cluster =
  chunk_size :: u32
  free_chunks :: "chunk_ptr list"

definition new_cluster :: "u32 \<Rightarrow> cluster" where
  "new_cluster s = \<lparr>chunk_size = s, free_chunks = []\<rparr>"

text \<open>Uninitialised memory from \<open>a\<close> on.\<close>

definition fresh_bytes :: "'w ib_env \<Rightarrow> u64 \<Rightarrow> nat \<Rightarrow> bytes" where
  "fresh_bytes E a n = map (\<lambda>i. ib_fresh E (a + of_nat i)) [0..<n]"

text \<open>
  The loop of \<open>add\<close>: all offsets are 32-bit. Of a chunk's buffer only what lies inside the
  allocated block of \<open>bytes\<close> bytes may be touched. The fuel is the number of iterations.
\<close>

fun add_loop :: "nat \<Rightarrow> 'w ib_env \<Rightarrow> handle \<Rightarrow> u64 \<Rightarrow> u32 \<Rightarrow> u32 \<Rightarrow> cluster \<times> chunk_heap \<Rightarrow>
    ('w, cluster \<times> chunk_heap) prog" where
  "add_loop 0 E pd base bytes off st = fail Out_of_fuel"
| "add_loop (Suc fuel) E pd base bytes off (cl, h) =
     (if off < bytes then
        bnd (call (ibv_reg_mr (ib_verbs E) pd (base + ucast off) (ucast (chunk_size cl))
               [IBV_ACCESS_REMOTE_WRITE, IBV_ACCESS_LOCAL_WRITE])) (\<lambda>m.
        bnd (c_assert (m \<noteq> None)) (\<lambda>_.
        bnd (deref m) (\<lambda>mr.
        bnd (call (ib_new E)) (\<lambda>p.
        add_loop fuel E pd base bytes (off + chunk_size cl)
          (cl\<lparr>free_chunks := free_chunks cl @ [p]\<rparr>,
           h(p \<mapsto> \<lparr>ck_buffer = base + ucast off, ck_bytes = chunk_size cl, ck_offset = 0, ck_mr = mr,
                   ck_data = fresh_bytes E (base + ucast off)
                     (min (unat (chunk_size cl)) (unat bytes - unat off))\<rparr>)))))) 
      else ret (cl, h))"

definition cluster_add :: "'w ib_env \<Rightarrow> handle \<Rightarrow> u32 \<Rightarrow> cluster \<times> chunk_heap \<Rightarrow> ('w, cluster \<times> chunk_heap) prog" where
  "cluster_add E pd num st =
     (let bytes = chunk_size (fst st) * num in
      bnd (call (ib_malloc E (ucast bytes))) (\<lambda>b.
      bnd (c_assert (b \<noteq> None)) (\<lambda>_.
      bnd (deref b) (\<lambda>base.
      add_loop (Suc (unat num)) E pd base bytes 0 st))))"

definition take_back :: "chunk_ptr \<Rightarrow> cluster \<Rightarrow> cluster" where
  "take_back ck cl = cl\<lparr>free_chunks := free_chunks cl @ [ck]\<rparr>"

text \<open>The popping loop of \<open>get_buffers\<close>, and how many chunks it is for.\<close>

fun pop_chunks :: "nat \<Rightarrow> chunk_ptr list \<Rightarrow> chunk_ptr list \<Rightarrow> chunk_ptr list \<times> chunk_ptr list" where
  "pop_chunks 0 acc fr = (acc, fr)"
| "pop_chunks (Suc n) acc fr = pop_chunks n (acc @ [last fr]) (butlast fr)"

definition chunk_count :: "u32 \<Rightarrow> size_t \<Rightarrow> u32" where
  "chunk_count sz bytes =
     (let num = ucast (bytes div ucast sz + 1) in if bytes mod ucast sz = 0 then num - 1 else num)"

definition get_buffers :: "size_t \<Rightarrow> cluster \<Rightarrow> fault + chunk_ptr list \<times> cluster" where
  "get_buffers bytes cl =
     (if bytes = 0 then Inr (free_chunks cl, cl)
      else if chunk_size cl = 0 then Inl Undefined_behaviour
      else
        let num = chunk_count (chunk_size cl) bytes in
        if length (free_chunks cl) < unat num then Inr ([], cl)
        else
          let (r, f) = pop_chunks (unat num) [] (free_chunks cl) in
          Inr (r, cl\<lparr>free_chunks := f\<rparr>))"

section \<open>The manager\<close>

text \<open>The three clusters are pointers that start out uninitialised.\<close>

record memory_manager =
  mm_channel :: "cluster option"
  mm_rdma :: "cluster option"
  mm_send :: "cluster option"
  mm_heap :: chunk_heap

definition register_rx_tx :: "'w ib_env \<Rightarrow> handle \<Rightarrow> u32 \<Rightarrow> u32 \<Rightarrow> u32 \<Rightarrow> memory_manager \<Rightarrow>
    ('w, memory_manager) prog" where
  "register_rx_tx E pd sz rx_num tx_num mm =
     bnd (cluster_add E pd rx_num (new_cluster sz, mm_heap mm)) (\<lambda>(ch, h).
     bnd (cluster_add E pd tx_num (new_cluster sz, h)) (\<lambda>(sd, h).
     ret (mm\<lparr>mm_channel := Some ch, mm_send := Some sd, mm_heap := h\<rparr>)))"

definition register_rdma :: "'w ib_env \<Rightarrow> handle \<Rightarrow> u32 \<Rightarrow> u32 \<Rightarrow> memory_manager \<Rightarrow>
    ('w, int \<times> memory_manager) prog" where
  "register_rdma E pd sz num mm =
     bnd (cluster_add E pd num (new_cluster sz, mm_heap mm)) (\<lambda>(c, h).
     ret (0, mm\<lparr>mm_rdma := Some c, mm_heap := h\<rparr>))"

text \<open>A chunk given back as \<open>channel\<close> goes to the cluster \<open>send\<close>.\<close>

definition return_channel :: "chunk_ptr \<Rightarrow> memory_manager \<Rightarrow> fault + memory_manager" where
  "return_channel c mm =
     (case mm_send mm of None \<Rightarrow> Inl Undefined_behaviour
      | Some cl \<Rightarrow> Inr (mm\<lparr>mm_send := Some (take_back c cl)\<rparr>))"

definition return_rx :: "chunk_ptr \<Rightarrow> memory_manager \<Rightarrow> fault + memory_manager" where
  "return_rx c mm =
     (case mm_channel mm of None \<Rightarrow> Inl Undefined_behaviour
      | Some cl \<Rightarrow> Inr (mm\<lparr>mm_channel := Some (take_back c cl)\<rparr>))"

definition return_rdma :: "chunk_ptr \<Rightarrow> memory_manager \<Rightarrow> fault + memory_manager" where
  "return_rdma c mm =
     (case mm_rdma mm of None \<Rightarrow> Inl Undefined_behaviour
      | Some cl \<Rightarrow> Inr (mm\<lparr>mm_rdma := Some (take_back c cl)\<rparr>))"

definition get_channel_buffers :: "size_t \<Rightarrow> memory_manager \<Rightarrow> fault + chunk_ptr list \<times> memory_manager" where
  "get_channel_buffers bytes mm =
     (case mm_channel mm of None \<Rightarrow> Inl Undefined_behaviour
      | Some cl \<Rightarrow> sbnd (get_buffers bytes cl) (\<lambda>(cs, cl). Inr (cs, mm\<lparr>mm_channel := Some cl\<rparr>)))"

section \<open>The cursor of a chunk\<close>

text \<open>
  The state every chunk is in: the cursor is inside the buffer, and the buffer has the size the
  chunk says.
\<close>

definition chunk_wf :: "chunk \<Rightarrow> bool" where
  "chunk_wf c \<longleftrightarrow> length (ck_data c) = unat (ck_bytes c) \<and> unat (ck_offset c) \<le> unat (ck_bytes c)"

text \<open>What lies in front of the cursor, and how much room is behind it.\<close>

definition chunk_written :: "chunk \<Rightarrow> bytes" where
  "chunk_written c = take (unat (ck_offset c)) (ck_data c)"

definition chunk_room :: "chunk \<Rightarrow> nat" where
  "chunk_room c = unat (ck_bytes c) - unat (ck_offset c)"

lemma unat_chunk_left: "chunk_wf c \<Longrightarrow> unat (chunk_left c) = chunk_room c"
  by (simp add: chunk_wf_def chunk_left_def chunk_room_def unat_sub word_le_nat_alt unat_ucast_u32_u64)

lemma chunk_full_iff: "chunk_wf c \<Longrightarrow> chunk_full c \<longleftrightarrow> chunk_room c = 0"
  by (auto simp: chunk_wf_def chunk_full_def chunk_room_def word_unat_eq_iff unat_ucast_u32_u64)

lemma length_chunk_written: "chunk_wf c \<Longrightarrow> length (chunk_written c) = unat (ck_offset c)"
  by (simp add: chunk_wf_def chunk_written_def)

lemma chunk_room_bound: "chunk_room c < 2 ^ 32"
  using unat_u32_bound [of "ck_bytes c"] by (simp add: chunk_room_def)

lemma chunk_write_spec:
  assumes wf: "chunk_wf c" and len: "length bs < 2 ^ 64"
  shows "\<exists>c'. chunk_write bs c = Inr (of_nat (min (length bs) (chunk_room c)), c')
    \<and> chunk_wf c' \<and> chunk_written c' = chunk_written c @ take (chunk_room c) bs
    \<and> chunk_room c' = chunk_room c - length bs
    \<and> ck_buffer c' = ck_buffer c \<and> ck_bytes c' = ck_bytes c \<and> ck_mr c' = ck_mr c"
proof -
  define off where "off = unat (ck_offset c)"
  define n where "n = min (length bs) (chunk_room c)"
  have off: "off \<le> unat (ck_bytes c)" "length (ck_data c) = unat (ck_bytes c)" using wf by (auto simp: chunk_wf_def off_def)
  have room: "chunk_room c = unat (ck_bytes c) - off" by (simp add: chunk_room_def off_def)
  have ul: "unat (of_nat (length bs) :: size_t) = length bs" using len by (simp add: unat_of_nat)
  have b32: "unat (ck_bytes c) < 2 ^ 32" using unat_u32_bound [of "ck_bytes c"] by simp
  define d where "d = take off (ck_data c) @ take n bs @ drop (off + n) (ck_data c)"
  have cpy: "memcpy_at (ck_data c) off (take n bs) = Inr d"
    using off room by (simp add: memcpy_at_def d_def n_def)
  define c' where "c' = c\<lparr>ck_data := d, ck_offset := of_nat (off + n)\<rparr>"
  have no: "unat (of_nat (off + n) :: size_t) = off + n"
    using off room b32 by (simp add: unat_of_nat n_def del: of_nat_add)
  have run: "chunk_write bs c = Inr (of_nat n, c')"
  proof (cases "length bs \<le> chunk_room c")
    case True
    then have "n = length bs" "(of_nat (length bs) :: size_t) \<le> chunk_left c"
      by (simp_all add: n_def word_le_nat_alt ul unat_chunk_left [OF wf])
    then show ?thesis using cpy by (simp add: chunk_write_def Let_def c'_def off_def)
  next
    case False
    then have n: "n = chunk_room c" and "\<not> (of_nat (length bs) :: size_t) \<le> chunk_left c"
      by (simp_all add: n_def word_le_nat_alt ul unat_chunk_left [OF wf])
    moreover have "off + n = unat (ck_bytes c)" using n room off by simp
    moreover have "(of_nat (unat (ck_bytes c)) :: size_t) = ucast (ck_bytes c)" by simp
    moreover have "(of_nat n :: size_t) = chunk_left c" using unat_chunk_left [OF wf] by (simp add: n flip: unat_chunk_left [OF wf])
    ultimately show ?thesis
      using cpy unat_chunk_left [OF wf] by (simp add: chunk_write_def Let_def c'_def del: of_nat_add flip: off_def)
  qed
  have wf': "chunk_wf c'" using off room no by (simp add: chunk_wf_def c'_def d_def n_def)
  have "chunk_written c' = chunk_written c @ take n bs"
    using off room no by (simp add: chunk_written_def c'_def d_def n_def flip: off_def)
  moreover have "take n bs = take (chunk_room c) bs" by (simp add: n_def min_def)
  moreover have "chunk_room c' = chunk_room c - length bs"
    using no room off by (simp add: chunk_room_def c'_def n_def flip: off_def)
  ultimately show ?thesis using run wf' by (auto simp: c'_def n_def)
qed

lemma chunk_read_spec:
  assumes wf: "chunk_wf c"
  shows "chunk_read len c =
    Inr ((of_nat (min (unat len) (chunk_room c)), take (min (unat len) (chunk_room c)) (drop (unat (ck_offset c)) (ck_data c))),
         c\<lparr>ck_offset := (if unat len \<le> chunk_room c then ck_offset c + len else 0)\<rparr>)"
proof (cases "unat len \<le> chunk_room c")
  case True
  then have "len \<le> chunk_left c" by (simp add: word_le_nat_alt unat_chunk_left [OF wf])
  moreover have "unat (ck_offset c) + unat len \<le> length (ck_data c)" using True wf by (auto simp: chunk_room_def chunk_wf_def)
  ultimately show ?thesis using True by (simp add: chunk_read_def Let_def read_at_def min_def)
next
  case False
  then have "\<not> len \<le> chunk_left c" by (simp add: word_le_nat_alt unat_chunk_left [OF wf])
  moreover have "unat (ck_offset c) + chunk_room c \<le> length (ck_data c)" using wf by (simp add: chunk_room_def chunk_wf_def)
  moreover have "(of_nat (chunk_room c) :: size_t) = chunk_left c" by (simp flip: unat_chunk_left [OF wf])
  ultimately show ?thesis
    using False unat_chunk_left [OF wf] by (simp add: chunk_read_def Let_def read_at_def min_def)
qed

lemma chunk_read_wf:
  assumes "chunk_wf c" and "chunk_read len c = Inr (r, c')"
  shows "chunk_wf c'"
proof -
  have "unat (ck_offset c) + unat len < 2 ^ 64" if "unat len \<le> chunk_room c"
    using that assms(1) unat_u32_bound [of "ck_bytes c"] by (auto simp: chunk_room_def chunk_wf_def)
  then have "unat (ck_offset c + len) = unat (ck_offset c) + unat len" if "unat len \<le> chunk_room c"
    using that by (simp add: unat_word_ariths(1))
  then show ?thesis using assms by (auto simp: chunk_read_spec chunk_wf_def chunk_room_def)
qed

section \<open>Pools\<close>

text \<open>
  What a client of a pool relies on: drawing from it moves objects out of it and nothing else, and
  putting one back adds it.
\<close>

locale pool =
  fixes draw :: "'n \<Rightarrow> 'p \<Rightarrow> fault + 'c list \<times> 'p" and put :: "'c \<Rightarrow> 'p \<Rightarrow> 'p"
    and free :: "'p \<Rightarrow> 'c multiset" and proper :: "'n \<Rightarrow> bool"
  assumes draw_moves: "proper n \<Longrightarrow> draw n p = Inr (cs, p') \<Longrightarrow> free p = mset cs + free p'"
    and put_adds: "free (put c p) = add_mset c (free p)"
begin

lemma put_all: "free (fold put cs p) = mset cs + free p"
  by (induction cs arbitrary: p) (simp_all add: put_adds)

lemma draw_put_back:
  "proper n \<Longrightarrow> draw n p = Inr (cs, p') \<Longrightarrow> free (fold put cs p') = free p"
  by (simp add: put_all draw_moves)

text \<open>Objects of a pool without duplicates have one owner after a draw.\<close>

lemma draw_disjoint:
  assumes "proper n" and "draw n p = Inr (cs, p')" and "\<forall>c. count (free p) c \<le> 1"
  shows "distinct cs" and "set cs \<inter> set_mset (free p') = {}"
proof -
  have c: "count (mset cs) c + count (free p') c \<le> 1" for c
    using assms(3) draw_moves [OF assms(1,2)] by simp
  have "count (mset cs) x = (if x \<in> set cs then 1 else 0)" for x
  proof (cases "x \<in> set cs")
    case True
    then have "0 < count (mset cs) x" by simp
    then have "count (mset cs) x = 1" using c [of x] by linarith
    then show ?thesis using True by simp
  next
    case False
    then show ?thesis by (simp flip: count_eq_zero_iff)
  qed
  then show "distinct cs" unfolding distinct_count_atmost_1 by blast
  show "set cs \<inter> set_mset (free p') = {}"
  proof (rule ccontr)
    assume "set cs \<inter> set_mset (free p') \<noteq> {}"
    then obtain x where "x \<in># mset cs" "x \<in># free p'" by auto
    then have "1 \<le> count (mset cs) x" "1 \<le> count (free p') x" by (simp_all add: Suc_le_eq)
    then show False using c [of x] by linarith
  qed
qed

end

lemma pop_chunks_eq:
  "n \<le> length fr \<Longrightarrow> pop_chunks n acc fr = (acc @ rev (drop (length fr - n) fr), take (length fr - n) fr)"
proof (induction n arbitrary: acc fr)
  case 0
  then show ?case by simp
next
  case (Suc n)
  obtain ys y where fr: "fr = ys @ [y]" using Suc.prems by (cases fr rule: rev_cases) auto
  then show ?case using Suc by simp
qed

lemma get_buffers_cases:
  assumes "bytes \<noteq> 0" and "get_buffers bytes cl = Inr (cs, cl')"
  shows "chunk_size cl' = chunk_size cl \<and>
    (if length (free_chunks cl) < unat (chunk_count (chunk_size cl) bytes) then cs = [] \<and> cl' = cl
     else length cs = unat (chunk_count (chunk_size cl) bytes) \<and> free_chunks cl = free_chunks cl' @ rev cs)"
  using assms by (auto simp: get_buffers_def Let_def pop_chunks_eq split: if_splits)

interpretation clusterpool: pool get_buffers take_back "\<lambda>cl. mset (free_chunks cl)" "\<lambda>bytes. bytes \<noteq> 0"
proof unfold_locales
  fix bytes p cs p' assume "bytes \<noteq> 0" and "get_buffers bytes p = Inr (cs, p')"
  then show "mset (free_chunks p) = mset cs + mset (free_chunks p')"
    using get_buffers_cases [of bytes p cs p'] by (auto split: if_splits)
next
  fix c p show "mset (free_chunks (take_back c p)) = add_mset c (mset (free_chunks p))"
    by (simp add: take_back_def)
qed

text \<open>The number of chunks is the size over the chunk size, rounded up.\<close>

lemma chunk_count_ceiling:
  assumes "sz \<noteq> 0" and "unat bytes div unat sz + 1 < 2 ^ 32"
  shows "unat (chunk_count sz bytes) = (unat bytes + unat sz - 1) div unat sz"
proof -
  define q where "q = unat bytes div unat sz"
  define r where "r = unat bytes mod unat sz"
  have s0: "0 < unat sz" using assms(1) by (simp add: unat_gt_0)
  have ud: "unat (bytes div ucast sz) = q" and um: "unat (bytes mod ucast sz) = r"
    by (simp_all add: unat_div unat_mod unat_ucast_u32_u64 q_def r_def)
  have "unat (bytes div ucast sz + 1) = q + 1" using assms(2) by (simp add: unat_word_ariths(1) ud q_def)
  then have num: "unat (ucast (bytes div ucast sz + 1) :: u32) = q + 1"
    using assms(2) by (simp add: unsigned_ucast_eq take_bit_eq_mod q_def)
  have b: "unat bytes = unat sz * q + r" and r: "r < unat sz" using s0 by (simp_all add: q_def r_def)
  have "(unat bytes + unat sz - 1) div unat sz = (if r = 0 then q else q + 1)"
    using s0 r by (auto simp: b intro!: div_nat_eqI)
  moreover have "bytes mod ucast sz = 0 \<longleftrightarrow> r = 0" using um by (metis unat_eq_0)
  moreover have "unat ((ucast (bytes div ucast sz + 1) :: u32) - 1) = q"
    using num by (subst unat_sub) (simp_all add: word_le_nat_alt)
  ultimately show ?thesis by (simp add: chunk_count_def Let_def num)
qed

lemma get_buffers_result:
  assumes "bytes \<noteq> 0" and "chunk_size cl \<noteq> 0" and "unat bytes div unat (chunk_size cl) + 1 < 2 ^ 32"
  shows "\<exists>cs cl'. get_buffers bytes cl = Inr (cs, cl') \<and>
    (if length (free_chunks cl) * unat (chunk_size cl) < unat bytes then cs = [] \<and> cl' = cl
     else free_chunks cl = free_chunks cl' @ rev cs \<and> chunk_size cl' = chunk_size cl
       \<and> unat bytes \<le> length cs * unat (chunk_size cl) \<and> (length cs - 1) * unat (chunk_size cl) < unat bytes)"
proof -
  define s where "s = unat (chunk_size cl)"
  define n where "n = unat (chunk_count (chunk_size cl) bytes)"
  have s0: "0 < s" using assms(2) by (simp add: s_def unat_gt_0)
  have b0: "0 < unat bytes" using assms(1) by (simp add: unat_gt_0)
  have n: "n = (unat bytes + s - 1) div s" using chunk_count_ceiling [OF assms(2,3)] by (simp add: n_def s_def)
  have few: "k < n \<longleftrightarrow> k * s < unat bytes" for k
  proof -
    have "k < n \<longleftrightarrow> Suc k * s \<le> unat bytes + s - 1" unfolding n using s0 by (simp add: less_eq_div_iff_mult_less_eq Suc_le_eq [symmetric])
    then show ?thesis using s0 by auto
  qed
  obtain cs cl' where get: "get_buffers bytes cl = Inr (cs, cl')"
    using assms(1,2) by (cases "get_buffers bytes cl") (auto simp: get_buffers_def Let_def split_beta split: if_splits)
  have "unat bytes \<le> n * s" using few [of n] by simp
  moreover have "(n - 1) * s < unat bytes" using few [of "n - 1"] few [of 0] b0 by simp
  ultimately show ?thesis
    using get get_buffers_cases [OF assms(1) get] few [of "length (free_chunks cl)"]
    by (auto simp flip: s_def n_def)
qed

section \<open>Filling a cluster\<close>

text \<open>
  After \<open>k\<close> iterations the offset is \<open>k\<close> chunks, modulo \<open>2 ^ 32\<close>, and \<open>bytes\<close> is \<open>num\<close> chunks in
  the same arithmetic: so the loop ends after at most \<open>num\<close> iterations, wrapped or not.
\<close>

lemma add_loop_terminates:
  assumes "bytes = chunk_size (fst st) * num" and "k \<le> unat num" and "unat num - k < fuel"
  shows "fst (add_loop fuel E pd base bytes (of_nat k * chunk_size (fst st)) st w) \<noteq> Inl Out_of_fuel"
  using assms
proof (induction fuel arbitrary: k st w)
  case 0
  then show ?case by simp
next
  case (Suc fuel)
  obtain cl h where st: "st = (cl, h)" by (cases st)
  show ?case
  proof (cases "of_nat k * chunk_size cl < bytes")
    case False
    then show ?thesis by (simp add: st prog_simps)
  next
    case True
    have "k \<noteq> unat num"
    proof
      assume "k = unat num"
      then have "of_nat k * chunk_size cl = bytes" using Suc.prems(1) by (simp add: st mult.commute)
      then show False using True by simp
    qed
    then have "Suc k \<le> unat num" "unat num - Suc k < fuel" using Suc.prems by auto
    moreover have "of_nat k * chunk_size cl + chunk_size cl = of_nat (Suc k) * chunk_size cl" by (simp add: algebra_simps)
    ultimately show ?thesis
      using True Suc.IH [of "(cl\<lparr>free_chunks := f\<rparr>, h')" "Suc k" for f h'] Suc.prems(1)
      by (auto simp: st prog_simps split: option.split)
  qed
qed

text \<open>The chunk that iteration \<open>j\<close> makes.\<close>

definition chunk_at :: "'w ib_env \<Rightarrow> u64 \<Rightarrow> u32 \<Rightarrow> nat \<Rightarrow> ibv_mr \<Rightarrow> chunk" where
  "chunk_at E base sz j mr = (let a = base + of_nat (j * unat sz) in
     \<lparr>ck_buffer = a, ck_bytes = sz, ck_offset = 0, ck_mr = mr, ck_data = fresh_bytes E a (unat sz)\<rparr>)"

lemma chunk_at_wf: "chunk_wf (chunk_at E base sz j mr)"
  by (simp add: chunk_wf_def chunk_at_def fresh_bytes_def Let_def)

lemma add_loop_chunks:
  assumes "sz \<noteq> 0" and nw: "unat sz * unat num < 2 ^ 32" and "k \<le> unat num" and "chunk_size cl = sz"
    and "add_loop fuel E pd base (sz * num) (of_nat k * sz) (cl, h) w = (Inr (cl', h'), w')"
  shows "\<exists>ps. free_chunks cl' = free_chunks cl @ ps \<and> chunk_size cl' = sz \<and> length ps = unat num - k
    \<and> (\<forall>p. p \<notin> set ps \<longrightarrow> h' p = h p)
    \<and> (distinct ps \<longrightarrow> (\<forall>i < length ps. \<exists>mr. h' (ps ! i) = Some (chunk_at E base sz (k + i) mr)))"
  using assms(3-5)
proof (induction fuel arbitrary: k cl h w)
  case 0
  then show ?case by (simp add: fail_Inr_iff)
next
  case (Suc fuel)
  have s0: "0 < unat sz" using assms(1) by (simp add: unat_gt_0)
  have off: "unat (of_nat j * sz) = j * unat sz" if "j \<le> unat num" for j
  proof -
    have "j * unat sz \<le> unat sz * unat num" using that by (simp add: mult.commute)
    then have "j * unat sz < 2 ^ 32" using nw by linarith
    moreover have "j < 2 ^ 32" using that unat_u32_bound [of num] by simp
    ultimately show ?thesis by (simp add: unat_word_ariths(2) unat_of_nat)
  qed
  have "unat (sz * num) = unat num * unat sz" using off [of "unat num"] by (simp add: mult.commute)
  then have cond: "of_nat k * sz < sz * num \<longleftrightarrow> k < unat num"
    using off [OF Suc.prems(1)] s0 by (simp add: word_less_nat_alt)
  show ?case
  proof (cases "k < unat num")
    case False
    then show ?thesis using Suc.prems cond by (auto simp: ret_Inr_iff)
  next
    case True
    have step: "of_nat k * sz + sz = of_nat (Suc k) * sz" by (simp add: algebra_simps)
    have room: "min (unat sz) (unat (sz * num) - unat (of_nat k * sz)) = unat sz"
    proof -
      have "unat sz * Suc k \<le> unat sz * unat num" using True by (intro mult_le_mono2) simp
      then show ?thesis using off [of k] off [of "unat num"] True by (simp add: mult.commute)
    qed
    have "(of_nat (unat (of_nat k * sz)) :: u64) = ucast (of_nat k * sz)" by simp
    then have addr: "ucast (of_nat k * sz) = (of_nat (k * unat sz) :: u64)" unfolding off [OF Suc.prems(1)] by simp
    obtain mr p w1 where rest: "add_loop fuel E pd base (sz * num) (of_nat (Suc k) * sz)
        (cl\<lparr>free_chunks := free_chunks cl @ [p]\<rparr>, h(p \<mapsto> chunk_at E base sz k mr)) w1 = (Inr (cl', h'), w')"
      using Suc.prems(2,3) True cond room addr step
      by (auto simp: run_iffs chunk_at_def Let_def)
    from Suc.IH [OF _ _ rest] True Suc.prems(2)
    obtain ps where ps: "free_chunks cl' = free_chunks cl @ p # ps" "chunk_size cl' = sz" "length ps = unat num - Suc k"
      and out: "\<forall>q. q \<notin> set ps \<longrightarrow> h' q = (h(p \<mapsto> chunk_at E base sz k mr)) q"
      and ch: "distinct ps \<longrightarrow> (\<forall>i < length ps. \<exists>mr. h' (ps ! i) = Some (chunk_at E base sz (Suc k + i) mr))"
      by auto
    have "\<exists>mr. h' ((p # ps) ! i) = Some (chunk_at E base sz (k + i) mr)"
      if "distinct (p # ps)" and "i < length (p # ps)" for i
      using that out ch by (cases i) auto
    then show ?thesis using ps out True by (intro exI [of _ "p # ps"]) auto
  qed
qed

section \<open>The life of the buffers for sending\<close>

text \<open>
  The stack takes buffers for sending with \<open>get_channel_buffers\<close> (through \<open>get_tx_buffers\<close>) and
  gives them back with \<open>return_channel\<close> when their send has completed; it calls no other operation
  of the manager after start-up. A state is the manager, the chunks in use and the history of the
  requests with what each was given. Requests for 0 bytes are among the steps: a \<open>send\<close> of an
  empty buffer list makes one, and \<open>get_buffers\<close> then hands out every free chunk without removing
  it from the free list.
\<close>

type_synonym requests = "(size_t \<times> chunk_ptr list) list"

inductive mm_step :: "memory_manager \<times> chunk_ptr multiset \<times> requests \<Rightarrow> memory_manager \<times> chunk_ptr multiset \<times> requests \<Rightarrow> bool" where
  Take: "get_channel_buffers bytes mm = Inr (cs, mm') \<Longrightarrow>
    mm_step (mm, used, rq) (mm', used + mset cs, rq @ [(bytes, cs)])"
| Return: "c \<in># used \<Longrightarrow> return_channel c mm = Inr mm' \<Longrightarrow>
    mm_step (mm, used, rq) (mm', used - {#c#}, rq)"

text \<open>What the requests of at least one byte were given, and what those of 0 bytes were given.\<close>

definition taken :: "requests \<Rightarrow> chunk_ptr list" where
  "taken rq = concat (map snd (filter (\<lambda>(bytes, cs). bytes \<noteq> 0) rq))"

definition lent :: "requests \<Rightarrow> chunk_ptr list" where
  "lent rq = concat (map snd (filter (\<lambda>(bytes, cs). bytes = 0) rq))"

lemma taken_simps [simp]:
  "taken [] = []" "taken (rq @ [(bytes, cs)]) = taken rq @ (if bytes = 0 then [] else cs)"
  by (simp_all add: taken_def)

lemma lent_simps [simp]:
  "lent [] = []" "lent (rq @ [(bytes, cs)]) = lent rq @ (if bytes = 0 then cs else [])"
  by (simp_all add: lent_def)

abbreviation channel_free :: "memory_manager \<Rightarrow> chunk_ptr list" where
  "channel_free mm \<equiv> free_chunks (the (mm_channel mm))"

abbreviation send_free :: "memory_manager \<Rightarrow> chunk_ptr list" where
  "send_free mm \<equiv> free_chunks (the (mm_send mm))"

text \<open>
  The accounts of a run that starts with the free chunks \<open>ch\<close> in \<open>channel\<close> and \<open>sd\<close> in \<open>send\<close>.
\<close>

fun mm_accounts :: "chunk_ptr list \<Rightarrow> chunk_ptr list \<Rightarrow> memory_manager \<times> chunk_ptr multiset \<times> requests \<Rightarrow> bool" where
  "mm_accounts ch sd (mm, used, rq) \<longleftrightarrow> mm_channel mm \<noteq> None \<and> mm_send mm \<noteq> None
     \<and> ch = channel_free mm @ rev (taken rq)
     \<and> mset (channel_free mm) + mset (send_free mm) + used = mset ch + mset sd + mset (lent rq)
     \<and> (\<forall>(bytes, cs) \<in> set rq. set cs \<subseteq> set ch)"

lemma get_buffers_free:
  assumes "get_buffers bytes cl = Inr (cs, cl')"
  shows "free_chunks cl = free_chunks cl' @ (if bytes = 0 then [] else rev cs)
    \<and> (bytes = 0 \<longrightarrow> cs = free_chunks cl) \<and> set cs \<subseteq> set (free_chunks cl)"
proof (cases "bytes = 0")
  case True
  then show ?thesis using assms by (auto simp: get_buffers_def)
next
  case False
  have "free_chunks cl = free_chunks cl' @ rev cs"
    using get_buffers_cases [OF False assms] by (auto split: if_splits)
  then show ?thesis using False by simp
qed

lemma mm_step_accounts:
  assumes "mm_step s t" and "mm_accounts ch sd s"
  shows "mm_accounts ch sd t"
  using assms
proof (induction rule: mm_step.induct)
  case (Take bytes mm cs mm' used rq)
  obtain cl cl' where cl: "mm_channel mm = Some cl" and get: "get_buffers bytes cl = Inr (cs, cl')"
    and mm': "mm' = mm\<lparr>mm_channel := Some cl'\<rparr>"
    using Take.hyps by (auto simp: get_channel_buffers_def sbnd_Inr_iff split: option.splits)
  note free = get_buffers_free [OF get]
  have sub: "set cs \<subseteq> set ch" using free Take.prems cl by auto
  show ?case
  proof (cases "bytes = 0")
    case True
    then show ?thesis using Take.prems cl mm' free sub by fastforce
  next
    case False
    then have "mset (free_chunks cl) = mset (free_chunks cl') + mset cs" using free by simp
    then show ?thesis using Take.prems cl mm' free sub False by fastforce
  qed
next
  case (Return c used mm mm' rq)
  then show ?case by (auto simp: return_channel_def take_back_def split: option.splits)
qed

lemma mm_steps_account:
  assumes "mm_step\<^sup>*\<^sup>* s t" and "mm_accounts ch sd s"
  shows "mm_accounts ch sd t"
  using assms by (induction rule: rtranclp_induct) (blast intro: mm_step_accounts)+

section \<open>Properties\<close>

text \<open>
  C10. Writing to and reading from a chunk keep its cursor inside its buffer and never touch a
  byte outside it. A write appends to what is in front of the cursor as much as there is room for
  and says how much that was; after moving the cursor back to the start, a read of at most that
  length returns the beginning of what was written.
\<close>
theorem chunk_write_then_read:
  assumes "chunk_wf c" and "length bs < 2 ^ 64"
  shows "\<exists>n c'. chunk_write bs c = Inr (n, c') \<and> chunk_wf c' \<and> unat n = min (length bs) (chunk_room c)
    \<and> chunk_written c' = chunk_written c @ take (unat n) bs
    \<and> (chunk_full c' \<longleftrightarrow> chunk_room c \<le> length bs)
    \<and> (\<forall>k. k \<le> unat (ck_offset c') \<longrightarrow>
        (\<exists>c''. chunk_read (of_nat k) (set_offset 0 c') = Inr ((of_nat k, take k (chunk_written c')), c'') \<and> chunk_wf c''))"
proof -
  obtain c' where run: "chunk_write bs c = Inr (of_nat (min (length bs) (chunk_room c)), c')" and wf: "chunk_wf c'"
    and w: "chunk_written c' = chunk_written c @ take (chunk_room c) bs" and room: "chunk_room c' = chunk_room c - length bs"
    using chunk_write_spec [OF assms] by auto
  have n: "unat (of_nat (min (length bs) (chunk_room c)) :: size_t) = min (length bs) (chunk_room c)"
    using chunk_room_bound [of c] by (simp add: unat_of_nat)
  have "\<exists>c''. chunk_read (of_nat k) (set_offset 0 c') = Inr ((of_nat k, take k (chunk_written c')), c'') \<and> chunk_wf c''"
    if k: "k \<le> unat (ck_offset c')" for k
  proof -
    have wf0: "chunk_wf (set_offset 0 c')" using wf by (simp add: chunk_wf_def set_offset_def)
    have le: "k \<le> unat (ck_bytes c')" using k wf by (simp add: chunk_wf_def)
    then have uk: "unat (of_nat k :: size_t) = k" using unat_u32_bound [of "ck_bytes c'"] by (simp add: unat_of_nat)
    have r: "chunk_room (set_offset 0 c') = unat (ck_bytes c')" by (simp add: chunk_room_def set_offset_def)
    have "chunk_read (of_nat k) (set_offset 0 c') = Inr ((of_nat k, take k (chunk_written c')), (set_offset 0 c')\<lparr>ck_offset := of_nat k\<rparr>)"
      unfolding chunk_read_spec [OF wf0] using uk r le k by (simp add: chunk_written_def set_offset_def)
    then show ?thesis using chunk_read_wf [OF wf0] by blast
  qed
  moreover have "take (min (length bs) (chunk_room c)) bs = take (chunk_room c) bs" by (simp add: min_def)
  ultimately show ?thesis
    using run wf w n room chunk_full_iff [OF wf] by (intro exI [of _ "of_nat (min (length bs) (chunk_room c))"] exI [of _ c']) auto
qed

definition sample_chunk :: chunk where
  "sample_chunk = \<lparr>ck_buffer = 4096, ck_bytes = 8, ck_offset = 2,
     ck_mr = \<lparr>mr_handle = 1, mr_addr = 4096, mr_lkey = 11, mr_rkey = 12\<rparr>, ck_data = ''xyabcdef''\<rparr>"

lemma chunk_write_then_read_witness:
  "\<exists>n c'. chunk_write ''12345678'' sample_chunk = Inr (n, c') \<and> unat n = 6 \<and> chunk_full c'
    \<and> (\<exists>c''. chunk_read 5 (set_offset 0 c') = Inr ((5, ''xy123''), c''))"
proof -
  have wf: "chunk_wf sample_chunk" and room: "chunk_room sample_chunk = 6" and w: "chunk_written sample_chunk = ''xy''"
    by (simp_all add: chunk_wf_def chunk_room_def chunk_written_def sample_chunk_def)
  obtain n c' where run: "chunk_write ''12345678'' sample_chunk = Inr (n, c')" and n: "unat n = 6" and wf': "chunk_wf c'"
    and w': "chunk_written c' = ''xy123456''" and full: "chunk_full c'"
    and rd: "\<forall>k \<le> unat (ck_offset c'). \<exists>c''. chunk_read (of_nat k) (set_offset 0 c')
        = Inr ((of_nat k, take k (chunk_written c')), c'') \<and> chunk_wf c''"
    using chunk_write_then_read [OF wf, of "''12345678''"] by (auto simp: room w)
  have "unat (ck_offset c') = 8" using length_chunk_written [OF wf'] by (simp add: w')
  then have "\<exists>c''. chunk_read 5 (set_offset 0 c') = Inr ((5, ''xy123''), c'')" using rd [rule_format, of 5] by (auto simp: w')
  then show ?thesis using run n full by blast
qed

text \<open>
  C11. \<open>get_buffers\<close> of a positive number of bytes gives exactly as many chunks as are needed (none
  to spare), taken from the end of the free list and removed from it; when there are too few it
  gives none and changes nothing.
\<close>
theorem get_buffers_enough:
  assumes "bytes \<noteq> 0" and "chunk_size cl \<noteq> 0" and "unat bytes div unat (chunk_size cl) + 1 < 2 ^ 32"
  shows "\<exists>cs cl'. get_buffers bytes cl = Inr (cs, cl') \<and>
    (if length (free_chunks cl) * unat (chunk_size cl) < unat bytes then cs = [] \<and> cl' = cl
     else free_chunks cl = free_chunks cl' @ rev cs \<and> chunk_size cl' = chunk_size cl
       \<and> unat bytes \<le> length cs * unat (chunk_size cl) \<and> (length cs - 1) * unat (chunk_size cl) < unat bytes)"
  using assms by (rule get_buffers_result)

lemma get_buffers_enough_witness:
  "\<exists>cs cl'. get_buffers 20 \<lparr>chunk_size = 8, free_chunks = [1, 2, 3, 4]\<rparr> = Inr (cs, cl')
    \<and> [1, 2, 3, 4] = free_chunks cl' @ rev cs \<and> length cs = 3"
proof -
  obtain cs cl' where "get_buffers 20 \<lparr>chunk_size = 8, free_chunks = [1, 2, 3, 4]\<rparr> = Inr (cs, cl')"
    "[1, 2, 3, 4] = free_chunks cl' @ rev cs" and l: "20 \<le> length cs * 8" "(length cs - 1) * 8 < 20"
    using get_buffers_enough [of 20 "\<lparr>chunk_size = 8, free_chunks = [1, 2, 3, 4]\<rparr>"] by auto
  moreover have "length cs = 3" using l by linarith
  ultimately show ?thesis by blast
qed

text \<open>
  C13. Filling a cluster always ends: the fuel of the model, one more iteration than the number of
  chunks asked for, is never used up, whatever the sizes, even where \<open>chunk_size * num\<close> or the
  offset wraps around \<open>2 ^ 32\<close>.
\<close>
theorem cluster_add_terminates:
  "fst (cluster_add E pd num st w) \<noteq> Inl Out_of_fuel"
  using add_loop_terminates [of _ st num 0 "Suc (unat num)" E pd]
  by (simp add: cluster_add_def Let_def prog_simps split: option.split)

text \<open>
  C12. When \<open>chunk_size * num\<close> fits into 32 bits, a call of \<open>add\<close> that returns has appended exactly
  \<open>num\<close> chunks, and (given that \<open>new\<close> returns distinct addresses) they are the consecutive
  slices of one block, each with its cursor at the start; other chunks are left alone.
\<close>
theorem cluster_add_chunks:
  assumes "chunk_size cl \<noteq> 0" and "unat (chunk_size cl) * unat num < 2 ^ 32"
    and "cluster_add E pd num (cl, h) w = (Inr (cl', h'), w')"
  shows "\<exists>ps base. free_chunks cl' = free_chunks cl @ ps \<and> length ps = unat num
    \<and> (\<forall>p. p \<notin> set ps \<longrightarrow> h' p = h p)
    \<and> (distinct ps \<longrightarrow> (\<forall>i < unat num. \<exists>c. h' (ps ! i) = Some c \<and> chunk_wf c \<and> ck_offset c = 0
         \<and> ck_bytes c = chunk_size cl \<and> ck_buffer c = base + of_nat (i * unat (chunk_size cl))))"
proof -
  obtain base w1 where run: "add_loop (Suc (unat num)) E pd base (chunk_size cl * num) (of_nat 0 * chunk_size cl) (cl, h) w1
      = (Inr (cl', h'), w')"
    using assms(3) by (auto simp: cluster_add_def Let_def run_iffs)
  obtain ps where ps: "free_chunks cl' = free_chunks cl @ ps" "length ps = unat num" "\<forall>p. p \<notin> set ps \<longrightarrow> h' p = h p"
    and ch: "distinct ps \<longrightarrow> (\<forall>i < length ps. \<exists>mr. h' (ps ! i) = Some (chunk_at E base (chunk_size cl) (0 + i) mr))"
    using add_loop_chunks [OF assms(1,2) _ refl run] by auto
  have "\<exists>c. h' (ps ! i) = Some c \<and> chunk_wf c \<and> ck_offset c = 0 \<and> ck_bytes c = chunk_size cl
      \<and> ck_buffer c = base + of_nat (i * unat (chunk_size cl))" if d: "distinct ps" and i: "i < unat num" for i
  proof -
    obtain mr where "h' (ps ! i) = Some (chunk_at E base (chunk_size cl) i mr)" using ch d i ps(2) by auto
    moreover have "chunk_wf (chunk_at E base (chunk_size cl) i mr)" by (rule chunk_at_wf)
    ultimately show ?thesis by (simp add: chunk_at_def Let_def)
  qed
  then show ?thesis using ps by blast
qed

definition sample_cluster :: cluster where
  "sample_cluster = \<lparr>chunk_size = 16, free_chunks = [7]\<rparr>"

lemma cluster_add_chunks_witness:
  "\<exists>cl' h' w'. cluster_add sample_ib_env 3 2 (sample_cluster, Map.empty) 100 = (Inr (cl', h'), w')
    \<and> length (free_chunks cl') = 3 \<and> h' 7 = None"
proof -
  have fuel: "Suc (unat (2 :: u32)) = Suc (Suc (Suc 0))" by simp
  have "\<exists>cl' h' w'. cluster_add sample_ib_env 3 2 (sample_cluster, Map.empty) 100 = (Inr (cl', h'), w')
      \<and> free_chunks cl' = [7, 102, 104]"
    unfolding cluster_add_def fuel by (simp add: sample_sel sample_cluster_def Let_def prog_simps)
  then obtain cl' h' w' where run: "cluster_add sample_ib_env 3 2 (sample_cluster, Map.empty) 100 = (Inr (cl', h'), w')"
    and f: "free_chunks cl' = [7, 102, 104]" by blast
  from cluster_add_chunks [OF _ _ run] obtain ps where "free_chunks cl' = [7] @ ps"
    "\<forall>p. p \<notin> set ps \<longrightarrow> h' p = None"
    by (auto simp: sample_cluster_def)
  then show ?thesis using run f by auto
qed

text \<open>
  C33. Buffers for sending run out for good: \<open>get_channel_buffers\<close> takes them from the cluster
  \<open>channel\<close>, and \<open>return_channel\<close> puts them into the cluster \<open>send\<close>, from which nothing takes. In
  every run of requests and returns the free list of \<open>channel\<close> only shrinks: what is left of it,
  followed by the chunks that the requests of at least one byte were given, latest first, is the
  initial list, so those requests never get more chunks between them than it had. Whatever any
  request was given, also one for 0 bytes, is among these chunks; the latter leave what they hand
  out in the list, so the chunks in use and in the two free lists are the initial ones plus what
  such requests were given. Once the list is empty every further request, of whatever size, gets
  none, although all the chunks may be free.
\<close>
theorem tx_buffers_run_out:
  assumes "mm_step\<^sup>*\<^sup>* (mm, {#}, []) (mm', used, rq)"
    and "mm_channel mm = Some ch" and "mm_send mm = Some sd"
  shows "free_chunks ch = channel_free mm' @ rev (taken rq)
    \<and> mset (channel_free mm') + mset (send_free mm') + used
        = mset (free_chunks ch) + mset (free_chunks sd) + mset (lent rq)
    \<and> (\<forall>(bytes, cs) \<in> set rq. set cs \<subseteq> set (free_chunks ch))
    \<and> (channel_free mm' = [] \<longrightarrow> get_channel_buffers bytes mm' = Inr (cs, mm'') \<longrightarrow> cs = [] \<and> mm'' = mm')"
proof -
  have "mm_accounts (free_chunks ch) (free_chunks sd) (mm', used, rq)"
    by (rule mm_steps_account [OF assms(1)]) (simp add: assms(2,3))
  moreover have "cs = [] \<and> mm'' = mm'"
    if empty: "channel_free mm' = []" and get: "get_channel_buffers bytes mm' = Inr (cs, mm'')"
  proof -
    obtain cl cl' where cl: "mm_channel mm' = Some cl" and b: "get_buffers bytes cl = Inr (cs, cl')"
      and mm'': "mm'' = mm'\<lparr>mm_channel := Some cl'\<rparr>"
      using get by (auto simp: get_channel_buffers_def sbnd_Inr_iff split: option.splits)
    have "cs = []" using get_buffers_free [OF b] empty cl by auto
    moreover have "cl' = cl"
      using get_buffers_free [OF b] b empty cl \<open>cs = []\<close> get_buffers_cases [OF _ b]
      by (cases "bytes = 0") (auto simp: get_buffers_def split: if_splits)
    ultimately show ?thesis using mm'' cl by simp
  qed
  ultimately show ?thesis unfolding mm_accounts.simps by blast
qed

definition sample_manager :: memory_manager where
  "sample_manager = \<lparr>mm_channel = Some \<lparr>chunk_size = 8, free_chunks = [1, 2]\<rparr>, mm_rdma = None,
     mm_send = Some \<lparr>chunk_size = 8, free_chunks = [3]\<rparr>, mm_heap = Map.empty\<rparr>"

lemma tx_buffers_run_out_witness:
  "\<exists>mm' used rq. mm_step\<^sup>*\<^sup>* (sample_manager, {#}, []) (mm', used, rq)
    \<and> taken rq = [2, 1] \<and> lent rq = [1, 2] \<and> channel_free mm' = []
    \<and> mset (send_free mm') + used = {#1, 2, 3, 1, 2#}
    \<and> get_channel_buffers 5 mm' = Inr ([], mm')"
proof -
  define mm' where "mm' = sample_manager\<lparr>mm_channel := Some \<lparr>chunk_size = 8, free_chunks = []\<rparr>\<rparr>"
  define rq :: requests where "rq = [(0, [1, 2]), (16, [2, 1])]"
  have "unat (chunk_count 8 16) = Suc (Suc 0)" by (simp add: chunk_count_def)
  then have two: "get_channel_buffers 16 sample_manager = Inr ([2, 1], mm')"
    by (simp add: get_channel_buffers_def sample_manager_def mm'_def get_buffers_def)
  have "get_channel_buffers 0 sample_manager = Inr ([1, 2], sample_manager)"
    by (simp add: get_channel_buffers_def sample_manager_def get_buffers_def)
  then have "mm_step (sample_manager, {#}, []) (sample_manager, {#} + mset [1, 2], [] @ [(0, [1, 2])])"
    by (rule mm_step.Take)
  moreover have "mm_step (sample_manager, {#} + mset [1, 2], [] @ [(0, [1, 2])])
      (mm', ({#} + mset [1, 2]) + mset [2, 1], ([] @ [(0, [1, 2])]) @ [(16, [2, 1])])"
    using two by (rule mm_step.Take)
  ultimately have run: "mm_step\<^sup>*\<^sup>* (sample_manager, {#}, []) (mm', ({#} + mset [1, 2]) + mset [2, 1], rq)"
    unfolding rq_def by (simp add: rtranclp.rtrancl_into_rtrancl [OF r_into_rtranclp])
  have get: "get_channel_buffers 5 mm' = Inr ([], mm')"
    by (simp add: get_channel_buffers_def sample_manager_def mm'_def get_buffers_def chunk_count_def)
  have empty: "channel_free mm' = []" by (simp add: mm'_def)
  note accounts = tx_buffers_run_out [OF run, of "\<lparr>chunk_size = 8, free_chunks = [1, 2]\<rparr>" "\<lparr>chunk_size = 8, free_chunks = [3]\<rparr>" 5 "[]" mm']
  have "mset (send_free mm') + (({#} + mset [1, 2]) + mset [2, 1]) = {#1, 2, 3, 1, 2#}" "taken rq = [2, 1]"
    using accounts empty by (simp_all add: sample_manager_def rq_def lent_def taken_def)
  moreover have "lent rq = [1, 2]" by (simp add: rq_def lent_def)
  ultimately show ?thesis using run empty get by blast
qed

end
