(* ===== verification/ResourceManager.thy ===== *)
theory ResourceManager
  imports StackEnv
begin

text \<open>
  \<open>rdma/ResourceManager.h\<close>: the ports of a device, the devices of the host, and the search for a
  device by name. A pointer that the code leaves uninitialised is \<open>None\<close>; using it is a fault.
\<close>

section \<open>Definitions\<close>

record port =
  pt_num :: u8
  pt_attr :: ibv_port_attr
  pt_lid :: u16
  pt_gid :: ibv_gid

text \<open>The constructor of \<open>Port\<close>; failures of the two queries are only reported.\<close>

definition new_port :: "'w ib_env \<Rightarrow> handle option \<Rightarrow> u8 \<Rightarrow> ('w, port) prog" where
  "new_port E ctxt ipn =
     bnd (deref ctxt) (\<lambda>c.
     bnd (call (ibv_query_port (ib_verbs E) c (uint ipn))) (\<lambda>(_, attr).
     bnd (call (ibv_query_gid (ib_verbs E) c (uint ipn) 0)) (\<lambda>(_, gid).
     ret \<lparr>pt_num = ipn, pt_attr = attr, pt_lid = pa_lid attr, pt_gid = gid\<rparr>)))"

record device =
  dv_name :: string
  dv_ctxt :: "handle option"
  dv_attr :: ibv_device_attr
  dv_ports :: "port list"
  active_port :: "port option"

text \<open>The loop over the ports, from port \<open>i + 1\<close> on.\<close>

fun open_ports :: "'w ib_env \<Rightarrow> nat list \<Rightarrow> device \<Rightarrow> ('w, device) prog" where
  "open_ports E [] d = ret d"
| "open_ports E (i # is) d =
     bnd (new_port E (dv_ctxt d) (of_nat (i + 1))) (\<lambda>p.
     open_ports E is (d\<lparr>dv_ports := dv_ports d @ [p],
       active_port := (if pa_state (pt_attr p) = IBV_PORT_ACTIVE then Some p else active_port d)\<rparr>))"

definition new_device :: "'w ib_env \<Rightarrow> handle \<Rightarrow> ('w, device) prog" where
  "new_device E dev =
     bnd (call (ibv_open_device (ib_verbs E) dev)) (\<lambda>ctxt.
     bnd (deref ctxt) (\<lambda>c.
     bnd (call (ib_query_device E c)) (\<lambda>(_, attr).
     open_ports E [0..<unat (phys_port_cnt attr)]
       \<lparr>dv_name = ibv_get_device_name (ib_verbs E) dev, dv_ctxt = ctxt, dv_attr = attr, dv_ports = [],
        active_port = None\<rparr>)))"

fun open_devices :: "'w ib_env \<Rightarrow> handle list \<Rightarrow> ('w, device list) prog" where
  "open_devices E [] = ret []"
| "open_devices E (h # hs) =
     bnd (new_device E h) (\<lambda>d. bnd (open_devices E hs) (\<lambda>ds. ret (d # ds)))"

text \<open>\<open>DeviceList\<close>, for a context that is not null; a null list has no entries.\<close>

definition new_device_list :: "'w ib_env \<Rightarrow> ('w, device list) prog" where
  "new_device_list E =
     bnd (call (ibv_get_device_list (ib_verbs E))) (\<lambda>l.
     open_devices E (case l of None \<Rightarrow> [] | Some hs \<Rightarrow> hs))"

text \<open>
  \<open>get_device\<close>: the loop variable is a pointer to a device, starting at \<open>devices[0]\<close>; \<open>++r\<close> does
  not move on to \<open>devices[1]\<close> but past the end of the one object, where the name is then read.
\<close>

definition rm_get_device :: "device list \<Rightarrow> string \<Rightarrow> ('w, device option) prog" where
  "rm_get_device devices device_name =
     (case devices of
        [] \<Rightarrow> fail Undefined_behaviour
      | r # _ \<Rightarrow> if device_name = dv_name r then ret (Some r) else fail Undefined_behaviour)"

section \<open>The active port\<close>

abbreviation port_up :: "port \<Rightarrow> bool" where
  "port_up p \<equiv> pa_state (pt_attr p) = IBV_PORT_ACTIVE"

definition last_up :: "port list \<Rightarrow> port option" where
  "last_up ps = (if filter port_up ps = [] then None else Some (last (filter port_up ps)))"

lemma last_up_snoc: "last_up (ps @ [p]) = (if port_up p then Some p else last_up ps)"
  by (simp add: last_up_def)

lemma last_up_None: "last_up ps = None \<longleftrightarrow> (\<forall>p \<in> set ps. \<not> port_up p)"
  by (simp add: last_up_def filter_empty_conv)

lemma open_ports_attr: "open_ports E is d w = (Inr d', w') \<Longrightarrow> dv_attr d' = dv_attr d"
  by (induction E "is" d arbitrary: w rule: open_ports.induct) (auto simp: run_iffs)

lemma open_ports_last_up:
  assumes "open_ports E is d w = (Inr d', w')" and "active_port d = last_up (dv_ports d)"
  shows "active_port d' = last_up (dv_ports d')
    \<and> map pt_num (dv_ports d') = map pt_num (dv_ports d) @ map (\<lambda>i. of_nat (i + 1)) is"
  using assms
proof (induction E "is" d arbitrary: w rule: open_ports.induct)
  case (1 E d)
  then show ?case by (simp add: ret_Inr_iff)
next
  case (2 E i "is" d)
  obtain p w1 where p: "new_port E (dv_ctxt d) (of_nat (i + 1)) w = (Inr p, w1)"
    and rest: "open_ports E is (d\<lparr>dv_ports := dv_ports d @ [p],
       active_port := (if port_up p then Some p else active_port d)\<rparr>) w1 = (Inr d', w')"
    using 2(2) by (auto simp: bnd_Inr_iff)
  have "pt_num p = of_nat (i + 1)" using p by (auto simp: new_port_def run_iffs)
  then show ?case using 2(1) [OF rest] 2(3) by (simp add: last_up_snoc)
qed

section \<open>Properties\<close>

text \<open>
  Opening a device looks at its ports 1 to \<open>phys_port_cnt\<close> in order, and its active port is
  the last one that is up; it is left uninitialised exactly when no port is up.
\<close>
theorem device_active_port:
  assumes "new_device E dev w = (Inr d, w')"
  shows "active_port d = last_up (dv_ports d)
    \<and> map pt_num (dv_ports d) = map (\<lambda>i. of_nat (i + 1)) [0..<unat (phys_port_cnt (dv_attr d))]
    \<and> (active_port d = None \<longleftrightarrow> (\<forall>p \<in> set (dv_ports d). \<not> port_up p))"
proof -
  obtain c attr w1 where run: "open_ports E [0..<unat (phys_port_cnt attr)]
       \<lparr>dv_name = ibv_get_device_name (ib_verbs E) dev, dv_ctxt = Some c, dv_attr = attr, dv_ports = [],
        active_port = None\<rparr> w1 = (Inr d, w')"
    using assms by (auto simp: new_device_def run_iffs)
  have "active_port d = last_up (dv_ports d)
    \<and> map pt_num (dv_ports d) = map (\<lambda>i. of_nat (i + 1)) [0..<unat (phys_port_cnt attr)]"
    using open_ports_last_up [OF run] by (simp add: last_up_def)
  then show ?thesis using open_ports_attr [OF run] by (simp add: last_up_None)
qed

lemma device_active_port_witness:
  "\<exists>d w'. new_device sample_ib_env 7 0 = (Inr d, w') \<and> map pt_num (dv_ports d) = [1] \<and> active_port d \<noteq> None"
proof -
  obtain d w' where run: "new_device sample_ib_env 7 0 = (Inr d, w')"
    and attr: "phys_port_cnt (dv_attr d) = 1" and up: "\<exists>p \<in> set (dv_ports d). port_up p"
    by (simp add: new_device_def new_port_def sample_ib_env_def sample_verbs_def prog_simps)
  then show ?thesis using device_active_port [OF run] by auto
qed

end
