(* ===== verification/SynMessage.thy ===== *)
theory SynMessage
  imports SocketExchange StackEnv
begin

text \<open>
  The datagrams with which two ends of the network stack tell each other their queue pairs:
  \<open>IBSYNMsg\<close> of \<open>rdma/Infiniband.h\<close>, \<open>send_udp_msg\<close> and \<open>recv_udp_msg\<close> of \<open>rdma/Infiniband.cc\<close>.

  \<open>IBSYNMsg\<close> is packed and its first member has 16 bits, but \<open>recv_udp_msg\<close> scans it with \<open>%x\<close>, which
  stores 32 bits. The scan is therefore modelled on the bytes of the structure, in the host's byte
  order.
\<close>

section \<open>Definitions\<close>

record ibsynmsg =
  im_lid :: u16
  im_qpn :: u32
  im_psn :: u32
  im_gid :: ibv_gid

definition syn_size :: nat where
  "syn_size = length ''0000:00000000:00000000:00000000000000000000000000000000'' + 1"

text \<open>Uninitialised locals: \<open>msg\<close>, \<open>gid\<close>, and \<open>v32\<close> of \<open>wire_gid_to_gid\<close>.\<close>

record syn_junk =
  sj_msg :: bytes
  sj_gid :: bytes
  sj_v32 :: u32

text \<open>The class has its own copies of the two conversions of \<open>pingpong.c\<close>, line for line.\<close>

definition ib_wire_gid_to_gid :: "endian \<Rightarrow> u32 \<Rightarrow> bytes \<Rightarrow> ibv_gid \<Rightarrow> fault + ibv_gid" where
  "ib_wire_gid_to_gid e v0 wgid gid =
     sbnd (for_each (wire_gid_group e wgid) [0, 1, 2, 3] (v0, raw gid)) (\<lambda>(_, bs). Inr (gid\<lparr>raw := bs\<rparr>))"

definition ib_gid_to_wire_gid :: "endian \<Rightarrow> ibv_gid \<Rightarrow> bytes \<Rightarrow> fault + bytes" where
  "ib_gid_to_wire_gid e gid wgid = for_each (gid_wire_group e gid) [0, 1, 2, 3] wgid"

definition syn_text :: "ibsynmsg \<Rightarrow> string \<Rightarrow> string" where
  "syn_text im gid =
     print_padded 16 4 (unat (im_lid im)) @ '':'' @ print_padded 16 8 (unat (im_qpn im)) @ '':'' @
     print_padded 16 8 (unat (im_psn im)) @ '':'' @ gid"

text \<open>The injected failures: the call has been made, and its result is replaced by -1.\<close>

definition inject_failure :: "'w ib_env \<Rightarrow> int \<Rightarrow> ('w, int) prog" where
  "inject_failure E r =
     (if ib_inject E then bnd (call (ib_rand E)) (\<lambda>hit. ret (if hit then - 1 else r)) else ret r)"

text \<open>From the label \<open>retry\<close> on; \<open>k\<close> is the number of retries left.\<close>

fun send_try :: "nat \<Rightarrow> 'w ib_env \<Rightarrow> endian \<Rightarrow> syn_junk \<Rightarrow> int \<Rightarrow> ibsynmsg \<Rightarrow> entity_addr \<Rightarrow> ('w, int) prog" where
  "send_try k E e j sd im peer =
     bnd (pure_prog (sbnd (ib_gid_to_wire_gid e (im_gid im) (sj_gid j)) (\<lambda>gid.
            memcpy_at (sj_msg j) 0 (syn_text im (c_string gid) @ [NUL])))) (\<lambda>msg.
     bnd (call (ib_sendto E sd (take syn_size msg) peer)) (\<lambda>r0.
     bnd (inject_failure E r0) (\<lambda>r.
     if r \<noteq> int syn_size then
       if r < 0 then
         bnd (call (ib_again E)) (\<lambda>again.
         case k of Suc k' \<Rightarrow> if again then send_try k' E e j sd im peer else ret (- 1) | 0 \<Rightarrow> ret (- 1))
       else ret (- 1)
     else ret 0)))"

declare send_try.simps [simp del]

definition send_udp_msg :: "'w ib_env \<Rightarrow> endian \<Rightarrow> syn_junk \<Rightarrow> int \<Rightarrow> ibsynmsg \<Rightarrow> entity_addr \<Rightarrow> ('w, int) prog" where
  "send_udp_msg E e j sd im peer = bnd (c_assert (0 \<le> sd)) (\<lambda>_. send_try 3 E e j sd im peer)"

text \<open>The first ten bytes of the structure, and the effect of one \<open>%x\<close> on them.\<close>

definition store16 :: "endian \<Rightarrow> u16 \<Rightarrow> u8 list" where
  "store16 e v = (case e of Little \<Rightarrow> take 2 (store32 Little (ucast v)) | Big \<Rightarrow> drop 2 (store32 Big (ucast v)))"

definition load16 :: "endian \<Rightarrow> u8 list \<Rightarrow> u16" where
  "load16 e bs = (case e of Little \<Rightarrow> ucast (load32 Little (bs @ [0, 0])) | Big \<Rightarrow> ucast (load32 Big ([0, 0] @ bs)))"

definition syn_head :: "endian \<Rightarrow> ibsynmsg \<Rightarrow> u8 list" where
  "syn_head e im = store16 e (im_lid im) @ store32 e (im_qpn im) @ store32 e (im_psn im)"

definition scan_into :: "endian \<Rightarrow> scanned list \<Rightarrow> nat \<Rightarrow> nat \<Rightarrow> u8 list \<Rightarrow> u8 list" where
  "scan_into e vs k pos bs =
     (if k < length vs
      then (case vs ! k of Num n \<Rightarrow> take pos bs @ store32 e (of_nat n) @ drop (pos + 4) bs | Str _ \<Rightarrow> bs)
      else bs)"

definition syn_directives :: "directive list" where
  "syn_directives = [Scan_x None, Scan_lit (CHR '':''), Scan_x None, Scan_lit (CHR '':''), Scan_x None,
     Scan_lit (CHR '':''), Scan_s None]"

definition sscanf_syn :: "endian \<Rightarrow> bytes \<Rightarrow> ibsynmsg \<Rightarrow> bytes \<Rightarrow> fault + ibsynmsg \<times> bytes" where
  "sscanf_syn e msg im gid =
     sbnd (sscanf syn_directives msg) (\<lambda>vs.
     sbnd (scanned_str vs 3 gid) (\<lambda>gid'.
     let bs = scan_into e vs 2 6 (scan_into e vs 1 2 (scan_into e vs 0 0 (syn_head e im))) in
     Inr (im\<lparr>im_lid := load16 e (take 2 bs), im_qpn := load32 e (take 4 (drop 2 bs)),
             im_psn := load32 e (take 4 (drop 6 bs))\<rparr>, gid')))"

text \<open>
  The result, the message and the sender. The datagram is scanned before the result of \<open>recvfrom\<close> is
  looked at, so after a failed call the uninitialised \<open>msg\<close> is.
\<close>

definition recv_udp_msg :: "'w ib_env \<Rightarrow> endian \<Rightarrow> syn_junk \<Rightarrow> int \<Rightarrow> ibsynmsg \<Rightarrow>
    ('w, int \<times> ibsynmsg \<times> entity_addr option) prog" where
  "recv_udp_msg E e j sd im =
     bnd (c_assert (0 \<le> sd)) (\<lambda>_.
     bnd (call (ib_recvfrom E sd syn_size)) (\<lambda>(r0, bs, from).
     bnd (pure_prog (sbnd (memcpy_at (sj_msg j) 0 bs) (\<lambda>msg.
            sbnd (sscanf_syn e msg im (sj_gid j)) (\<lambda>(im, gid).
            sbnd (ib_wire_gid_to_gid e (sj_v32 j) gid (im_gid im)) (\<lambda>g. Inr (im\<lparr>im_gid := g\<rparr>)))))) (\<lambda>im.
     bnd (inject_failure E r0) (\<lambda>r.
     if r = - 1 then bnd (call (ib_again E)) (\<lambda>again. ret (if again then 1 else - 1, im, None))
     else if r \<noteq> int syn_size then ret (1, im, None)
     else ret (0, im, Some from)))))"

section \<open>The text of a message\<close>

definition syn_wire :: "ibsynmsg \<Rightarrow> bytes" where
  "syn_wire im = syn_text im (gid_text (im_gid im)) @ [NUL]"

lemma syn_size_56: "syn_size = 56"
  by (simp add: syn_size_def)

lemma length_syn_wire: "length (syn_wire im) = syn_size"
proof -
  have "length (print_padded 16 4 (unat (im_lid im))) = 4"
    using length_print_padded_iff [of 16 4 "unat (im_lid im)"] unat_u16_bound [of "im_lid im"] by simp
  moreover have "length (print_padded 16 8 (unat v)) = 8" for v :: u32
    using length_hex8 [of v] by (simp add: hex8_def)
  ultimately show ?thesis by (simp add: syn_wire_def syn_text_def syn_size_56)
qed

lemma syn_text_no_NUL: "NUL \<notin> set (syn_text im (gid_text g))"
  by (simp add: syn_text_def print_padded_no_NUL NUL_not_in_gid_text)

lemma scan_field_x4:
  "n < 2 ^ 32 \<Longrightarrow> scan_all (Scan_x None # Scan_lit (CHR '':'') # ds) (print_padded 16 4 n @ CHR '':'' # r)
     = map_sum id (\<lambda>vs. Num n # vs) (scan_all ds r)"
  by (simp add: scan_uint_print is_digit_specials)

lemma sscanf_syn_text:
  "sscanf syn_directives (syn_wire im) =
     Inr [Num (unat (im_lid im)), Num (unat (im_qpn im)), Num (unat (im_psn im)), Str (gid_text (im_gid im))]"
proof -
  have "unat (im_lid im) < 2 ^ 32" using unat_u16_bound [of "im_lid im"] by simp
  then show ?thesis
    unfolding syn_wire_def sscanf_terminated [OF syn_text_no_NUL]
    by (simp add: syn_directives_def syn_text_def scan_field_x scan_field_x4 unat_u32_bound scan_gid_text del: scan_all.simps)
qed

text \<open>Storing 32 bits into the 16-bit member: the right value on a little-endian host only.\<close>

lemma lid_little: "load16 Little (take 2 (store32 Little (ucast (v :: u16)))) = v"
proof -
  define x where "x = unat v"
  have x: "x < 65536" using unat_u16_bound [of v] by (simp add: x_def)
  have ux: "unat (ucast v :: u32) = x" using x by (simp add: x_def unsigned_ucast_eq take_bit_eq_mod)
  have u8: "unat (of_nat n :: u8) = n mod 256" for n by (simp add: unat_of_nat)
  have "unat (load32 Little (take 2 (store32 Little (ucast v)) @ [0, 0])) = x"
    using x by (simp add: load32_def store32_def to_be32_def ux be32_unat u8)
  then have "unat (load16 Little (take 2 (store32 Little (ucast v)))) = x"
    using x by (simp add: load16_def unsigned_ucast_eq take_bit_eq_mod)
  then show ?thesis by (simp add: x_def word_unat_eq_iff)
qed

lemma lid_big: "load16 Big (take 2 (store32 Big (ucast (v :: u16)))) = 0"
proof -
  define x where "x = unat v"
  have x: "x < 65536" using unat_u16_bound [of v] by (simp add: x_def)
  have ux: "unat (ucast v :: u32) = x" using x by (simp add: x_def unsigned_ucast_eq take_bit_eq_mod)
  have "unat (load32 Big ([0, 0] @ take 2 (store32 Big (ucast v)))) = 0"
    using x by (simp add: load32_def store32_def to_be32_def ux be32_unat)
  then show ?thesis by (simp add: load16_def unat_eq_0)
qed

lemma sscanf_syn_wire:
  assumes "length gid = 33"
  shows "sscanf_syn e (syn_wire im) im0 gid =
    Inr (im0\<lparr>im_lid := (case e of Little \<Rightarrow> im_lid im | Big \<Rightarrow> 0), im_qpn := im_qpn im, im_psn := im_psn im\<rparr>,
         gid_text (im_gid im) @ [NUL])"
proof -
  have str: "scanned_str [a, b, c, Str (gid_text (im_gid im))] 3 gid = Inr (gid_text (im_gid im) @ [NUL])" for a b c
    using assms by (simp add: scanned_str_def memcpy_at_def)
  have l: "length (syn_head e im0) = 10" by (simp add: syn_head_def store16_def split: endian.split)
  obtain h0 h1 h2 h3 h4 h5 h6 h7 h8 h9 where h: "syn_head e im0 = [h0, h1, h2, h3, h4, h5, h6, h7, h8, h9]"
    using l by (auto simp: numeral_eq_Suc length_Suc_conv)
  show ?thesis
    unfolding sscanf_syn_def sscanf_syn_text
    by (cases e) (simp_all add: str scan_into_def h lid_little lid_big load32_store32)
qed

lemma ib_gid_conversions:
  "ib_gid_to_wire_gid = gid_to_wire_gid" "ib_wire_gid_to_gid = wire_gid_to_gid"
  by (simp_all add: fun_eq_iff ib_gid_to_wire_gid_def gid_to_wire_gid_def ib_wire_gid_to_gid_def wire_gid_to_gid_def)

definition syn_junk_ok :: "syn_junk \<Rightarrow> bool" where
  "syn_junk_ok j \<longleftrightarrow> length (sj_msg j) = syn_size \<and> length (sj_gid j) = 33"

text \<open>What one attempt sends, and when there is another one.\<close>

lemma send_try_eq:
  assumes "gid_ok (im_gid im)" and "syn_junk_ok j"
  shows "send_try k E e j sd im peer =
     bnd (call (ib_sendto E sd (syn_wire im) peer)) (\<lambda>r0.
     bnd (inject_failure E r0) (\<lambda>r.
     if r \<noteq> int syn_size then
       if r < 0 then
         bnd (call (ib_again E)) (\<lambda>again.
         case k of Suc k' \<Rightarrow> if again then send_try k' E e j sd im peer else ret (- 1) | 0 \<Rightarrow> ret (- 1))
       else ret (- 1)
     else ret 0))"
proof -
  have "c_string (gid_text (im_gid im) @ [NUL]) = gid_text (im_gid im)"
    by (simp add: c_string_append_NUL NUL_not_in_gid_text)
  then have "sbnd (ib_gid_to_wire_gid e (im_gid im) (sj_gid j)) (\<lambda>gid.
      memcpy_at (sj_msg j) 0 (syn_text im (c_string gid) @ [NUL])) = Inr (syn_wire im)"
    using assms length_syn_wire [of im]
    by (simp add: ib_gid_conversions syn_junk_ok_def gid_to_wire_gid_eq memcpy_at_def syn_wire_def)
  moreover have "take syn_size (syn_wire im) = syn_wire im" by (simp add: length_syn_wire)
  ultimately show ?thesis by (subst send_try.simps) (simp add: pure_prog_def flip: ret_def)
qed

text \<open>An environment that counts the datagrams.\<close>

definition counting :: "('w \<Rightarrow> 'x \<times> 'w) \<Rightarrow> 'w \<times> nat \<Rightarrow> 'x \<times> ('w \<times> nat)" where
  "counting f = (\<lambda>(w, n). case f w of (x, w') \<Rightarrow> (x, (w', Suc n)))"

definition counts_datagrams :: "('w \<times> nat) ib_env \<Rightarrow> bool" where
  "counts_datagrams E \<longleftrightarrow> (\<forall>sd bs a. \<exists>f. ib_sendto E sd bs a = counting f)
     \<and> (\<exists>f. ib_again E = unseen f) \<and> (\<exists>f. ib_rand E = unseen f)"

lemma counting_apply [watch_simps]: "counting f (w, n) = (fst (f w), (snd (f w), Suc n))"
  by (cases "f w") (simp add: counting_def)

lemma inject_failure_count:
  assumes "counts_datagrams E" and "inject_failure E r (w, n) = (x, (w', n'))"
  shows "n' = n"
  using assms by (auto simp: inject_failure_def counts_datagrams_def prog_simps watch_simps split: if_splits)

lemma send_try_count:
  assumes env: "counts_datagrams E" and "gid_ok (im_gid im)" and "syn_junk_ok j"
  shows "snd (snd (send_try k E e j sd im peer (w, n))) \<le> n + k + 1"
proof (induction k arbitrary: w n)
  case 0
  obtain f fa where f: "ib_sendto E sd (syn_wire im) peer = counting f" and fa: "ib_again E = unseen fa"
    using env unfolding counts_datagrams_def by metis
  obtain x w2 n2 where inj: "inject_failure E (fst (f w)) (snd (f w), Suc n) = (x, (w2, n2))" by (metis prod.exhaust)
  with inject_failure_count [OF env inj] show ?case
    by (cases x) (auto simp: send_try_eq [OF assms(2,3)] prog_simps watch_simps f fa)
next
  case (Suc k)
  obtain f fa where f: "ib_sendto E sd (syn_wire im) peer = counting f" and fa: "ib_again E = unseen fa"
    using env unfolding counts_datagrams_def by metis
  obtain x w2 n2 where inj: "inject_failure E (fst (f w)) (snd (f w), Suc n) = (x, (w2, n2))" by (metis prod.exhaust)
  with inject_failure_count [OF env inj] Suc.IH [of "snd (fa w2)" "Suc n"] show ?case
    by (cases x) (auto simp: send_try_eq [OF assms(2,3)] prog_simps watch_simps f fa)
qed

lemma send_try_returns:
  assumes "gid_ok (im_gid im)" and "syn_junk_ok j"
  shows "returns (send_try k E e j sd im peer) t (\<lambda>r _. r = 0 \<or> r = - 1)"
proof (induction k arbitrary: t)
  case 0
  show ?case unfolding send_try_eq [OF assms, of 0] by (simp add: inject_failure_def)
next
  case (Suc k)
  show ?case unfolding send_try_eq [OF assms, of "Suc k"] by (simp add: inject_failure_def Suc.IH)
qed

text \<open>Sending a datagram that is taken whole, and receiving one.\<close>

lemma send_udp_msg_whole:
  assumes "gid_ok (im_gid im)" and "syn_junk_ok j" and "0 \<le> sd" and "\<not> ib_inject E"
    and "fst (ib_sendto E sd (syn_wire im) peer w) = 56"
  shows "send_udp_msg E e j sd im peer w = (Inr 0, snd (ib_sendto E sd (syn_wire im) peer w))"
  using assms by (simp add: send_udp_msg_def send_try_eq inject_failure_def prog_simps syn_size_56)

lemma recv_udp_msg_wire:
  assumes "gid_ok (im_gid im)" and "gid_ok (im_gid im0)" and "syn_junk_ok j" and "0 \<le> sd" and "\<not> ib_inject E"
    and "ib_recvfrom E sd 56 w = ((56, syn_wire im, from), w')"
  shows "recv_udp_msg E e j sd im0 w = (Inr (0, (case e of Little \<Rightarrow> im | Big \<Rightarrow> im\<lparr>im_lid := 0\<rparr>), Some from), w')"
proof -
  have "memcpy_at (sj_msg j) 0 (syn_wire im) = Inr (syn_wire im)"
    using assms(3) by (simp add: memcpy_at_def syn_junk_ok_def length_syn_wire)
  moreover have "sscanf_syn e (syn_wire im) im0 (sj_gid j) =
    Inr (im0\<lparr>im_lid := (case e of Little \<Rightarrow> im_lid im | Big \<Rightarrow> 0), im_qpn := im_qpn im, im_psn := im_psn im\<rparr>,
         gid_text (im_gid im) @ [NUL])"
    using assms(3) by (intro sscanf_syn_wire) (simp add: syn_junk_ok_def)
  moreover have "ib_wire_gid_to_gid e (sj_v32 j) (gid_text (im_gid im) @ [NUL]) (im_gid im0) = Inr (im_gid im)"
    unfolding ib_gid_conversions using assms(1,2) by (rule wire_gid_to_gid_eq)
  ultimately show ?thesis
    using assms(4-6)
    by (cases e; cases im; cases im0) (simp_all add: recv_udp_msg_def inject_failure_def prog_simps syn_size_56)
qed

section \<open>Properties\<close>

text \<open>
  C8. The handshake carries a connection's data over: \<open>send_udp_msg\<close> sends its message as one datagram
  that fits its buffer exactly, and \<open>recv_udp_msg\<close> of a little-endian host, given that datagram,
  returns 0, the very same message and the sender. A big-endian host reads the lid as 0, because
  the 32 bits stored through the pointer to the 16-bit member put the value's upper half there.
\<close>
theorem syn_exchange:
  assumes "gid_ok (im_gid im)" and "gid_ok (im_gid im0)" and "syn_junk_ok j" and "0 \<le> sd"
    and "\<not> ib_inject E"
  shows "(ib_sendto E sd (syn_wire im) peer w = (56, w') \<longrightarrow> send_udp_msg E e j sd im peer w = (Inr 0, w'))
    \<and> (ib_recvfrom E sd 56 w = ((56, syn_wire im, from), w') \<longrightarrow>
        recv_udp_msg E e j sd im0 w =
          (Inr (0, (case e of Little \<Rightarrow> im | Big \<Rightarrow> im\<lparr>im_lid := 0\<rparr>), Some from), w'))"
  using send_udp_msg_whole [OF assms(1,3-5), of peer w e] recv_udp_msg_wire [OF assms] by auto

definition sample_syn :: ibsynmsg where
  "sample_syn = \<lparr>im_lid = 0x1234, im_qpn = 21, im_psn = 0x345678, im_gid = sample_gid\<rparr>"

definition syn_zero :: ibsynmsg where
  "syn_zero = \<lparr>im_lid = 0, im_qpn = 0, im_psn = 0, im_gid = gid_zero\<rparr>"

definition sample_syn_junk :: syn_junk where
  "sample_syn_junk = \<lparr>sj_msg = replicate 56 CHR ''?'', sj_gid = replicate 33 CHR ''?'', sj_v32 = 5\<rparr>"

lemma sample_syn_ok: "gid_ok (im_gid sample_syn)" "gid_ok (im_gid syn_zero)" "syn_junk_ok sample_syn_junk"
  by (simp_all add: gid_ok_def sample_syn_def syn_zero_def sample_gid_def gid_zero_def syn_junk_ok_def
      sample_syn_junk_def syn_size_56)

lemma syn_exchange_witness:
  "send_udp_msg sample_ib_env Big sample_syn_junk 3 sample_syn 1 0 = (Inr 0, 0)
    \<and> recv_udp_msg (sample_ib_env\<lparr>ib_recvfrom := (\<lambda>sd n w. ((56, syn_wire sample_syn, 8), w))\<rparr>)
        Little sample_syn_junk 3 syn_zero 0 = (Inr (0, sample_syn, Some 8), 0)"
  using syn_exchange [OF sample_syn_ok, of 3 sample_ib_env 1 0 0 Big]
    syn_exchange [OF sample_syn_ok, of 3 "sample_ib_env\<lparr>ib_recvfrom := (\<lambda>sd n w. ((56, syn_wire sample_syn, 8), w))\<rparr>" 1 0 0 Little 8]
  by (simp add: sample_sel length_syn_wire syn_size_56)

text \<open>
  Sending is bounded: whatever the network and the failure injection do, \<open>send_udp_msg\<close> sends at
  most four datagrams (one attempt and three retries) and returns.
\<close>
theorem send_udp_msg_bounded:
  assumes "counts_datagrams E" and "gid_ok (im_gid im)" and "syn_junk_ok j" and "0 \<le> sd"
  shows "\<exists>r w' n'. send_udp_msg E e j sd im peer (w, n) = (Inr r, (w', n')) \<and> (r = 0 \<or> r = - 1) \<and> n' \<le> n + 4"
proof -
  obtain r w' n' where run: "send_try 3 E e j sd im peer (w, n) = (Inr r, (w', n'))" and r: "r = 0 \<or> r = - 1"
    using send_try_returns [OF assms(2,3), of 3 E e sd peer "(w, n)"] by (auto simp: returns_iff)
  have "n' \<le> n + 4" using send_try_count [OF assms(1-3), of 3 e sd peer w n] run by simp
  then show ?thesis using run r assms(4) by (simp add: send_udp_msg_def prog_simps)
qed

definition jammed_env :: "(nat \<times> nat) ib_env" where
  "jammed_env = (lift_ib (lift_verbs sample_verbs) sample_ib_env)
     \<lparr>ib_sendto := (\<lambda>a b c. counting (\<lambda>w. (- 1, w))), ib_again := unseen (\<lambda>w. (True, w))\<rparr>"

lemma send_udp_msg_bounded_witness:
  "\<exists>r w' n'. send_udp_msg jammed_env Little sample_syn_junk 3 sample_syn 1 (0, 0) = (Inr r, (w', n')) \<and> n' \<le> 4"
proof -
  have "counts_datagrams jammed_env" unfolding counts_datagrams_def by (auto simp: jammed_env_def)
  from send_udp_msg_bounded [OF this sample_syn_ok(1,3), of 3 Little 1 0 0] show ?thesis by auto
qed

end
