(* ===== verification/Infiniband.thy ===== *)
theory Infiniband
  imports MemoryManager ResourceManager SynMessage QueuePairSpec
begin

text \<open>
  \<open>Infiniband\<close> of \<open>rdma/Infiniband.h\<close> and \<open>rdma/Infiniband.cc\<close> without its messages (theory
  SynMessage) and its memory (theory MemoryManager): completion channels and queues, queue pairs, the
  shared receive queue, and the constructor. \<open>init\<close> methods return their result and the object;
  \<open>delete\<close> runs the destructor.
\<close>

section \<open>Completion channels\<close>

definition set_nonblocking :: "'w ib_env \<Rightarrow> int \<Rightarrow> ('w, int) prog" where
  "set_nonblocking E fd =
     bnd (call (ib_getfl E fd)) (\<lambda>flags.
     if flags = - 1 then ret (- 1)
     else bnd (call (ib_setfl_nonblock E fd flags)) (\<lambda>r. if r \<noteq> 0 then ret (- 1) else ret 0))"

record completion_channel =
  cc_channel :: "ibv_comp_channel option"
  cc_cq :: "handle option"
  need_ack :: u32

definition cc_new :: completion_channel where
  "cc_new = \<lparr>cc_channel = None, cc_cq = None, need_ack = 0\<rparr>"

definition MAX_ACK_EVENT :: u32 where
  "MAX_ACK_EVENT = 128"

definition cc_init :: "'w ib_env \<Rightarrow> device \<Rightarrow> completion_channel \<Rightarrow> ('w, int \<times> completion_channel) prog" where
  "cc_init E dev cc =
     bnd (deref (dv_ctxt dev)) (\<lambda>c.
     bnd (call (ibv_create_comp_channel (ib_verbs E) c)) (\<lambda>ch.
     let cc = cc\<lparr>cc_channel := ch\<rparr> in
     case ch of None \<Rightarrow> ret (- 1, cc) | Some chan \<Rightarrow>
     bnd (set_nonblocking E (channel_fd chan)) (\<lambda>rc.
     if rc < 0 then bnd (call (ibv_destroy_comp_channel (ib_verbs E) chan)) (\<lambda>_. ret (- 1, cc))
     else ret (0, cc))))"

definition cc_delete :: "'w ib_env \<Rightarrow> completion_channel \<Rightarrow> ('w, unit) prog" where
  "cc_delete E cc =
     (case cc_channel cc of None \<Rightarrow> ret ()
      | Some ch \<Rightarrow> bnd (call (ibv_destroy_comp_channel (ib_verbs E) ch)) (\<lambda>r. c_assert (r = 0)))"

definition create_comp_channel :: "'w ib_env \<Rightarrow> device \<Rightarrow> ('w, completion_channel option) prog" where
  "create_comp_channel E dev =
     bnd (cc_init E dev cc_new) (\<lambda>(r, cc).
     if r \<noteq> 0 then bnd (cc_delete E cc) (\<lambda>_. ret None) else ret (Some cc))"

text \<open>The event counter is a 32-bit word; events are acknowledged 128 at a time.\<close>

definition get_cq_event :: "'w ib_env \<Rightarrow> completion_channel \<Rightarrow> ('w, bool \<times> completion_channel) prog" where
  "get_cq_event E cc =
     bnd (deref (cc_channel cc)) (\<lambda>ch.
     bnd (call (ibv_get_cq_event (ib_verbs E) ch)) (\<lambda>(r, cq).
     if r \<noteq> 0 then ret (False, cc) else
     let cc = cc\<lparr>need_ack := need_ack cc + 1\<rparr> in
     if need_ack cc = MAX_ACK_EVENT
     then bnd (call (ibv_ack_cq_events (ib_verbs E) cq MAX_ACK_EVENT)) (\<lambda>_. ret (True, cc\<lparr>need_ack := 0\<rparr>))
     else ret (True, cc)))"

definition ack_events :: "'w ib_env \<Rightarrow> completion_channel \<Rightarrow> ('w, completion_channel) prog" where
  "ack_events E cc =
     bnd (deref (cc_cq cc)) (\<lambda>cq.
     bnd (call (ibv_ack_cq_events (ib_verbs E) cq (need_ack cc))) (\<lambda>_. ret (cc\<lparr>need_ack := 0\<rparr>)))"

section \<open>Completion queues\<close>

record completion_queue =
  cq_channel :: "completion_channel option"
  cq_cq :: "handle option"
  queue_depth :: u32

definition cq_init :: "'w ib_env \<Rightarrow> device \<Rightarrow> completion_queue \<Rightarrow> ('w, int \<times> completion_queue) prog" where
  "cq_init E dev q =
     bnd (deref (dv_ctxt dev)) (\<lambda>c.
     bnd (deref (cq_channel q)) (\<lambda>cc.
     bnd (call (ibv_create_cq (ib_verbs E) c (sint (queue_depth q)) (cc_channel cc))) (\<lambda>cq.
     let q = q\<lparr>cq_cq := cq\<rparr> in
     case cq of None \<Rightarrow> ret (- 1, q) | Some h \<Rightarrow>
     bnd (call (ibv_req_notify_cq (ib_verbs E) h)) (\<lambda>r.
     if r \<noteq> 0 then bnd (call (ibv_destroy_cq (ib_verbs E) h)) (\<lambda>_. ret (- 1, q))
     else ret (0, q\<lparr>cq_channel := Some (cc\<lparr>cc_cq := cq\<rparr>)\<rparr>)))))"

definition cq_delete :: "'w ib_env \<Rightarrow> completion_queue \<Rightarrow> ('w, unit) prog" where
  "cq_delete E q =
     (case cq_cq q of None \<Rightarrow> ret ()
      | Some h \<Rightarrow> bnd (call (ibv_destroy_cq (ib_verbs E) h)) (\<lambda>r. c_assert (r = 0)))"

definition create_comp_queue :: "'w ib_env \<Rightarrow> device \<Rightarrow> u32 \<Rightarrow> completion_channel option \<Rightarrow>
    ('w, completion_queue option) prog" where
  "create_comp_queue E dev max_cqe cc =
     bnd (cq_init E dev \<lparr>cq_channel = cc, cq_cq = None, queue_depth = max_cqe\<rparr>) (\<lambda>(r, q).
     if r \<noteq> 0 then bnd (cq_delete E q) (\<lambda>_. ret None) else ret (Some q))"

definition rearm_notify :: "'w ib_env \<Rightarrow> completion_queue \<Rightarrow> ('w, int) prog" where
  "rearm_notify E q = bnd (deref (cq_cq q)) (\<lambda>h. call (ibv_req_notify_cq (ib_verbs E) h))"

definition poll_cq :: "'w ib_env \<Rightarrow> completion_queue \<Rightarrow> int \<Rightarrow> ('w, int \<times> ibv_wc list) prog" where
  "poll_cq E q num_entries =
     bnd (deref (cq_cq q)) (\<lambda>h.
     bnd (call (ibv_poll_cq (ib_verbs E) h num_entries)) (\<lambda>r.
     case r of Poll_error e \<Rightarrow> ret (- 1, []) | Completions wcs \<Rightarrow> ret (int (length wcs), wcs)))"

section \<open>Queue pairs\<close>

record queue_pair =
  qpo_type :: ibv_qp_type
  qpo_port :: int
  qpo_pd :: handle
  qpo_srq :: "handle option"
  qpo_qp :: "ibv_qp option"
  qpo_txcq :: "completion_queue option"
  qpo_rxcq :: "completion_queue option"
  initial_psn :: u32
  qpo_max_send_wr :: u32
  qpo_max_recv_wr :: u32
  q_key :: u32

definition new_queue_pair :: "'w ib_env \<Rightarrow> handle \<Rightarrow> ibv_qp_type \<Rightarrow> int \<Rightarrow> handle option \<Rightarrow> completion_queue option \<Rightarrow>
    completion_queue option \<Rightarrow> u32 \<Rightarrow> u32 \<Rightarrow> u32 \<Rightarrow> ('w, queue_pair) prog" where
  "new_queue_pair E pd type port srq txcq rxcq max_send_wr max_recv_wr key =
     bnd (call (ib_lrand48 E)) (\<lambda>r.
     bnd (c_assert (type \<in> {IBV_QPT_RC, IBV_QPT_UD, IBV_QPT_RAW_PACKET})) (\<lambda>_.
     ret \<lparr>qpo_type = type, qpo_port = port, qpo_pd = pd, qpo_srq = srq, qpo_qp = None, qpo_txcq = txcq,
          qpo_rxcq = rxcq, initial_psn = take_bit 24 r, qpo_max_send_wr = max_send_wr,
          qpo_max_recv_wr = max_recv_wr, q_key = key\<rparr>))"

definition qp_init_attr :: "u32 \<Rightarrow> queue_pair \<Rightarrow> handle \<Rightarrow> handle \<Rightarrow> ibv_qp_init_attr" where
  "qp_init_attr max_inline q send_cq recv_cq =
     \<lparr>qia_send_cq = send_cq, qia_recv_cq = recv_cq, qia_srq = qpo_srq q, qia_max_send_wr = qpo_max_send_wr q,
      qia_max_recv_wr = 0, qia_max_send_sge = 1, qia_max_recv_sge = 0, qia_max_inline_data = max_inline,
      qia_qp_type = qpo_type q, qia_sq_sig_all = 0\<rparr>"

definition qp_to_init :: "queue_pair \<Rightarrow> ibv_qp_attr" where
  "qp_to_init q = qp_attr_zero\<lparr>qp_state := IBV_QPS_INIT, pkey_index := 0, port_num := of_int (qpo_port q),
     qp_access_flags := [IBV_ACCESS_REMOTE_WRITE, IBV_ACCESS_LOCAL_WRITE], qkey := q_key q\<rparr>"

text \<open>The \<open>switch\<close> over the type; \<open>None\<close> is \<open>assert(0)\<close>.\<close>

fun qp_init_mask :: "ibv_qp_type \<Rightarrow> ibv_qp_attr_mask list option" where
  "qp_init_mask IBV_QPT_RC = Some [IBV_QP_STATE, IBV_QP_PORT, IBV_QP_ACCESS_FLAGS, IBV_QP_PKEY_INDEX]"
| "qp_init_mask IBV_QPT_UD = Some [IBV_QP_STATE, IBV_QP_PORT, IBV_QP_QKEY, IBV_QP_PKEY_INDEX]"
| "qp_init_mask IBV_QPT_RAW_PACKET = Some [IBV_QP_STATE, IBV_QP_PORT]"
| "qp_init_mask (IBV_QPT_other _) = None"

definition qp_init :: "'w ib_env \<Rightarrow> u32 \<Rightarrow> queue_pair \<Rightarrow> ('w, int \<times> queue_pair) prog" where
  "qp_init E max_inline q =
     bnd (deref (qpo_txcq q)) (\<lambda>tx. bnd (deref (cq_cq tx)) (\<lambda>scq.
     bnd (deref (qpo_rxcq q)) (\<lambda>rx. bnd (deref (cq_cq rx)) (\<lambda>rcq.
     bnd (call (ibv_create_qp (ib_verbs E) (qpo_pd q) (qp_init_attr max_inline q scq rcq))) (\<lambda>qp.
     let q = q\<lparr>qpo_qp := qp\<rparr> in
     case qp of None \<Rightarrow> ret (- 1, q) | Some h \<Rightarrow>
     bnd (c_assert (qp_init_mask (qpo_type q) \<noteq> None)) (\<lambda>_.
     bnd (call (ibv_modify_qp (ib_verbs E) h (qp_to_init q) (the (qp_init_mask (qpo_type q))))) (\<lambda>r.
     if r \<noteq> 0 then bnd (call (ibv_destroy_qp (ib_verbs E) h)) (\<lambda>_. ret (- 1, q))
     else ret (0, q))))))))"

definition qp_delete :: "'w ib_env \<Rightarrow> queue_pair \<Rightarrow> ('w, unit) prog" where
  "qp_delete E q =
     (case qpo_qp q of None \<Rightarrow> ret ()
      | Some h \<Rightarrow> bnd (call (ibv_destroy_qp (ib_verbs E) h)) (\<lambda>r. c_assert (r = 0)))"

text \<open>The place for the result may be a null pointer.\<close>

definition get_remote_qp_number :: "'w ib_env \<Rightarrow> queue_pair \<Rightarrow> u32 option \<Rightarrow> ('w, int \<times> u32 option) prog" where
  "get_remote_qp_number E q rqp =
     bnd (deref (qpo_qp q)) (\<lambda>h. bnd (call (ib_query_qp E h)) (\<lambda>(r, a).
     if r \<noteq> 0 then ret (- 1, rqp) else ret (0, map_option (\<lambda>_. q_dest_qp_num a) rqp)))"

definition get_remote_lid :: "'w ib_env \<Rightarrow> queue_pair \<Rightarrow> u16 option \<Rightarrow> ('w, int \<times> u16 option) prog" where
  "get_remote_lid E q lid =
     bnd (deref (qpo_qp q)) (\<lambda>h. bnd (call (ib_query_qp E h)) (\<lambda>(r, a).
     if r \<noteq> 0 then ret (- 1, lid) else ret (0, map_option (\<lambda>_. q_dlid a) lid)))"

text \<open>\<open>get_state\<close>: \<open>None\<close> is the result -1.\<close>

definition get_state :: "'w ib_env \<Rightarrow> queue_pair \<Rightarrow> ('w, ibv_qp_state option) prog" where
  "get_state E q =
     bnd (deref (qpo_qp q)) (\<lambda>h. bnd (call (ib_query_qp E h)) (\<lambda>(r, a).
     if r \<noteq> 0 then ret None else ret (Some (q_qp_state a))))"

definition is_error :: "'w ib_env \<Rightarrow> queue_pair \<Rightarrow> ('w, bool) prog" where
  "is_error E q =
     bnd (deref (qpo_qp q)) (\<lambda>h. bnd (call (ib_query_qp E h)) (\<lambda>(r, a).
     if r \<noteq> 0 then ret True else ret (q_cur_qp_state a = IBV_QPS_ERR)))"

section \<open>The Infiniband object\<close>

record infiniband =
  ibx_device :: device
  ibx_port :: u8
  ibx_pd :: handle
  ibx_max_recv_wr :: u32
  ibx_max_send_wr :: u32
  ibx_max_cqe :: u32
  ibx_max_sge :: u32
  ibx_max_inline :: u32
  ibx_mm :: memory_manager
  ibx_srq :: "handle option"

definition create_shared_receive_queue :: "'w ib_env \<Rightarrow> infiniband \<Rightarrow> u32 \<Rightarrow> u32 \<Rightarrow> ('w, handle option) prog" where
  "create_shared_receive_queue E ib max_wr max_sge = call (ibv_create_srq (ib_verbs E) (ibx_pd ib) max_wr max_sge)"

text \<open>Posting a chunk to the shared receive queue; its address is the id of the request.\<close>

definition post_chunk :: "'w ib_env \<Rightarrow> infiniband \<Rightarrow> chunk_ptr \<Rightarrow> ('w, int) prog" where
  "post_chunk E ib p =
     bnd (deref (mm_heap (ibx_mm ib) p)) (\<lambda>c.
     bnd (deref (ibx_srq ib)) (\<lambda>srq.
     bnd (call (ibv_post_srq_recv (ib_verbs E) srq
            \<lparr>rwr_id = p, rwr_sg_list =
               [\<lparr>sge_addr = ck_buffer c, sge_length = ck_bytes c, sge_lkey = mr_lkey (ck_mr c)\<rparr>]\<rparr>)) (\<lambda>r.
     if r \<noteq> 0 then ret (- 1) else ret 0)))"

fun post_chunks :: "'w ib_env \<Rightarrow> infiniband \<Rightarrow> chunk_ptr list \<Rightarrow> ('w, int) prog" where
  "post_chunks E ib [] = ret 0"
| "post_chunks E ib (p # ps) = bnd (post_chunk E ib p) (\<lambda>r. if r \<noteq> 0 then ret r else post_chunks E ib ps)"

definition post_channel_cluster :: "'w ib_env \<Rightarrow> infiniband \<Rightarrow> ('w, int \<times> infiniband) prog" where
  "post_channel_cluster E ib =
     bnd (pure_prog (get_channel_buffers 0 (ibx_mm ib))) (\<lambda>(ps, mm).
     let ib = ib\<lparr>ibx_mm := mm\<rparr> in
     bnd (post_chunks E ib ps) (\<lambda>r. ret (r, ib)))"

definition get_tx_buffers :: "size_t \<Rightarrow> infiniband \<Rightarrow> fault + chunk_ptr list \<times> infiniband" where
  "get_tx_buffers bytes ib =
     sbnd (get_channel_buffers bytes (ibx_mm ib)) (\<lambda>(ps, mm). Inr (ps, ib\<lparr>ibx_mm := mm\<rparr>))"

text \<open>The constructor of \<open>ProtectionDomain\<close>.\<close>

definition new_pd :: "'w ib_env \<Rightarrow> device \<Rightarrow> ('w, handle) prog" where
  "new_pd E dev =
     bnd (deref (dv_ctxt dev)) (\<lambda>c.
     bnd (call (ibv_alloc_pd (ib_verbs E) c)) (\<lambda>pd.
     bnd (c_assert (pd \<noteq> None)) (\<lambda>_. deref pd)))"

text \<open>
  The constructor. The memory manager's pointers are uninitialised at first, and nothing is on
  the heap of chunks.
\<close>

definition new_infiniband :: "'w ib_env \<Rightarrow> device list \<Rightarrow> string \<Rightarrow> ('w, infiniband) prog" where
  "new_infiniband E devices device_name =
     bnd (rm_get_device devices device_name) (\<lambda>d.
     bnd (c_assert (d \<noteq> None)) (\<lambda>_.
     bnd (deref d) (\<lambda>dev.
     bnd (deref (active_port dev)) (\<lambda>ap.
     bnd (new_pd E dev) (\<lambda>pdh.
     bnd (deref (dv_ctxt dev)) (\<lambda>c.
     bnd (set_nonblocking E (ib_async_fd E c)) (\<lambda>r.
     bnd (c_assert (r = 0)) (\<lambda>_.
     bnd (register_rx_tx E pdh (8 * 1024) 256 256
            \<lparr>mm_channel = None, mm_rdma = None, mm_send = None, mm_heap = Map.empty\<rparr>) (\<lambda>mm.
     let ib = \<lparr>ibx_device = dev, ibx_port = pt_num ap, ibx_pd = pdh,
               ibx_max_recv_wr = of_int (da_max_srq_wr (dv_attr dev)), ibx_max_send_wr = of_int (da_max_qp_wr (dv_attr dev)),
               ibx_max_cqe = of_int (da_max_cqe (dv_attr dev)), ibx_max_sge = 1, ibx_max_inline = 128,
               ibx_mm = mm, ibx_srq = None\<rparr> in
     bnd (create_shared_receive_queue E ib (ibx_max_recv_wr ib) (ibx_max_sge ib)) (\<lambda>srq.
     bnd (post_channel_cluster E (ib\<lparr>ibx_srq := srq\<rparr>)) (\<lambda>(_, ib). ret ib)))))))))))"

text \<open>\<open>create_infiniband\<close> looks the devices up first; the destructor never gets past its assertion.\<close>

definition create_infiniband :: "'w ib_env \<Rightarrow> string \<Rightarrow> ('w, infiniband) prog" where
  "create_infiniband E device_name = bnd (new_device_list E) (\<lambda>devices. new_infiniband E devices device_name)"

definition pd_delete :: "'w ib_env \<Rightarrow> handle \<Rightarrow> ('w, unit) prog" where
  "pd_delete E pd = bnd (call (ibv_dealloc_pd (ib_verbs E) pd)) (\<lambda>_. ret ())"

definition infiniband_delete :: "'w ib_env \<Rightarrow> infiniband \<Rightarrow> ('w, unit) prog" where
  "infiniband_delete E ib = bnd (c_assert False) (\<lambda>_. pd_delete E (ibx_pd ib))"

text \<open>
  \<open>create_queue_pair\<close>; \<open>tx_cq\<close> is the transmit queue of the worker that the stack picks. When the
  receive queue could not be made, the code destroys the channel and goes on with a null pointer.
\<close>

definition create_queue_pair :: "'w ib_env \<Rightarrow> infiniband \<Rightarrow> completion_queue option \<Rightarrow> ibv_qp_type \<Rightarrow>
    ('w, queue_pair option) prog" where
  "create_queue_pair E ib tx_cq type =
     bnd (create_comp_channel E (ibx_device ib)) (\<lambda>cc.
     case cc of None \<Rightarrow> ret None | Some ch \<Rightarrow>
     bnd (create_comp_queue E (ibx_device ib) (ibx_max_cqe ib) cc) (\<lambda>cq.
     bnd (if cq = None
          then bnd (deref (cc_channel ch)) (\<lambda>h. call (ibv_destroy_comp_channel (ib_verbs E) h))
          else ret 0) (\<lambda>_.
     bnd (new_queue_pair E (ibx_pd ib) type (uint (ibx_port ib)) (ibx_srq ib) tx_cq cq
            (ibx_max_send_wr ib) (ibx_max_recv_wr ib) 0) (\<lambda>q.
     bnd (qp_init E (ibx_max_inline ib) q) (\<lambda>(r, q).
     if r \<noteq> 0 then bnd (qp_delete E q) (\<lambda>_. ret None) else ret (Some q))))))"

text \<open>The local identifiers, those of the active port.\<close>

definition get_lid :: "infiniband \<Rightarrow> ('w, u16) prog" where
  "get_lid ib = bnd (deref (active_port (ibx_device ib))) (\<lambda>p. ret (pt_lid p))"

definition get_gid :: "infiniband \<Rightarrow> ('w, ibv_gid) prog" where
  "get_gid ib = bnd (deref (active_port (ibx_device ib))) (\<lambda>p. ret (pt_gid p))"

section \<open>Acknowledging events\<close>

text \<open>
  A watcher that counts the events the adapter has delivered and the events that were
  acknowledged. (Destroying a queue blocks until the two agree.)
\<close>

definition watch_event :: "('w \<Rightarrow> (int \<times> handle) \<times> 'w) \<Rightarrow> 'w \<times> nat \<times> nat \<Rightarrow> (int \<times> handle) \<times> ('w \<times> nat \<times> nat)" where
  "watch_event f = (\<lambda>(w, got, acked). case f w of (x, w') \<Rightarrow> (x, (w', if fst x = 0 then Suc got else got, acked)))"

definition watch_ack :: "u32 \<Rightarrow> ('w \<Rightarrow> unit \<times> 'w) \<Rightarrow> 'w \<times> nat \<times> nat \<Rightarrow> unit \<times> ('w \<times> nat \<times> nat)" where
  "watch_ack k f = (\<lambda>(w, got, acked). case f w of (x, w') \<Rightarrow> (x, (w', got, acked + unat k)))"

definition events_watched :: "'w verbs \<Rightarrow> ('w \<times> nat \<times> nat) verbs" where
  "events_watched V = (lift_verbs V)\<lparr>ibv_get_cq_event := (\<lambda>ch. watch_event (ibv_get_cq_event V ch)),
     ibv_ack_cq_events := (\<lambda>cq k. watch_ack k (ibv_ack_cq_events V cq k))\<rparr>"

lemma events_watched_sel [simp]:
  "ibv_get_cq_event (events_watched V) = (\<lambda>ch. watch_event (ibv_get_cq_event V ch))"
  "ibv_ack_cq_events (events_watched V) = (\<lambda>cq k. watch_ack k (ibv_ack_cq_events V cq k))"
  by (simp_all add: events_watched_def)

lemma watch_event_apply [watch_simps]:
  "watch_event f (w, got, acked) = (fst (f w), (snd (f w), if fst (fst (f w)) = 0 then Suc got else got, acked))"
  by (cases "f w") (simp add: watch_event_def)

lemma watch_ack_apply [watch_simps]:
  "watch_ack k f (w, got, acked) = (fst (f w), (snd (f w), got, acked + unat k))"
  by (cases "f w") (simp add: watch_ack_def)

text \<open>Any number of calls of \<open>get_cq_event\<close> in a row.\<close>

fun take_events :: "nat \<Rightarrow> 'w ib_env \<Rightarrow> completion_channel \<Rightarrow> ('w, completion_channel) prog" where
  "take_events 0 E cc = ret cc"
| "take_events (Suc n) E cc = bnd (get_cq_event E cc) (\<lambda>(_, cc). take_events n E cc)"

definition acks_ok :: "completion_channel \<Rightarrow> nat \<Rightarrow> nat \<Rightarrow> bool" where
  "acks_ok cc got acked \<longleftrightarrow> got = acked + unat (need_ack cc) \<and> unat (need_ack cc) < 128"

lemma get_cq_event_acks:
  assumes "ib_verbs E = events_watched V" and "acks_ok cc got acked"
    and "get_cq_event E cc (w, got, acked) = (Inr (b, cc'), (w', got', acked'))"
  shows "acks_ok cc' got' acked' \<and> cc_channel cc' = cc_channel cc \<and> cc_cq cc' = cc_cq cc
    \<and> got' = (if b then Suc got else got)"
proof -
  have "unat (need_ack cc + 1) = unat (need_ack cc) + 1"
    using assms(2) by (simp add: acks_ok_def unat_word_ariths(1))
  then show ?thesis
    using assms unfolding get_cq_event_def acks_ok_def MAX_ACK_EVENT_def
    by (auto simp: run_iffs watch_simps Let_def word_unat_eq_iff split: if_splits)
qed

lemma take_events_acks:
  assumes "ib_verbs E = events_watched V" and "acks_ok cc got acked"
    and "take_events n E cc (w, got, acked) = (Inr cc', (w', got', acked'))"
  shows "acks_ok cc' got' acked' \<and> cc_channel cc' = cc_channel cc \<and> cc_cq cc' = cc_cq cc"
  using assms(2,3)
proof (induction n arbitrary: cc w got acked)
  case 0
  then show ?case by (simp add: ret_Inr_iff)
next
  case (Suc n)
  obtain b cc1 w1 got1 acked1 where one: "get_cq_event E cc (w, got, acked) = (Inr (b, cc1), (w1, got1, acked1))"
    and rest: "take_events n E cc1 (w1, got1, acked1) = (Inr cc', (w', got', acked'))"
    using Suc.prems(2) by (auto simp: bnd_Inr_iff)
  note step = get_cq_event_acks [OF assms(1) Suc.prems(1) one]
  then have "acks_ok cc1 got1 acked1" by blast
  from Suc.IH [OF this rest] step show ?case by auto
qed

section \<open>Receive buffers\<close>

text \<open>An environment that logs what is posted to the shared receive queue.\<close>

definition srq_logged :: "'w verbs \<Rightarrow> ('w \<times> ibv_recv_wr list) verbs" where
  "srq_logged V = (lift_verbs V)\<lparr>ibv_post_srq_recv := (\<lambda>q wr. logging_call [wr] (ibv_post_srq_recv V q wr))\<rparr>"

lemma srq_logged_sel [simp]:
  "ibv_post_srq_recv (srq_logged V) = (\<lambda>q wr. logging_call [wr] (ibv_post_srq_recv V q wr))"
  by (simp add: srq_logged_def)

lemma post_chunks_posts:
  assumes "ib_verbs E = srq_logged V" and "post_chunks E ib ps (w, g) = (Inr 0, (w', g'))"
  shows "map rwr_id g' = map rwr_id g @ ps"
  using assms(2)
proof (induction ps arbitrary: w g)
  case Nil
  then show ?case by (simp add: ret_Inr_iff)
next
  case (Cons p ps)
  obtain w1 g1 where one: "post_chunk E ib p (w, g) = (Inr 0, (w1, g1))"
    and rest: "post_chunks E ib ps (w1, g1) = (Inr 0, (w', g'))"
    using Cons.prems by (auto simp: bnd_Inr_iff ret_Inr_iff split: if_splits)
  have "map rwr_id g1 = map rwr_id g @ [p]"
    using one assms(1) by (auto simp: post_chunk_def run_iffs watch_simps split: if_splits)
  then show ?case using Cons.IH [OF rest] by simp
qed

lemma get_channel_buffers_subset:
  assumes "get_channel_buffers bytes mm = Inr (ps, mm')"
  shows "set ps \<subseteq> set (channel_free mm)"
proof -
  obtain cl cl' where cl: "mm_channel mm = Some cl" and get: "get_buffers bytes cl = Inr (ps, cl')"
    using assms by (auto simp: get_channel_buffers_def sbnd_Inr_iff split: option.splits)
  show ?thesis
  proof (cases "bytes = 0")
    case True
    then show ?thesis using cl get by (auto simp: get_buffers_def)
  next
    case False
    then have "mset (free_chunks cl) = mset ps + mset (free_chunks cl')" using get by (rule clusterpool.draw_moves)
    then have "set (free_chunks cl) = set ps \<union> set (free_chunks cl')" by (metis set_mset_mset set_mset_union)
    then show ?thesis using cl by auto
  qed
qed

section \<open>Queue pairs in INIT\<close>

lemma ghost_free_create_comp_channel:
  "ghost_free (create_comp_channel (lift_ib (qp_watched V) E) dev)"
  unfolding create_comp_channel_def cc_init_def cc_delete_def set_nonblocking_def Let_def
  by (auto intro!: ghost_free_bnd split: prod.split option.split)

lemma ghost_free_create_comp_queue:
  "ghost_free (create_comp_queue (lift_ib (qp_watched V) E) dev n cc)"
  unfolding create_comp_queue_def cq_init_def cq_delete_def Let_def
  by (auto intro!: ghost_free_bnd split: prod.split option.split)

lemma ghost_free_new_queue_pair:
  "ghost_free (new_queue_pair (lift_ib (qp_watched V) E) pd type port srq txcq rxcq ms mr key)"
  unfolding new_queue_pair_def by (auto intro!: ghost_free_bnd)

lemma new_queue_pair_fields:
  assumes "new_queue_pair E pd type port srq txcq rxcq ms mr key w = (Inr q, w')"
  shows "qpo_type q = type \<and> qpo_port q = port \<and> unat (initial_psn q) < 2 ^ 24"
proof -
  have "unat (take_bit 24 x) < 2 ^ 24" for x :: u32
    by (simp only: unsigned_take_bit_eq take_bit_nat_less_exp)
  then show ?thesis using assms unfolding new_queue_pair_def by (auto simp: run_iffs)
qed

lemma qp_init_legal:
  assumes "qp_init (lift_ib (qp_watched V) E) mi q (w, g) = (Inr (0, q'), (w', g'))"
    and "qpo_type q = IBV_QPT_RC" and "all_legal g"
  shows "\<exists>h. qpo_qp q' = Some h \<and> qp_states g' (qp_handle h) = IBV_QPS_INIT \<and> all_legal g'
    \<and> initial_psn q' = initial_psn q \<and> qpo_port q' = qpo_port q"
  using assms unfolding qp_init_def
  by (auto simp: run_iffs watch_simps Let_def qp_to_init_def rc_legal_def split: option.splits if_splits)

lemma create_queue_pair_init:
  assumes "create_queue_pair (lift_ib (qp_watched V) E) ib tx IBV_QPT_RC (w, g) = (Inr (Some q), (w', g'))"
    and "all_legal g"
  shows "\<exists>h. qpo_qp q = Some h \<and> qp_states g' (qp_handle h) = IBV_QPS_INIT \<and> all_legal g'
    \<and> unat (initial_psn q) < 2 ^ 24 \<and> qpo_port q = uint (ibx_port ib)"
proof -
  let ?E = "lift_ib (qp_watched V) E"
  let ?drop = "\<lambda>ch cq. if cq = None
      then bnd (deref (cc_channel ch)) (\<lambda>h. call (ibv_destroy_comp_channel (ib_verbs ?E) h)) else ret 0"
  obtain cc w1 g1 cq w2 g2 x w3 g3 q0 w4 g4 where
    "create_comp_channel ?E (ibx_device ib) (w, g) = (Inr (Some cc), (w1, g1))"
    "create_comp_queue ?E (ibx_device ib) (ibx_max_cqe ib) (Some cc) (w1, g1) = (Inr cq, (w2, g2))"
    "?drop cc cq (w2, g2) = (Inr x, (w3, g3))"
    and new: "new_queue_pair ?E (ibx_pd ib) IBV_QPT_RC (uint (ibx_port ib)) (ibx_srq ib) tx cq
       (ibx_max_send_wr ib) (ibx_max_recv_wr ib) 0 (w3, g3) = (Inr q0, (w4, g4))"
    and init: "qp_init ?E (ibx_max_inline ib) q0 (w4, g4) = (Inr (0, q), (w', g'))"
    using assms(1) unfolding create_queue_pair_def
    by (fastforce simp: bnd_Inr_iff ret_Inr_iff split: option.splits if_splits)
  moreover have "ghost_free (?drop cc cq)" by simp
  ultimately have "g4 = g"
    using ghost_freeD [OF ghost_free_create_comp_channel] ghost_freeD [OF ghost_free_create_comp_queue]
      ghost_freeD [OF ghost_free_new_queue_pair] ghost_freeD by metis
  then show ?thesis
    using qp_init_legal [OF init] new_queue_pair_fields [OF new] assms(2) by auto
qed

section \<open>Channels released twice\<close>

text \<open>
  When the descriptor of a new channel cannot be made non-blocking, \<open>init\<close> destroys the channel
  and \<open>create_comp_channel\<close> deletes the object, whose destructor destroys the same channel again.
\<close>

lemma create_comp_channel_twice:
  assumes "dv_ctxt dev = Some c" and "ibv_create_comp_channel V c w = (Some ch, w1)"
    and "ib_getfl E (channel_fd ch) w1 = (- 1, w2)" and "R_chan (channel_handle ch) \<notin># held l"
  shows "\<not> sound (snd (snd (create_comp_channel (lift_ib (tracked_verbs V) E) dev (w, l))))"
  using assms
  by (simp add: create_comp_channel_def cc_init_def cc_delete_def cc_new_def set_nonblocking_def Let_def
      prog_simps watch_simps)

section \<open>Properties\<close>

text \<open>
  C9. Completion events are acknowledged without loss. Let a channel with nothing to acknowledge be
  asked for events any number of times, in an arbitrary environment that may fail or deliver at each
  call. The events delivered are those acknowledged plus the channel's counter, which stays below
  128, and \<open>ack_events\<close> then acknowledges exactly the rest (a queue with an unacknowledged event
  cannot be destroyed).
\<close>

theorem events_acknowledged:
  assumes "need_ack cc = 0" and "cc_cq cc = Some h"
    and "take_events n (lift_ib (events_watched V) E) cc (w, 0, 0) = (Inr cc', (w', got, acked))"
  shows "got = acked + unat (need_ack cc') \<and> unat (need_ack cc') < 128
    \<and> (\<exists>cc'' w''. ack_events (lift_ib (events_watched V) E) cc' (w', got, acked) = (Inr cc'', (w'', got, got))
        \<and> need_ack cc'' = 0)"
proof -
  have "acks_ok cc 0 0" using assms(1) by (simp add: acks_ok_def)
  from take_events_acks [OF _ this assms(3)] have "acks_ok cc' got acked" "cc_cq cc' = Some h"
    using assms(2) by simp_all
  then show ?thesis by (simp add: acks_ok_def ack_events_def prog_simps watch_simps)
qed

definition sample_channel :: completion_channel where
  "sample_channel = \<lparr>cc_channel = Some \<lparr>channel_handle = 0, channel_fd = 5\<rparr>, cc_cq = Some 1, need_ack = 0\<rparr>"

lemma events_acknowledged_witness:
  "\<exists>cc' w' got acked. take_events 3 (lift_ib (events_watched sample_verbs) sample_ib_env) sample_channel (0, 0, 0)
      = (Inr cc', (w', got, acked)) \<and> got = acked + unat (need_ack cc') \<and> got = 3"
proof -
  have "take_events 3 (lift_ib (events_watched sample_verbs) sample_ib_env) sample_channel (0, 0, 0)
      = (Inr (sample_channel\<lparr>need_ack := 3\<rparr>), (0, 3, 0))"
    by (simp add: numeral_3_eq_3 get_cq_event_def sample_channel_def MAX_ACK_EVENT_def Let_def prog_simps
        watch_simps sample_sel)
  from events_acknowledged [OF _ _ this, of 1] this show ?thesis by (simp add: sample_channel_def)
qed

text \<open>
  C34. Transmit buffers are receive buffers. After \<open>post_channel_cluster\<close> has succeeded, every chunk
  that \<open>get_tx_buffers\<close> hands out is one whose address was posted to the shared receive queue: the
  adapter may write a received message into a chunk while the program fills it.
\<close>

theorem tx_buffers_posted:
  assumes "post_channel_cluster (lift_ib (srq_logged V) E) ib (w, []) = (Inr (0, ib'), (w', posted))"
    and "get_tx_buffers bytes ib' = Inr (ps, ib'')"
  shows "set ps \<subseteq> set (map rwr_id posted)"
proof -
  obtain qs mm where get: "get_channel_buffers 0 (ibx_mm ib) = Inr (qs, mm)" and ib': "ib' = ib\<lparr>ibx_mm := mm\<rparr>"
    and post: "post_chunks (lift_ib (srq_logged V) E) ib' qs (w, []) = (Inr 0, (w', posted))"
    using assms(1) unfolding post_channel_cluster_def by (auto simp: run_iffs Let_def)
  have "map rwr_id posted = qs" using post_chunks_posts [OF _ post] by simp
  moreover have "qs = channel_free mm"
    using get by (auto simp: get_channel_buffers_def get_buffers_def sbnd_Inr_iff split: option.splits)
  moreover have "set ps \<subseteq> set (channel_free mm)"
    using assms(2) ib' by (auto simp: get_tx_buffers_def sbnd_Inr_iff dest: get_channel_buffers_subset)
  ultimately show ?thesis by simp
qed

definition sample_ib_chunk :: "u64 \<Rightarrow> chunk" where
  "sample_ib_chunk a = \<lparr>ck_buffer = a, ck_bytes = 8, ck_offset = 0,
     ck_mr = \<lparr>mr_handle = 1, mr_addr = a, mr_lkey = 11, mr_rkey = 12\<rparr>, ck_data = ''--------''\<rparr>"

definition sample_port :: port where
  "sample_port = \<lparr>pt_num = 1,
     pt_attr = \<lparr>pa_state = IBV_PORT_ACTIVE, pa_lid = 9, pa_link_layer = IBV_LINK_LAYER_ETHERNET\<rparr>,
     pt_lid = 9, pt_gid = gid_zero\<rparr>"

definition sample_infiniband :: infiniband where
  "sample_infiniband =
     \<lparr>ibx_device = \<lparr>dv_name = ''mlx4_0'', dv_ctxt = Some 2,
         dv_attr = \<lparr>phys_port_cnt = 1, da_max_srq_wr = 512, da_max_cqe = 1024, da_max_qp_wr = 256\<rparr>,
         dv_ports = [sample_port], active_port = Some sample_port\<rparr>,
      ibx_port = 1, ibx_pd = 3, ibx_max_recv_wr = 512, ibx_max_send_wr = 256, ibx_max_cqe = 1024, ibx_max_sge = 1,
      ibx_max_inline = 128,
      ibx_mm = \<lparr>mm_channel = Some \<lparr>chunk_size = 8, free_chunks = [100, 101]\<rparr>, mm_rdma = None,
        mm_send = Some \<lparr>chunk_size = 8, free_chunks = []\<rparr>,
        mm_heap = [100 \<mapsto> sample_ib_chunk 4096, 101 \<mapsto> sample_ib_chunk 4104]\<rparr>,
      ibx_srq = Some 4\<rparr>"

lemma tx_buffers_posted_witness:
  "\<exists>ib' w' posted ib''. post_channel_cluster (lift_ib (srq_logged sample_verbs) sample_ib_env) sample_infiniband (0, [])
      = (Inr (0, ib'), (w', posted))
    \<and> get_tx_buffers 5 ib' = Inr ([101], ib'') \<and> 101 \<in> set (map rwr_id posted)"
proof -
  have "\<exists>w' posted. post_channel_cluster (lift_ib (srq_logged sample_verbs) sample_ib_env) sample_infiniband (0, [])
      = (Inr (0, sample_infiniband), (w', posted))"
    by (simp add: post_channel_cluster_def sample_infiniband_def get_channel_buffers_def get_buffers_def post_chunk_def
        Let_def prog_simps watch_simps sample_sel)
  then obtain w' posted where run: "post_channel_cluster (lift_ib (srq_logged sample_verbs) sample_ib_env) sample_infiniband (0, [])
      = (Inr (0, sample_infiniband), (w', posted))" by blast
  have "unat (chunk_count 8 5) = Suc 0" by (simp add: chunk_count_def)
  then have "\<exists>ib''. get_tx_buffers 5 sample_infiniband = Inr ([101], ib'')"
    by (simp add: get_tx_buffers_def get_channel_buffers_def get_buffers_def sample_infiniband_def)
  then obtain ib'' where get: "get_tx_buffers 5 sample_infiniband = Inr ([101], ib'')" by blast
  from tx_buffers_posted [OF run get] run get show ?thesis by auto
qed

end
