(* ===== verification/ConnectedSocket.thy ===== *)
theory ConnectedSocket
  imports Infiniband
begin

text \<open>
  \<open>RDMAConnectedSocketImpl\<close> of \<open>rdma/RDMAStack.h\<close> and \<open>rdma/RDMAConnectedSocketImpl.cc\<close>: the two ends of
  a connection, its queue pair, and reading and sending through the chunks of the memory manager.

  The \<open>Infiniband\<close> object is shared by all sockets and is passed along. The adapter writes a received
  message to the start of its chunk; the model lets it do so when the completion is polled. (A
  receive chunk is posted once, when the stack starts.)
\<close>

section \<open>Definitions\<close>

text \<open>
  \<open>connected\<close> is not initialised by the constructor. \<open>cs_cc\<close> is the channel of \<open>cs_cq\<close>, and \<open>cs_cq\<close>
  the receive queue of \<open>cs_qp\<close>: the code has pointers to one object, the model copies of it, which
  \<open>set_channel\<close> changes together.
\<close>

record connected_socket =
  cs_qp :: queue_pair
  peer_msg :: ibsynmsg
  my_msg :: ibsynmsg
  cs_connected :: "int option"
  rx_buffers :: "chunk_ptr list"
  cs_cc :: completion_channel
  cs_cq :: completion_queue

definition new_connected_socket :: "'w ib_env \<Rightarrow> infiniband \<Rightarrow> completion_queue option \<Rightarrow> ibsynmsg \<Rightarrow>
    ('w, connected_socket) prog" where
  "new_connected_socket E ib tx_cq im =
     bnd (create_queue_pair E ib tx_cq IBV_QPT_RC) (\<lambda>q.
     bnd (deref q) (\<lambda>qp.
     bnd (deref (qpo_rxcq qp)) (\<lambda>cq.
     bnd (deref (cq_channel cq)) (\<lambda>cc.
     bnd (deref (qpo_qp qp)) (\<lambda>h.
     bnd (get_lid ib) (\<lambda>lid.
     bnd (get_gid ib) (\<lambda>gid.
     ret \<lparr>cs_qp = qp, peer_msg = im,
          my_msg = \<lparr>im_lid = lid, im_qpn = qp_num h, im_psn = initial_psn qp, im_gid = gid\<rparr>,
          cs_connected = None, rx_buffers = [], cs_cc = cc, cs_cq = cq\<rparr>)))))))"

definition set_channel :: "completion_channel \<Rightarrow> connected_socket \<Rightarrow> connected_socket" where
  "set_channel cc s =
     (let cq = (cs_cq s)\<lparr>cq_channel := Some cc\<rparr>
      in s\<lparr>cs_cc := cc, cs_cq := cq, cs_qp := (cs_qp s)\<lparr>qpo_rxcq := Some cq\<rparr>\<rparr>)"

definition is_connected :: "connected_socket \<Rightarrow> ('w, int) prog" where
  "is_connected s = deref (cs_connected s)"

definition set_peer_msg :: "ibsynmsg \<Rightarrow> connected_socket \<Rightarrow> connected_socket" where
  "set_peer_msg m s = s\<lparr>peer_msg := m\<rparr>"

definition cs_fd :: "connected_socket \<Rightarrow> ('w, int) prog" where
  "cs_fd s = bnd (deref (cc_channel (cs_cc s))) (\<lambda>ch. ret (channel_fd ch))"

text \<open>The attributes of the two transitions, and \<open>activate\<close>.\<close>

definition activate_rtr :: "infiniband \<Rightarrow> connected_socket \<Rightarrow> ibv_qp_attr" where
  "activate_rtr ib s = qp_attr_zero\<lparr>qp_state := IBV_QPS_RTR, path_mtu := Some IBV_MTU_1024,
     dest_qp_num := im_qpn (peer_msg s), rq_psn := im_psn (peer_msg s), max_dest_rd_atomic := 1,
     min_rnr_timer := 12,
     ah_attr := ah_attr_zero\<lparr>ah_is_global := 1, ah_hop_limit := 6, ah_dgid := im_gid (peer_msg s),
       ah_sgid_index := 0, ah_dlid := im_lid (peer_msg s), ah_sl := 0, ah_src_path_bits := 0,
       ah_port_num := ibx_port ib\<rparr>\<rparr>"

definition activate_rtr_mask :: "ibv_qp_attr_mask list" where
  "activate_rtr_mask = [IBV_QP_STATE, IBV_QP_AV, IBV_QP_PATH_MTU, IBV_QP_DEST_QPN, IBV_QP_RQ_PSN,
     IBV_QP_MIN_RNR_TIMER, IBV_QP_MAX_DEST_RD_ATOMIC]"

definition activate_rts :: "infiniband \<Rightarrow> connected_socket \<Rightarrow> ibv_qp_attr" where
  "activate_rts ib s = (activate_rtr ib s)\<lparr>qp_state := IBV_QPS_RTS, timeout := 14, retry_cnt := 7,
     rnr_retry := 7, sq_psn := im_psn (my_msg s), max_rd_atomic := 1\<rparr>"

definition activate_rts_mask :: "ibv_qp_attr_mask list" where
  "activate_rts_mask = [IBV_QP_STATE, IBV_QP_TIMEOUT, IBV_QP_RETRY_CNT, IBV_QP_RNR_RETRY, IBV_QP_SQ_PSN,
     IBV_QP_MAX_QP_RD_ATOMIC]"

definition activate :: "'w ib_env \<Rightarrow> infiniband \<Rightarrow> connected_socket \<Rightarrow> ('w, int \<times> connected_socket) prog" where
  "activate E ib s =
     bnd (deref (qpo_qp (cs_qp s))) (\<lambda>h.
     bnd (call (ibv_modify_qp (ib_verbs E) h (activate_rtr ib s) activate_rtr_mask)) (\<lambda>r.
     if r \<noteq> 0 then ret (- 1, s)
     else
       bnd (call (ibv_modify_qp (ib_verbs E) h (activate_rts ib s) activate_rts_mask)) (\<lambda>r.
       if r \<noteq> 0 then ret (- 1, s) else ret (0, s\<lparr>cs_connected := Some 1\<rparr>))))"

section \<open>Reading\<close>

text \<open>
  \<open>read_buffers\<close>: the number of bytes, what was stored at \<open>buf\<close>, and the chunks. All of them stay
  in \<open>rx_buffers\<close>.
\<close>

fun read_buffers :: "chunk_ptr list \<Rightarrow> size_t \<Rightarrow> size_t \<Rightarrow> bytes \<Rightarrow> chunk_heap \<Rightarrow>
    fault + (size_t \<times> bytes) \<times> chunk_heap" where
  "read_buffers [] len read buf h = Inr ((read, buf), h)"
| "read_buffers (p # ps) len read buf h =
     (case h p of None \<Rightarrow> Inl Undefined_behaviour | Some c \<Rightarrow>
      sbnd (chunk_read (len - read) c) (\<lambda>((n, bs), c).
      let read = read + n; buf = buf @ bs; h = h(p \<mapsto> c) in
      if read = len then Inr ((read, buf), h) else read_buffers ps len read buf h))"

text \<open>The adapter's writes for the polled completions.\<close>

fun deliver :: "'w ib_env \<Rightarrow> ibv_wc list \<Rightarrow> chunk_heap \<Rightarrow> ('w, chunk_heap) prog" where
  "deliver E [] h = ret h"
| "deliver E (wc # wcs) h =
     bnd (call (ib_received E (wc_wr_id wc))) (\<lambda>bs.
     deliver E wcs (case h (wc_wr_id wc) of None \<Rightarrow> h
       | Some c \<Rightarrow> h(wc_wr_id wc \<mapsto> c\<lparr>ck_data := take (length (ck_data c)) (bs @ drop (length bs) (ck_data c))\<rparr>)))"

text \<open>The loop over the completions. \<open>read\<close> is signed, but every comparison converts it.\<close>

fun read_responses :: "ibv_wc list \<Rightarrow> size_t \<Rightarrow> (size_t \<times> bytes) \<times> chunk_ptr list \<times> chunk_heap \<Rightarrow>
    fault + (size_t \<times> bytes) \<times> chunk_ptr list \<times> chunk_heap" where
  "read_responses [] len st = Inr st"
| "read_responses (wc # wcs) len ((read, buf), rx, h) =
     (if wc_status wc \<noteq> IBV_WC_SUCCESS then Inl Assert_failed
      else if read = len then read_responses wcs len ((read, buf), rx @ [wc_wr_id wc], h)
      else case h (wc_wr_id wc) of None \<Rightarrow> Inl Undefined_behaviour | Some c \<Rightarrow>
        if read + ucast (wc_byte_len wc) \<ge> len then
          sbnd (chunk_read (len - read) c) (\<lambda>((n, bs), c).
          read_responses wcs len ((read + n, buf @ bs), rx @ [wc_wr_id wc], h(wc_wr_id wc \<mapsto> c)))
        else
          sbnd (chunk_read (ucast (wc_byte_len wc)) c) (\<lambda>((n, bs), c).
          read_responses wcs len ((read + n, buf @ bs), rx, h(wc_wr_id wc \<mapsto> c))))"

text \<open>From the label \<open>again\<close> on. A failed poll gives \<open>n = -1\<close>, which is no completion but not zero.\<close>

fun read_again :: "nat \<Rightarrow> 'w ib_env \<Rightarrow> completion_queue \<Rightarrow> size_t \<Rightarrow> bool \<Rightarrow>
    (size_t \<times> bytes) \<times> chunk_ptr list \<times> chunk_heap \<Rightarrow> ('w, (size_t \<times> bytes) \<times> chunk_ptr list \<times> chunk_heap) prog" where
  "read_again 0 E cq len rearmed st = fail Out_of_fuel"
| "read_again (Suc fuel) E cq len rearmed (rd, rx, h) =
     bnd (poll_cq E cq 16) (\<lambda>(n, wcs).
     bnd (deliver E wcs h) (\<lambda>h.
     bnd (pure_prog (read_responses wcs len (rd, rx, h))) (\<lambda>st.
     if n \<noteq> 0 then read_again fuel E cq len rearmed st
     else if \<not> rearmed then bnd (rearm_notify E cq) (\<lambda>_. read_again fuel E cq len True st)
     else ret st)))"

fun wait_cq_event :: "nat \<Rightarrow> 'w ib_env \<Rightarrow> completion_channel \<Rightarrow> ('w, completion_channel) prog" where
  "wait_cq_event 0 E cc = fail Out_of_fuel"
| "wait_cq_event (Suc fuel) E cc =
     bnd (get_cq_event E cc) (\<lambda>(ok, cc). if ok then ret cc else wait_cq_event fuel E cc)"

text \<open>The result, the contents of the caller's buffer from its start, the socket and the stack.\<close>

definition cs_read :: "nat \<Rightarrow> 'w ib_env \<Rightarrow> infiniband \<Rightarrow> connected_socket \<Rightarrow> size_t \<Rightarrow>
    ('w, (size_t \<times> bytes) \<times> connected_socket \<times> infiniband) prog" where
  "cs_read fuel E ib s len =
     bnd (wait_cq_event fuel E (cs_cc s)) (\<lambda>cc.
     bnd (pure_prog (read_buffers (rx_buffers s) len 0 [] (mm_heap (ibx_mm ib)))) (\<lambda>(rd, h).
     bnd (read_again fuel E (cs_cq s) len False (rd, rx_buffers s, h)) (\<lambda>(rd, rx, h).
     ret (rd, (set_channel cc s)\<lparr>rx_buffers := rx\<rparr>, ib\<lparr>ibx_mm := (ibx_mm ib)\<lparr>mm_heap := h\<rparr>\<rparr>))))"

definition zero_copy_read :: "connected_socket \<Rightarrow> int" where
  "zero_copy_read s = 0"

section \<open>Sending\<close>

text \<open>
  The inner copying loop, for what is left of one buffer; a buffer has less than \<open>2 ^ 32\<close> bytes.
  Reading \<open>*current_buffer\<close> at the end of the vector is undefined.
\<close>

fun scatter :: "nat \<Rightarrow> bytes \<Rightarrow> chunk_ptr list \<Rightarrow> chunk_heap \<Rightarrow> fault + chunk_ptr list \<times> chunk_heap" where
  "scatter 0 bs cur h = Inl Out_of_fuel"
| "scatter (Suc fuel) bs cur h =
     (if bs = [] then Inr (cur, h)
      else case cur of [] \<Rightarrow> Inl Undefined_behaviour
      | p # ps \<Rightarrow>
        (case h p of None \<Rightarrow> Inl Undefined_behaviour
         | Some c \<Rightarrow>
           sbnd (chunk_write bs c) (\<lambda>(n, c).
           scatter fuel (drop (unat n) bs) (if chunk_full c then ps else cur) (h(p \<mapsto> c)))))"

fun scatter_all :: "bytes list \<Rightarrow> chunk_ptr list \<Rightarrow> chunk_heap \<Rightarrow> fault + chunk_ptr list \<times> chunk_heap" where
  "scatter_all [] cur h = Inr (cur, h)"
| "scatter_all (b # bl) cur h =
     sbnd (scatter (Suc (length b + length cur)) b cur h) (\<lambda>(cur, h). scatter_all bl cur h)"

text \<open>The work request for one chunk; its length is the chunk's cursor.\<close>

definition chunk_wr :: "chunk_ptr \<Rightarrow> chunk \<Rightarrow> ibv_send_wr" where
  "chunk_wr p c = \<lparr>swr_id = p,
     swr_sg_list = [\<lparr>sge_addr = ck_buffer c, sge_length = ucast (ck_offset c), sge_lkey = mr_lkey (ck_mr c)\<rparr>],
     swr_opcode = IBV_WR_SEND, swr_signaled = True, swr_remote_addr = 0, swr_rkey = 0\<rparr>"

fun chunk_wrs :: "chunk_ptr list \<Rightarrow> chunk_heap \<Rightarrow> fault + ibv_send_wr list" where
  "chunk_wrs [] h = Inr []"
| "chunk_wrs (p # ps) h =
     (case h p of None \<Rightarrow> Inl Undefined_behaviour
      | Some c \<Rightarrow> sbnd (chunk_wrs ps h) (\<lambda>wrs. Inr (chunk_wr p c # wrs)))"

text \<open>
  \<open>send\<close>: the result, the list of buffers afterwards, and the stack. With no chunks the array of
  requests has no first element to post.
\<close>

definition cs_send :: "'w ib_env \<Rightarrow> infiniband \<Rightarrow> connected_socket \<Rightarrow> bytes list \<Rightarrow>
    ('w, int \<times> bytes list \<times> infiniband) prog" where
  "cs_send E ib s bl =
     (let bytes = sum_list (map (\<lambda>b. of_nat (length b)) bl) in
      bnd (pure_prog (get_tx_buffers bytes ib)) (\<lambda>(tx_buffers, ib).
      bnd (pure_prog (scatter_all bl tx_buffers (mm_heap (ibx_mm ib)))) (\<lambda>(_, h).
      let ib = ib\<lparr>ibx_mm := (ibx_mm ib)\<lparr>mm_heap := h\<rparr>\<rparr> in
      bnd (defined (tx_buffers \<noteq> [])) (\<lambda>_.
      bnd (pure_prog (chunk_wrs tx_buffers h)) (\<lambda>wrs.
      bnd (deref (qpo_qp (cs_qp s))) (\<lambda>qp.
      bnd (call (ibv_post_send (ib_verbs E) qp wrs)) (\<lambda>r.
      if r \<noteq> 0 then ret (- 1, bl, ib) else ret (sint bytes, [], ib))))))))"

abbreviation chunk_of :: "chunk_heap \<Rightarrow> chunk_ptr \<Rightarrow> chunk" where
  "chunk_of h p \<equiv> the (h p)"

section \<open>Bringing the connection up\<close>

definition activate_steps :: "infiniband \<times> connected_socket \<Rightarrow> (ibv_qp_attr \<times> ibv_qp_attr_mask list) list" where
  "activate_steps c = (case c of (ib, s) \<Rightarrow> [(activate_rtr ib s, activate_rtr_mask), (activate_rts ib s, activate_rts_mask)])"

interpretation stackup: rc_bringup V "\<lambda>(ib, s). activate (lift_ib (qp_watched V) E) ib s" fst
  "\<lambda>(ib, s). the (qpo_qp (cs_qp s))" "- 1" activate_steps "\<lambda>(ib, s). qpo_qp (cs_qp s) \<noteq> None"
  for V :: "'w verbs" and E :: "'w ib_env"
proof unfold_locales
  fix c :: "infiniband \<times> connected_socket" assume "case c of (ib, s) \<Rightarrow> qpo_qp (cs_qp s) \<noteq> None"
  then show "bnd (case c of (ib, s) \<Rightarrow> activate (lift_ib (qp_watched V) E) ib s) (\<lambda>r. ret (fst r)) =
      modify_chain (qp_watched V) (case c of (ib, s) \<Rightarrow> the (qpo_qp (cs_qp s))) (- 1) (activate_steps c)"
    by (cases c) (auto simp: activate_def activate_steps_def deref_def bnd_assoc if_distrib [of "\<lambda>m. bnd m _"] cong: if_cong)
qed (auto simp: activate_steps_def rc_legal_def activate_rtr_def activate_rts_def activate_rtr_mask_def activate_rts_mask_def
      split: prod.splits)

lemma activate_connected:
  assumes "activate E ib s w = (Inr (r, s'), w')"
  shows "cs_connected s' = (if r = 0 then Some 1 else cs_connected s) \<and> cs_qp s' = cs_qp s"
  using assms unfolding activate_def by (auto simp: run_iffs split: if_splits)

lemma new_connected_socket_init:
  assumes "new_connected_socket (lift_ib (qp_watched V) E) ib tx im (w, g) = (Inr s, (w', g'))" and "all_legal g"
  shows "\<exists>h. qpo_qp (cs_qp s) = Some h \<and> qp_states g' (qp_handle h) = IBV_QPS_INIT \<and> all_legal g'
    \<and> im_qpn (my_msg s) = qp_num h \<and> unat (im_psn (my_msg s)) < 2 ^ 24 \<and> cs_connected s = None \<and> peer_msg s = im"
proof -
  obtain q w1 g1 where "create_queue_pair (lift_ib (qp_watched V) E) ib tx IBV_QPT_RC (w, g) = (Inr (Some q), (w1, g1))"
    and "g1 = g'" and q: "cs_qp s = q" "peer_msg s = im" "cs_connected s = None" "im_psn (my_msg s) = initial_psn q"
    "\<exists>h. qpo_qp q = Some h \<and> im_qpn (my_msg s) = qp_num h"
    using assms(1) unfolding new_connected_socket_def get_lid_def get_gid_def by (auto simp: run_iffs)
  from create_queue_pair_init [OF this(1) assms(2)] this show ?thesis by auto
qed

section \<open>Properties\<close>

definition sample_cq :: completion_queue where
  "sample_cq = \<lparr>cq_channel = Some sample_channel, cq_cq = Some 6, queue_depth = 16\<rparr>"

definition sample_queue_pair :: queue_pair where
  "sample_queue_pair = \<lparr>qpo_type = IBV_QPT_RC, qpo_port = 1, qpo_pd = 3, qpo_srq = Some 4,
     qpo_qp = Some \<lparr>qp_handle = 30, qp_num = 21\<rparr>, qpo_txcq = Some sample_cq, qpo_rxcq = Some sample_cq,
     initial_psn = 5, qpo_max_send_wr = 256, qpo_max_recv_wr = 512, q_key = 0\<rparr>"

definition sample_socket :: connected_socket where
  "sample_socket = \<lparr>cs_qp = sample_queue_pair, peer_msg = syn_zero, my_msg = sample_syn, cs_connected = Some 1,
     rx_buffers = [], cs_cc = sample_channel, cs_cq = sample_cq\<rparr>"

text \<open>
  C6. A socket of the stack brings its queue pair up legally. In every environment where the constructor
  returns, it has created a queue pair, moved it to INIT and announced its number and a 24-bit
  sequence number; \<open>activate\<close> then returns, every \<open>ibv_modify_qp\<close> call along the way is a legal transition
  with all required attributes, and the socket is connected exactly when the queue pair is
  ready to send; otherwise the result is -1 and the queue pair is in INIT or RTR.
\<close>
theorem socket_bringup:
  assumes "new_connected_socket (lift_ib (qp_watched V) E) ib tx im (w, g) = (Inr s, (w1, g1))" and "all_legal g"
  shows "\<exists>h r s' w' g'. qpo_qp (cs_qp s) = Some h
    \<and> im_qpn (my_msg s) = qp_num h \<and> unat (im_psn (my_msg s)) < 2 ^ 24
    \<and> activate (lift_ib (qp_watched V) E) ib (set_peer_msg peer s) (w1, g1) = (Inr (r, s'), (w', g')) \<and> all_legal g'
    \<and> (r = 0 \<and> cs_connected s' = Some 1 \<and> qp_states g' (qp_handle h) = IBV_QPS_RTS
       \<or> r = - 1 \<and> cs_connected s' = None \<and> qp_states g' (qp_handle h) \<in> {IBV_QPS_INIT, IBV_QPS_RTR})"
proof -
  obtain h where h: "qpo_qp (cs_qp s) = Some h" "qp_states g1 (qp_handle h) = IBV_QPS_INIT" "all_legal g1"
    "im_qpn (my_msg s) = qp_num h" "unat (im_psn (my_msg s)) < 2 ^ 24" "cs_connected s = None"
    using new_connected_socket_init [OF assms] by blast
  have same: "cs_qp (set_peer_msg peer s) = cs_qp s" "cs_connected (set_peer_msg peer s) = cs_connected s"
    by (simp_all add: set_peer_msg_def)
  obtain x w' g' where "activate (lift_ib (qp_watched V) E) ib (set_peer_msg peer s) (w1, g1) = (Inr x, (w', g'))"
    "all_legal g'" "fst x = 0 \<and> qp_states g' (qp_handle h) = IBV_QPS_RTS
       \<or> fst x = - 1 \<and> qp_states g' (qp_handle h) \<in> {IBV_QPS_INIT, IBV_QPS_RTR}"
    using stackup.bringup [of "(ib, set_peer_msg peer s)" g1 V E w1] h same by auto
  then show ?thesis
    using h same activate_connected [of "lift_ib (qp_watched V) E" ib "set_peer_msg peer s" "(w1, g1)" "fst x" "snd x" "(w', g')"]
    by (intro exI [of _ h] exI [of _ "fst x"] exI [of _ "snd x"] exI [of _ w'] exI [of _ g']) (auto simp: prod_eq_iff)
qed


definition fresh_watch :: qp_watch where
  "fresh_watch = \<lparr>qp_states = (\<lambda>_. IBV_QPS_RESET), all_legal = True\<rparr>"

lemma socket_bringup_witness:
  "\<exists>s w1 g1 r s' w' g'.
    new_connected_socket (lift_ib (qp_watched sample_verbs) sample_ib_env) sample_infiniband (Some sample_cq) syn_zero (50, fresh_watch)
      = (Inr s, (w1, g1)) \<and> unat (im_psn (my_msg s)) < 2 ^ 24
    \<and> activate (lift_ib (qp_watched sample_verbs) sample_ib_env) sample_infiniband (set_peer_msg sample_syn s) (w1, g1)
      = (Inr (r, s'), (w', g')) \<and> all_legal g'"
proof -
  have "\<exists>s w1 g1. new_connected_socket (lift_ib (qp_watched sample_verbs) sample_ib_env) sample_infiniband (Some sample_cq)
      syn_zero (50, fresh_watch) = (Inr s, (w1, g1))"
    by (simp add: new_connected_socket_def create_queue_pair_def create_comp_channel_def cc_init_def set_nonblocking_def
        create_comp_queue_def cq_init_def new_queue_pair_def qp_init_def get_lid_def get_gid_def sample_infiniband_def
        sample_cq_def Let_def prog_simps watch_simps sample_sel)
  then obtain s w1 g1 where run: "new_connected_socket (lift_ib (qp_watched sample_verbs) sample_ib_env) sample_infiniband
      (Some sample_cq) syn_zero (50, fresh_watch) = (Inr s, (w1, g1))" by blast
  have "all_legal fresh_watch" by (simp add: fresh_watch_def)
  from socket_bringup [OF run this, of sample_syn] run show ?thesis by blast
qed


end
