(* ===== verification/SocketSend.thy ===== *)
theory SocketSend
  imports ConnectedSocket
begin

text \<open>
  Correctness of \<open>send\<close> of theory ConnectedSocket: how the caller's buffers are spread over the chunks, and
  what the posted requests make the adapter send.
\<close>

section \<open>What sending puts into the chunks\<close>

definition gathered :: "chunk_heap \<Rightarrow> chunk_ptr list \<Rightarrow> bytes" where
  "gathered h ps = concat (map (\<lambda>p. chunk_written (chunk_of h p)) ps)"

definition rooms :: "chunk_heap \<Rightarrow> chunk_ptr list \<Rightarrow> nat" where
  "rooms h ps = sum_list (map (\<lambda>p. chunk_room (chunk_of h p)) ps)"

text \<open>Distinct chunks of which all but the first are empty.\<close>

definition chunks_ready :: "chunk_heap \<Rightarrow> chunk_ptr list \<Rightarrow> bool" where
  "chunks_ready h ps \<longleftrightarrow> distinct ps \<and> (\<forall>p \<in> set ps. \<exists>c. h p = Some c \<and> chunk_wf c)
     \<and> (\<forall>p \<in> set (tl ps). ck_offset (chunk_of h p) = 0)"

text \<open>Only the chunks \<open>ps\<close> change, and only their bytes and cursors.\<close>

definition keeps :: "chunk_heap \<Rightarrow> chunk_heap \<Rightarrow> chunk_ptr list \<Rightarrow> bool" where
  "keeps h h' ps \<longleftrightarrow> (\<forall>p. p \<notin> set ps \<longrightarrow> h' p = h p) \<and> (\<forall>p \<in> set ps. \<exists>c c'. h p = Some c \<and> h' p = Some c'
     \<and> chunk_wf c \<and> chunk_wf c' \<and> ck_buffer c' = ck_buffer c \<and> ck_bytes c' = ck_bytes c \<and> ck_mr c' = ck_mr c)"

lemma keeps_refl: "chunks_ready h ps \<Longrightarrow> keeps h h ps"
  by (auto simp: keeps_def chunks_ready_def)

lemma keeps_trans:
  assumes "keeps h h1 ps" and "keeps h1 h2 qs" and "set qs \<subseteq> set ps"
  shows "keeps h h2 ps"
  unfolding keeps_def
proof (intro conjI allI ballI impI)
  fix p assume "p \<notin> set ps"
  then show "h2 p = h p" using assms by (auto simp: keeps_def)
next
  fix p assume p: "p \<in> set ps"
  show "\<exists>c c'. h p = Some c \<and> h2 p = Some c' \<and> chunk_wf c \<and> chunk_wf c' \<and> ck_buffer c' = ck_buffer c
      \<and> ck_bytes c' = ck_bytes c \<and> ck_mr c' = ck_mr c"
  proof (cases "p \<in> set qs")
    case True
    then show ?thesis using p assms(1,2) unfolding keeps_def by fastforce
  next
    case False
    then have "h2 p = h1 p" using assms(2) by (simp add: keeps_def)
    then show ?thesis using p assms(1) by (simp add: keeps_def)
  qed
qed

lemma gathered_cong: "(\<And>p. p \<in> set ps \<Longrightarrow> h' p = h p) \<Longrightarrow> gathered h' ps = gathered h ps"
  by (simp add: gathered_def cong: map_cong)

lemma rooms_cong: "(\<And>p. p \<in> set ps \<Longrightarrow> h' p = h p) \<Longrightarrow> rooms h' ps = rooms h ps"
  by (simp add: rooms_def cong: map_cong)

lemma gathered_Cons: "gathered h (p # ps) = chunk_written (chunk_of h p) @ gathered h ps"
  and gathered_append: "gathered h (ps @ qs) = gathered h ps @ gathered h qs"
  and rooms_Cons: "rooms h (p # ps) = chunk_room (chunk_of h p) + rooms h ps"
  by (simp_all add: gathered_def rooms_def)

lemma gathered_empty: "(\<And>p. p \<in> set ps \<Longrightarrow> ck_offset (chunk_of h p) = 0) \<Longrightarrow> gathered h ps = []"
  by (simp add: gathered_def chunk_written_def)

lemma chunks_ready_tl: "chunks_ready h (p # ps) \<Longrightarrow> chunks_ready h ps"
  by (cases ps) (auto simp: chunks_ready_def)

text \<open>One iteration of the copying loop.\<close>

lemma scatter_step:
  assumes ready: "chunks_ready h (p # ps)" and "bs \<noteq> []" and "length bs < 2 ^ 64"
  obtains h1 where
    "scatter (Suc fuel) bs (p # ps) h = scatter fuel (drop (chunk_room (chunk_of h p)) bs)
       (if length bs < chunk_room (chunk_of h p) then p # ps else ps) h1"
    "keeps h h1 (p # ps)" "chunks_ready h1 (p # ps)" "\<And>q. q \<in> set ps \<Longrightarrow> h1 q = h q"
    "gathered h1 (p # ps) = gathered h (p # ps) @ take (chunk_room (chunk_of h p)) bs"
    "chunk_room (chunk_of h1 p) = chunk_room (chunk_of h p) - length bs"
proof -
  obtain c where c: "h p = Some c" and wf: "chunk_wf c" using ready by (auto simp: chunks_ready_def)
  have p: "p \<notin> set ps" and empty: "\<And>q. q \<in> set ps \<Longrightarrow> ck_offset (chunk_of h q) = 0"
    using ready by (auto simp: chunks_ready_def)
  obtain c' where run: "chunk_write bs c = Inr (of_nat (min (length bs) (chunk_room c)), c')" and wf': "chunk_wf c'"
    and wr: "chunk_written c' = chunk_written c @ take (chunk_room c) bs" and room: "chunk_room c' = chunk_room c - length bs"
    and shape: "ck_buffer c' = ck_buffer c" "ck_bytes c' = ck_bytes c" "ck_mr c' = ck_mr c"
    using chunk_write_spec [OF wf assms(3)] by blast
  define h1 where "h1 = h(p \<mapsto> c')"
  have n: "unat (of_nat (min (length bs) (chunk_room c)) :: size_t) = min (length bs) (chunk_room c)"
    using chunk_room_bound [of c] by (simp add: unat_of_nat)
  have same: "q \<in> set ps \<Longrightarrow> h1 q = h q" for q using p by (auto simp: h1_def)
  have none: "gathered h1 ps = []" "gathered h ps = []"
    using gathered_empty [OF empty] gathered_cong [OF same] by simp_all
  have "drop (min (length bs) (chunk_room c)) bs = drop (chunk_room c) bs" by (simp add: min_def)
  then have "scatter (Suc fuel) bs (p # ps) h = scatter fuel (drop (chunk_room c) bs)
      (if length bs < chunk_room c then p # ps else ps) h1"
    using assms(2) room by (simp add: c run n h1_def chunk_full_iff [OF wf'])
  moreover have "keeps h h1 (p # ps)" using ready c wf wf' shape p by (auto simp: keeps_def chunks_ready_def h1_def)
  moreover have "chunks_ready h1 (p # ps)" using ready wf' same by (auto simp: chunks_ready_def h1_def)
  moreover have "gathered h1 (p # ps) = gathered h (p # ps) @ take (chunk_room c) bs"
    unfolding gathered_Cons none by (simp add: h1_def c wr)
  moreover have "chunk_room (chunk_of h1 p) = chunk_room c - length bs" by (simp add: h1_def room)
  ultimately show ?thesis using that same c by simp
qed

lemma scatter_ok:
  assumes "chunks_ready h cur" and "length bs \<le> rooms h cur" and "length bs < 2 ^ 64"
    and "length bs + length cur < fuel"
  shows "\<exists>past cur' h'. scatter fuel bs cur h = Inr (cur', h') \<and> cur = past @ cur' \<and> chunks_ready h' cur'
    \<and> keeps h h' cur \<and> gathered h' cur = gathered h cur @ bs \<and> rooms h' cur' + length bs = rooms h cur"
  using assms
proof (induction fuel arbitrary: bs cur h)
  case 0
  then show ?case by simp
next
  case (Suc fuel)
  consider "bs = []" | p ps where "bs \<noteq> []" "cur = p # ps" using Suc.prems(2) by (cases cur) (auto simp: rooms_def)
  then show ?case
  proof cases
    case 1
    then show ?thesis using Suc.prems keeps_refl by (intro exI [of _ "[]"] exI [of _ cur] exI [of _ h]) simp
  next
    case 2
    define k where "k = chunk_room (chunk_of h p)"
    have ready: "chunks_ready h (p # ps)" using Suc.prems(1) 2 by simp
    then have p: "p \<notin> set ps" by (simp add: chunks_ready_def)
    obtain h1 where step: "scatter (Suc fuel) bs cur h = scatter fuel (drop k bs) (if length bs < k then cur else ps) h1"
      and keep1: "keeps h h1 cur" and ready1: "chunks_ready h1 (p # ps)" and same: "\<And>q. q \<in> set ps \<Longrightarrow> h1 q = h q"
      and g1: "gathered h1 cur = gathered h cur @ take k bs" and room1: "chunk_room (chunk_of h1 p) = k - length bs"
      using scatter_step [OF ready 2(1) Suc.prems(3), of fuel] unfolding 2(2) k_def by metis
    have total: "rooms h cur = k + rooms h1 ps" using rooms_cong [OF same] by (simp add: 2(2) rooms_Cons k_def)
    show ?thesis
    proof (cases "length bs < k")
      case True
      obtain f where "fuel = Suc f" using Suc.prems(4) 2 by (cases fuel) auto
      moreover have "rooms h1 cur + length bs = rooms h cur" using True room1 total by (simp add: 2(2) rooms_Cons)
      ultimately show ?thesis
        using step keep1 ready1 g1 True 2(2) by (intro exI [of _ "[]"] exI [of _ cur] exI [of _ h1]) simp
    next
      case False
      have "length (drop k bs) \<le> rooms h1 ps" "length (drop k bs) < 2 ^ 64" "length (drop k bs) + length ps < fuel"
        using Suc.prems(2-4) total False by (simp_all add: 2(2))
      from Suc.IH [OF chunks_ready_tl [OF ready1] this] obtain past cur' h' where
        rec: "scatter fuel (drop k bs) ps h1 = Inr (cur', h')" and ps: "ps = past @ cur'"
        and ready': "chunks_ready h' cur'" and keep2: "keeps h1 h' ps"
        and gat: "gathered h' ps = gathered h1 ps @ drop k bs" and rest: "rooms h' cur' + length (drop k bs) = rooms h1 ps"
        by blast
      have "h' p = h1 p" using keep2 p by (simp add: keeps_def)
      then have "gathered h' cur = gathered h1 cur @ drop k bs" using gat by (simp add: 2(2) gathered_Cons)
      then have "gathered h' cur = gathered h cur @ bs" using g1 by simp
      moreover have "keeps h h' cur" using keeps_trans [OF keep1 keep2] by (auto simp: 2(2))
      moreover have "rooms h' cur' + length bs = rooms h cur" using rest total False by simp
      ultimately show ?thesis
        using step rec False ready' ps by (intro exI [of _ "p # past"] exI [of _ cur'] exI [of _ h']) (simp add: 2(2))
    qed
  qed
qed

lemma scatter_all_ok:
  assumes "chunks_ready h cur" and "sum_list (map length bl) \<le> rooms h cur" and "\<forall>b \<in> set bl. length b < 2 ^ 64"
  shows "\<exists>cur' h'. scatter_all bl cur h = Inr (cur', h') \<and> keeps h h' cur
    \<and> gathered h' cur = gathered h cur @ concat bl"
  using assms
proof (induction bl arbitrary: cur h)
  case Nil
  then show ?case using keeps_refl by simp
next
  case (Cons b bl)
  obtain past cur1 h1 where run: "scatter (Suc (length b + length cur)) b cur h = Inr (cur1, h1)"
    and cur: "cur = past @ cur1" and ready1: "chunks_ready h1 cur1" and keep1: "keeps h h1 cur"
    and g1: "gathered h1 cur = gathered h cur @ b" and rest: "rooms h1 cur1 + length b = rooms h cur"
  proof -
    have "length b \<le> rooms h cur" "length b < 2 ^ 64" "length b + length cur < Suc (length b + length cur)"
      using Cons.prems(2,3) by auto
    from scatter_ok [OF Cons.prems(1) this] that show ?thesis by blast
  qed
  obtain cur' h' where rec: "scatter_all bl cur1 h1 = Inr (cur', h')" and keep2: "keeps h1 h' cur1"
    and g2: "gathered h' cur1 = gathered h1 cur1 @ concat bl"
    using Cons.IH [OF ready1] Cons.prems(2,3) rest by auto
  have "set past \<inter> set cur1 = {}" using Cons.prems(1) by (simp add: chunks_ready_def cur)
  then have "gathered h' past = gathered h1 past" using keep2 by (intro gathered_cong) (auto simp: keeps_def)
  then have "gathered h' cur = gathered h cur @ concat (b # bl)" using g1 g2 by (simp add: cur gathered_append)
  moreover have "keeps h h' cur" using keeps_trans [OF keep1 keep2] by (simp add: cur)
  ultimately show ?case using run rec by (simp del: scatter.simps)
qed

lemma chunk_wrs_ok:
  assumes "\<And>p. p \<in> set ps \<Longrightarrow> h p \<noteq> None"
  shows "chunk_wrs ps h = Inr (map (\<lambda>p. chunk_wr p (chunk_of h p)) ps)"
  using assms by (induction ps) (fastforce split: option.split)+

text \<open>The bytes that a posted request makes the adapter send, read from the memory of the chunk.\<close>

definition wr_payload :: "chunk_heap \<Rightarrow> ibv_send_wr \<Rightarrow> bytes" where
  "wr_payload h wr = take (unat (sge_length (hd (swr_sg_list wr)))) (ck_data (chunk_of h (swr_id wr)))"

lemma chunk_wr_payload:
  assumes "chunk_wf (chunk_of h p)"
  shows "wr_payload h (chunk_wr p (chunk_of h p)) = chunk_written (chunk_of h p)"
proof -
  have "unat (ck_offset (chunk_of h p)) < 2 ^ 32"
    using assms unat_u32_bound [of "ck_bytes (chunk_of h p)"] by (simp add: chunk_wf_def)
  then have "unat (ucast (ck_offset (chunk_of h p)) :: u32) = unat (ck_offset (chunk_of h p))"
    by (simp add: unsigned_ucast_eq take_bit_eq_mod)
  then show ?thesis by (simp add: wr_payload_def chunk_wr_def chunk_written_def)
qed

lemma posted_payload:
  assumes "keeps h0 h ps"
  shows "chunk_wrs ps h = Inr (map (\<lambda>p. chunk_wr p (chunk_of h p)) ps)"
    and "concat (map (wr_payload h) (map (\<lambda>p. chunk_wr p (chunk_of h p)) ps)) = gathered h ps"
proof -
  have wf: "\<exists>c. h p = Some c \<and> chunk_wf c" if "p \<in> set ps" for p using assms that unfolding keeps_def by blast
  then show "chunk_wrs ps h = Inr (map (\<lambda>p. chunk_wr p (chunk_of h p)) ps)" by (intro chunk_wrs_ok) auto
  have "wr_payload h (chunk_wr p (chunk_of h p)) = chunk_written (chunk_of h p)" if "p \<in> set ps" for p
    using wf [OF that] by (intro chunk_wr_payload) auto
  then show "concat (map (wr_payload h) (map (\<lambda>p. chunk_wr p (chunk_of h p)) ps)) = gathered h ps"
    by (simp add: o_def gathered_def cong: map_cong)
qed

text \<open>An environment that logs the requests posted for sending.\<close>

definition send_logged :: "'w verbs \<Rightarrow> ('w \<times> ibv_send_wr list) verbs" where
  "send_logged V = (lift_verbs V)\<lparr>ibv_post_send := (\<lambda>q wrs. logging_call wrs (ibv_post_send V q wrs))\<rparr>"

lemma send_logged_sel [simp]:
  "ibv_post_send (send_logged V) = (\<lambda>q wrs. logging_call wrs (ibv_post_send V q wrs))"
  by (simp add: send_logged_def)

text \<open>A pool of empty chunks of one size.\<close>

definition pool_fresh :: "memory_manager \<Rightarrow> cluster \<Rightarrow> bool" where
  "pool_fresh mm cl \<longleftrightarrow> mm_channel mm = Some cl \<and> chunk_size cl \<noteq> 0 \<and> distinct (free_chunks cl)
     \<and> (\<forall>p \<in> set (free_chunks cl). \<exists>c. mm_heap mm p = Some c \<and> chunk_wf c \<and> ck_offset c = 0 \<and> ck_bytes c = chunk_size cl)"

lemma pool_fresh_sublist:
  assumes "pool_fresh mm cl" and "free_chunks cl = rest @ rev ps"
  shows "chunks_ready (mm_heap mm) ps" and "gathered (mm_heap mm) ps = []"
    and "rooms (mm_heap mm) ps = length ps * unat (chunk_size cl)"
proof -
  have ch: "\<exists>c. mm_heap mm p = Some c \<and> chunk_wf c \<and> ck_offset c = 0 \<and> ck_bytes c = chunk_size cl" if "p \<in> set ps" for p
    using assms that by (auto simp: pool_fresh_def)
  then have off: "ck_offset (chunk_of (mm_heap mm) p) = 0" if "p \<in> set ps" for p using that by fastforce
  then show "gathered (mm_heap mm) ps = []" by (rule gathered_empty)
  show "chunks_ready (mm_heap mm) ps"
    unfolding chunks_ready_def
  proof (intro conjI ballI)
    show "distinct ps" using assms by (simp add: pool_fresh_def)
    show "\<exists>c. mm_heap mm p = Some c \<and> chunk_wf c" if "p \<in> set ps" for p using ch [OF that] by blast
    show "ck_offset (chunk_of (mm_heap mm) p) = 0" if "p \<in> set (tl ps)" for p
      using that by (intro off) (cases ps, auto)
  qed
  have "map (\<lambda>p. chunk_room (chunk_of (mm_heap mm) p)) ps = map (\<lambda>p. unat (chunk_size cl)) ps"
  proof (rule map_cong [OF refl])
    fix p assume "p \<in> set ps"
    from ch [OF this] show "chunk_room (chunk_of (mm_heap mm) p) = unat (chunk_size cl)" by (auto simp: chunk_room_def)
  qed
  then have "rooms (mm_heap mm) ps = sum_list (map (\<lambda>p. unat (chunk_size cl)) ps)" by (simp only: rooms_def)
  then show "rooms (mm_heap mm) ps = length ps * unat (chunk_size cl)" by (simp add: sum_list_triv)
qed

lemma sum_list_of_nat: "sum_list (map (\<lambda>b. of_nat (length b)) bl) = (of_nat (sum_list (map length bl)) :: size_t)"
  by (induction bl) simp_all

text \<open>A run of \<open>send\<close>: which chunks are taken, how they are filled, and what is posted.\<close>

lemma cs_send_run:
  assumes pool: "pool_fresh (ibx_mm ib) cl" and qp: "qpo_qp (cs_qp s) = Some qp"
    and len: "len = sum_list (map length bl)" "0 < len" "len < 2 ^ 63" "len div unat (chunk_size cl) + 1 < 2 ^ 32"
    and room: "len \<le> length (free_chunks cl) * unat (chunk_size cl)"
  obtains r bl' w' ps cl' h' where
    "cs_send (lift_ib (send_logged V) E) ib s bl (w, []) =
       (Inr (r, bl', ib\<lparr>ibx_mm := (ibx_mm ib)\<lparr>mm_channel := Some cl', mm_heap := h'\<rparr>\<rparr>), (w', map (\<lambda>p. chunk_wr p (chunk_of h' p)) ps))"
    "r = int len \<and> bl' = [] \<or> r = - 1 \<and> bl' = bl" "free_chunks cl = free_chunks cl' @ rev ps"
    "keeps (mm_heap (ibx_mm ib)) h' ps" "gathered h' ps = concat bl"
proof -
  define n where "n = (of_nat len :: size_t)"
  have n: "unat n = len" using len(3) by (simp add: n_def unat_of_nat)
  have n0: "n \<noteq> 0" using n len(2) by auto
  have sint: "sint n = int len"
    using len(3) by (simp add: n_def signed_of_nat signed_take_bit_int_eq_self_iff)
  have cl: "mm_channel (ibx_mm ib) = Some cl" "chunk_size cl \<noteq> 0" using pool by (simp_all add: pool_fresh_def)
  obtain ps cl' where get: "get_buffers n cl = Inr (ps, cl')" and free: "free_chunks cl = free_chunks cl' @ rev ps"
    and enough: "len \<le> length ps * unat (chunk_size cl)"
    using get_buffers_result [OF n0 cl(2)] len(4) room by (auto simp: n)
  define ib1 where "ib1 = ib\<lparr>ibx_mm := (ibx_mm ib)\<lparr>mm_channel := Some cl'\<rparr>\<rparr>"
  have tx: "get_tx_buffers n ib = Inr (ps, ib1)" using get by (simp add: get_tx_buffers_def get_channel_buffers_def cl ib1_def)
  have "length b < 2 ^ 64" if "b \<in> set bl" for b
    using member_le_sum_list [of "length b" "map length bl"] that len by simp
  then obtain cur' h' where sc: "scatter_all bl ps (mm_heap (ibx_mm ib)) = Inr (cur', h')"
    and keep: "keeps (mm_heap (ibx_mm ib)) h' ps" and g: "gathered h' ps = concat bl"
    using scatter_all_ok [OF pool_fresh_sublist(1) [OF pool free], of bl] pool_fresh_sublist(2,3) [OF pool free] enough len(1)
    by auto
  have ps: "ps \<noteq> []" using enough len(2) by auto
  have "\<exists>r bl' w'. cs_send (lift_ib (send_logged V) E) ib s bl (w, [])
      = (Inr (r, bl', ib\<lparr>ibx_mm := (ibx_mm ib)\<lparr>mm_channel := Some cl', mm_heap := h'\<rparr>\<rparr>), (w', map (\<lambda>p. chunk_wr p (chunk_of h' p)) ps))
      \<and> (r = int len \<and> bl' = [] \<or> r = - 1 \<and> bl' = bl)"
    unfolding cs_send_def sum_list_of_nat len(1) [symmetric] n_def [symmetric] Let_def
    using sc posted_payload(1) [OF keep] ps qp sint by (simp add: prog_simps watch_simps tx ib1_def)
  then show ?thesis using that free keep g by (elim exE conjE) blast
qed

section \<open>Properties\<close>

text \<open>
  C4. A message is sent whole and in order. Let the pool hold empty chunks with enough room. Then
  \<open>send\<close> returns, in every environment; it has posted one signalled SEND per chunk, and the memory that
  the requests name, read one after the other, is the concatenation of the caller's buffers, whatever
  their sizes. The chunks are taken out of the pool; the result is the number of bytes and the
  list is cleared, or -1 when the adapter refuses and the list is kept.
\<close>
theorem send_posts_message:
  assumes pool: "pool_fresh (ibx_mm ib) cl" and qp: "qpo_qp (cs_qp s) = Some qp"
    and len: "len = sum_list (map length bl)" "0 < len" "len < 2 ^ 63" "len div unat (chunk_size cl) + 1 < 2 ^ 32"
    and room: "len \<le> length (free_chunks cl) * unat (chunk_size cl)"
  shows "\<exists>r bl' ib' w' wrs cl'. cs_send (lift_ib (send_logged V) E) ib s bl (w, []) = (Inr (r, bl', ib'), (w', wrs))
    \<and> (r = int len \<and> bl' = [] \<or> r = - 1 \<and> bl' = bl)
    \<and> concat (map (wr_payload (mm_heap (ibx_mm ib'))) wrs) = concat bl
    \<and> (\<forall>wr \<in> set wrs. swr_opcode wr = IBV_WR_SEND \<and> swr_signaled wr
        \<and> map sge_addr (swr_sg_list wr) = [ck_buffer (chunk_of (mm_heap (ibx_mm ib')) (swr_id wr))])
    \<and> mm_channel (ibx_mm ib') = Some cl' \<and> free_chunks cl = free_chunks cl' @ rev (map swr_id wrs)"
proof -
  obtain r bl' w' ps cl' h' where
    run: "cs_send (lift_ib (send_logged V) E) ib s bl (w, []) =
       (Inr (r, bl', ib\<lparr>ibx_mm := (ibx_mm ib)\<lparr>mm_channel := Some cl', mm_heap := h'\<rparr>\<rparr>), (w', map (\<lambda>p. chunk_wr p (chunk_of h' p)) ps))"
    and r: "r = int len \<and> bl' = [] \<or> r = - 1 \<and> bl' = bl" and free: "free_chunks cl = free_chunks cl' @ rev ps"
    and keep: "keeps (mm_heap (ibx_mm ib)) h' ps" and g: "gathered h' ps = concat bl"
    by (rule cs_send_run [OF assms])
  define wrs where "wrs = map (\<lambda>p. chunk_wr p (chunk_of h' p)) ps"
  have "concat (map (wr_payload h') wrs) = concat bl" unfolding wrs_def using posted_payload(2) [OF keep] g by simp
  moreover have "map swr_id wrs = ps" by (simp add: wrs_def chunk_wr_def o_def)
  moreover have "\<forall>wr \<in> set wrs. swr_opcode wr = IBV_WR_SEND \<and> swr_signaled wr
      \<and> map sge_addr (swr_sg_list wr) = [ck_buffer (chunk_of h' (swr_id wr))]"
    by (simp add: wrs_def chunk_wr_def)
  ultimately show ?thesis
    using run r free unfolding wrs_def [symmetric]
    by (intro exI [of _ r] exI [of _ bl'] exI [of _ "ib\<lparr>ibx_mm := (ibx_mm ib)\<lparr>mm_channel := Some cl', mm_heap := h'\<rparr>\<rparr>"]
        exI [of _ w'] exI [of _ wrs] exI [of _ cl']) simp
qed

lemma sample_pool_fresh: "pool_fresh (ibx_mm sample_infiniband) \<lparr>chunk_size = 8, free_chunks = [100, 101]\<rparr>"
  by (simp add: pool_fresh_def sample_infiniband_def sample_ib_chunk_def chunk_wf_def)

lemma send_posts_message_witness:
  "\<exists>r bl' ib' w' wrs. cs_send (lift_ib (send_logged sample_verbs) sample_ib_env) sample_infiniband sample_socket
      [''hello'', [], '' world''] (0, []) = (Inr (r, bl', ib'), (w', wrs))
    \<and> concat (map (wr_payload (mm_heap (ibx_mm ib'))) wrs) = ''hello world''"
proof -
  have qp: "qpo_qp (cs_qp sample_socket) = Some \<lparr>qp_handle = 30, qp_num = 21\<rparr>"
    by (simp add: sample_socket_def sample_queue_pair_def)
  show ?thesis
    using send_posts_message [OF sample_pool_fresh qp, of 11 "[''hello'', [], '' world'']" sample_verbs sample_ib_env 0]
    by fastforce
qed

end
