(* ===== verification/CompletionLoop.thy ===== *)
theory CompletionLoop
  imports Infiniband
begin

text \<open>
  The loop with which the stack empties a completion queue: poll and handle a batch until a poll finds
  nothing, rearm the notification once, and do it again. Reading from a socket and returning transmit
  buffers are both instances; the locale states what they share and what follows from it.
\<close>

section \<open>Scripted completions\<close>

text \<open>
  An environment whose completions follow a script of batches, one per poll, and are used up at its
  end; \<open>body\<close> gives the message that the adapter writes into each chunk. Everything else is arbitrary.
\<close>

fun script_poll :: "'w \<times> ibv_wc list list \<Rightarrow> poll_result \<times> ('w \<times> ibv_wc list list)" where
  "script_poll (w, []) = (Completions [], (w, []))"
| "script_poll (w, b # bs) = (Completions b, (w, bs))"

definition scripted :: "(u64 \<Rightarrow> bytes) \<Rightarrow> 'w ib_env \<Rightarrow> ('w \<times> ibv_wc list list) ib_env" where
  "scripted body E = (lift_ib ((lift_verbs (ib_verbs E))\<lparr>ibv_poll_cq := (\<lambda>cq n. script_poll)\<rparr>) E)
     \<lparr>ib_received := (\<lambda>p s. (body p, s))\<rparr>"

lemma scripted_sel [simp]:
  "ibv_poll_cq (ib_verbs (scripted body E)) = (\<lambda>cq n. script_poll)"
  "ibv_req_notify_cq (ib_verbs (scripted body E)) = (\<lambda>cq. unseen (ibv_req_notify_cq (ib_verbs E) cq))"
  "ibv_get_cq_event (ib_verbs (scripted body E)) = (\<lambda>ch. unseen (ibv_get_cq_event (ib_verbs E) ch))"
  "ibv_ack_cq_events (ib_verbs (scripted body E)) = (\<lambda>cq k. unseen (ibv_ack_cq_events (ib_verbs E) cq k))"
  "ib_received (scripted body E) = (\<lambda>p s. (body p, s))"
  by (simp_all add: scripted_def)

text \<open>Handling batches one after the other.\<close>

fun process :: "('b \<Rightarrow> 's \<Rightarrow> fault + 's) \<Rightarrow> 'b list \<Rightarrow> 's \<Rightarrow> fault + 's" where
  "process step [] st = Inr st"
| "process step (b # bs) st = sbnd (step b st) (process step bs)"

lemma process_append: "process step (bs @ cs) st = sbnd (process step bs st) (process step cs)"
proof (induction bs arbitrary: st)
  case Nil
  then show ?case by simp
next
  case (Cons b bs)
  then show ?case by (cases "step b st") simp_all
qed

section \<open>The loop\<close>

locale completion_loop =
  fixes loop :: "nat \<Rightarrow> bool \<Rightarrow> 's \<Rightarrow> ('w \<times> ibv_wc list list, 's) prog"
    and step :: "ibv_wc list \<Rightarrow> 's \<Rightarrow> fault + 's"
    and rearm :: "'w \<Rightarrow> 'w"
  assumes batch: "b \<noteq> [] \<Longrightarrow> step b st = Inr st' \<Longrightarrow> loop (Suc f) r st (w, b # rest) = loop f r st' (w, rest)"
    and empty: "loop (Suc f) False st (w, [] # rest) = loop f True st (rearm w, rest)"
    and finish: "loop (Suc f) True st (w, []) = (Inr st, (w, []))"
begin

lemma drain:
  assumes "[] \<notin> set bs" and "process step bs st = Inr st'"
  shows "loop (length bs + f) r st (w, bs @ rest) = loop f r st' (w, rest)"
  using assms
proof (induction bs arbitrary: st)
  case Nil
  then show ?case by simp
next
  case (Cons b bs)
  obtain st1 where "step b st = Inr st1" "process step bs st1 = Inr st'"
    using Cons.prems(2) by (auto simp: sbnd_Inr_iff)
  then show ?case using Cons batch by auto
qed

text \<open>All batches before and after rearming are handled, and the loop ends with the script.\<close>

lemma empties:
  assumes "[] \<notin> set bs1" and "[] \<notin> set bs2" and st: "process step (bs1 @ bs2) st = Inr st'"
    and "length bs1 + length bs2 + 1 < fuel"
  shows "loop fuel False st (w, bs1 @ [] # bs2) = (Inr st', (rearm w, []))"
proof -
  define f where "f = fuel - (length bs1 + length bs2 + 2)"
  have f: "fuel = length bs1 + Suc (length bs2 + Suc f)" using assms(4) by (simp add: f_def)
  obtain st1 where "process step bs1 st = Inr st1" "process step bs2 st1 = Inr st'"
    using st by (auto simp: process_append sbnd_Inr_iff)
  then show ?thesis
    unfolding f using drain [OF assms(1), of st st1 "Suc (length bs2 + Suc f)" False w "[] # bs2"]
      drain [OF assms(2), of st1 st' "Suc f" True "rearm w" "[]"]
    by (simp add: empty finish del: add_Suc_right)
qed

end

end
