(* ===== verification/SocketRead.thy ===== *)
theory SocketRead
  imports ConnectedSocket CompletionLoop
begin

text \<open>
  Correctness of \<open>read\<close> of theory ConnectedSocket: what arrives in the chunks, which part of it a read
  hands out, and what goes wrong with chunks that are left over.
\<close>

section \<open>What reading finds in the chunks\<close>

abbreviation messages :: "(u64 \<Rightarrow> bytes) \<Rightarrow> ibv_wc list \<Rightarrow> bytes" where
  "messages body wcs \<equiv> concat (map (\<lambda>wc. body (wc_wr_id wc)) wcs)"

text \<open>Successful completions for distinct chunks, of messages that fit and were not read yet.\<close>

definition arrival_ok :: "(u64 \<Rightarrow> bytes) \<Rightarrow> chunk_heap \<Rightarrow> ibv_wc \<Rightarrow> bool" where
  "arrival_ok body h wc \<longleftrightarrow> wc_status wc = IBV_WC_SUCCESS \<and> length (body (wc_wr_id wc)) = unat (wc_byte_len wc)
     \<and> (\<exists>c. h (wc_wr_id wc) = Some c \<and> chunk_wf c \<and> ck_offset c = 0 \<and> unat (wc_byte_len wc) \<le> unat (ck_bytes c))"

definition arrivals_ok :: "(u64 \<Rightarrow> bytes) \<Rightarrow> chunk_heap \<Rightarrow> ibv_wc list \<Rightarrow> bool" where
  "arrivals_ok body h wcs \<longleftrightarrow> distinct (map wc_wr_id wcs) \<and> (\<forall>wc \<in> set wcs. arrival_ok body h wc)"

definition arrived :: "(u64 \<Rightarrow> bytes) \<Rightarrow> chunk_heap \<Rightarrow> chunk_ptr \<Rightarrow> chunk option" where
  "arrived body h p = map_option (\<lambda>c. c\<lparr>ck_data := take (length (ck_data c)) (body p @ drop (length (body p)) (ck_data c))\<rparr>) (h p)"

fun arrive :: "(u64 \<Rightarrow> bytes) \<Rightarrow> ibv_wc list \<Rightarrow> chunk_heap \<Rightarrow> chunk_heap" where
  "arrive body [] h = h"
| "arrive body (wc # wcs) h = arrive body wcs (h(wc_wr_id wc := arrived body h (wc_wr_id wc)))"

lemma deliver_arrive: "deliver (scripted body E) wcs h = ret (arrive body wcs h)"
proof (induction wcs arbitrary: h)
  case Nil
  then show ?case by simp
next
  case (Cons wc wcs)
  have "deliver (scripted body E) (wc # wcs) h = deliver (scripted body E) wcs (h(wc_wr_id wc := arrived body h (wc_wr_id wc)))"
    by (rule ext) (auto simp: prog_simps arrived_def fun_upd_idem split: option.split)
  then show ?case by (simp only: Cons.IH arrive.simps)
qed

lemma arrive_eq:
  assumes "distinct (map wc_wr_id wcs)"
  shows "arrive body wcs h p = (if p \<in> wc_wr_id ` set wcs then arrived body h p else h p)"
  using assms by (induction wcs arbitrary: h) (auto simp: arrived_def)

text \<open>One chunk with a message in it.\<close>

definition filled :: "(u64 \<Rightarrow> bytes) \<Rightarrow> chunk_heap \<Rightarrow> ibv_wc \<Rightarrow> bool" where
  "filled body h wc \<longleftrightarrow> arrival_ok body h wc \<and>
     take (unat (wc_byte_len wc)) (ck_data (chunk_of h (wc_wr_id wc))) = body (wc_wr_id wc)"

lemma arrived_filled:
  assumes "arrival_ok body h wc" and "h' (wc_wr_id wc) = arrived body h (wc_wr_id wc)"
  shows "filled body h' wc"
  using assms by (auto simp: filled_def arrival_ok_def arrived_def chunk_wf_def min_def)

lemma filled_cong: "h' (wc_wr_id wc) = h (wc_wr_id wc) \<Longrightarrow> filled body h' wc = filled body h wc"
  and arrival_ok_cong: "h' (wc_wr_id wc) = h (wc_wr_id wc) \<Longrightarrow> arrival_ok body h' wc = arrival_ok body h wc"
  by (simp_all add: filled_def arrival_ok_def)

lemma read_filled:
  assumes "filled body h wc" and "unat n \<le> unat (wc_byte_len wc)"
  shows "\<exists>c'. chunk_read n (chunk_of h (wc_wr_id wc)) = Inr ((n, take (unat n) (body (wc_wr_id wc))), c')"
proof -
  obtain c where c: "h (wc_wr_id wc) = Some c" "chunk_wf c" "ck_offset c = 0" "unat (wc_byte_len wc) \<le> unat (ck_bytes c)"
    and b: "take (unat (wc_byte_len wc)) (ck_data c) = body (wc_wr_id wc)"
    using assms(1) by (auto simp: filled_def arrival_ok_def)
  have "take (unat n) (body (wc_wr_id wc)) = take (unat n) (ck_data c)"
    using assms(2) by (simp add: b [symmetric] min_def)
  then show ?thesis
    using assms(2) c by (simp add: chunk_read_spec [OF c(2)] chunk_room_def min_absorb1)
qed

text \<open>One completion: the message, or as much of it as is still wanted.\<close>

lemma read_responses_step:
  assumes f: "filled body h wc" and len: "unat len < 2 ^ 63" and read: "unat read \<le> unat len"
    and k: "k = min (unat len - unat read) (length (body (wc_wr_id wc)))"
  shows "\<exists>h1. read_responses (wc # wcs) len ((read, buf), rx, h) =
      read_responses wcs len ((read + of_nat k, buf @ take k (body (wc_wr_id wc))),
        if unat read + length (body (wc_wr_id wc)) < unat len then rx else rx @ [wc_wr_id wc], h1)
    \<and> (\<forall>q. q \<noteq> wc_wr_id wc \<longrightarrow> h1 q = h q) \<and> unat (read + of_nat k) = unat read + k"
proof -
  let ?p = "wc_wr_id wc" and ?m = "body (wc_wr_id wc)"
  obtain c where ok: "wc_status wc = IBV_WC_SUCCESS" and m: "length ?m = unat (wc_byte_len wc)" and c: "h ?p = Some c"
    using f by (auto simp: filled_def arrival_ok_def)
  have b: "unat (wc_byte_len wc) < 2 ^ 32" using unat_u32_bound [of "wc_byte_len wc"] by simp
  have kb: "k \<le> unat (wc_byte_len wc)" by (simp add: k m)
  have uk: "unat (of_nat k :: size_t) = k" using b kb by (simp add: unat_of_nat)
  have sum: "unat (read + ucast (wc_byte_len wc)) = unat read + length ?m"
    using len read b by (simp add: unat_word_ariths(1) unat_ucast_u32_u64 m)
  have dif: "unat (len - read) = unat len - unat read" using read by (simp add: unat_sub word_le_nat_alt)
  have "unat read + k \<le> unat len" using read by (simp add: k)
  then have rk: "unat (read + of_nat k) = unat read + k" using len by (simp add: unat_word_ariths(1) uk)
  obtain c' where rd: "chunk_read (of_nat k) c = Inr ((of_nat k, take k ?m), c')"
    using read_filled [OF f, of "of_nat k"] kb c by (auto simp: uk)
  show ?thesis
  proof (cases "unat read + length ?m < unat len")
    case True
    then have "of_nat k = (ucast (wc_byte_len wc) :: size_t)" using m by (simp add: word_unat_eq_iff uk unat_ucast_u32_u64 k)
    moreover have "read \<noteq> len" using True by auto
    moreover have "\<not> len \<le> read + ucast (wc_byte_len wc)" using True sum by (simp add: word_le_nat_alt)
    ultimately show ?thesis using rd ok c True rk by (intro exI [of _ "h(?p \<mapsto> c')"]) simp
  next
    case False
    have "unat (of_nat k :: size_t) = unat (len - read)" using False unfolding uk dif by (simp add: k)
    then have kd: "of_nat k = len - read" by (simp only: word_unat_eq_iff)
    have "k = 0" if "read = len" using that by (simp add: k)
    moreover have "len \<le> read + ucast (wc_byte_len wc)" using False sum by (simp add: word_le_nat_alt)
    ultimately show ?thesis
      using rd ok c False kd rk by (intro exI [of _ "if read = len then h else h(?p \<mapsto> c')"]) auto
  qed
qed

lemma read_responses_ok:
  assumes "\<forall>wc \<in> set wcs. filled body h wc" and "distinct (map wc_wr_id wcs)" and "unat len < 2 ^ 63"
    and "unat read \<le> unat len"
  shows "\<exists>read' rx' h'. read_responses wcs len ((read, buf), rx, h)
      = Inr ((read', buf @ take (unat len - unat read) (messages body wcs)), rx', h')
    \<and> unat read' = min (unat len) (unat read + length (messages body wcs))
    \<and> (\<forall>p. p \<notin> wc_wr_id ` set wcs \<longrightarrow> h' p = h p)
    \<and> (unat read + length (messages body wcs) < unat len \<longrightarrow> rx' = rx)"
  using assms
proof (induction wcs arbitrary: read buf rx h)
  case Nil
  then show ?case by (simp add: min_absorb2)
next
  case (Cons wc wcs)
  let ?m = "body (wc_wr_id wc)"
  define k where "k = min (unat len - unat read) (length ?m)"
  define rx1 where "rx1 = (if unat read + length ?m < unat len then rx else rx @ [wc_wr_id wc])"
  obtain h1 where step: "read_responses (wc # wcs) len ((read, buf), rx, h) =
      read_responses wcs len ((read + of_nat k, buf @ take k ?m), rx1, h1)"
    and same: "\<And>q. q \<noteq> wc_wr_id wc \<Longrightarrow> h1 q = h q" and rk: "unat (read + of_nat k) = unat read + k"
    using read_responses_step [of body h wc len read k wcs buf rx] Cons.prems(1,3,4) k_def unfolding rx1_def by auto
  have "\<forall>x \<in> set wcs. filled body h1 x"
  proof
    fix x assume x: "x \<in> set wcs"
    then have "wc_wr_id x \<noteq> wc_wr_id wc" using Cons.prems(2) by (auto simp: image_iff)
    then show "filled body h1 x" using Cons.prems(1) x same filled_cong [of h1 x h body] by simp
  qed
  moreover have "unat read + k \<le> unat len" using Cons.prems(4) by (simp add: k_def)
  ultimately obtain read' rx' h' where "read_responses wcs len ((read + of_nat k, buf @ take k ?m), rx1, h1)
      = Inr ((read', (buf @ take k ?m) @ take (unat len - (unat read + k)) (messages body wcs)), rx', h')"
    and "unat read' = min (unat len) (unat read + k + length (messages body wcs))"
    and "\<forall>p. p \<notin> wc_wr_id ` set wcs \<longrightarrow> h' p = h1 p"
    and "unat read + k + length (messages body wcs) < unat len \<longrightarrow> rx' = rx1"
    using Cons.IH [of h1 "read + of_nat k" "buf @ take k ?m" rx1] Cons.prems(2,3) unfolding rk by auto
  moreover have "take k ?m @ take (unat len - (unat read + k)) (messages body wcs) = take (unat len - unat read) (messages body (wc # wcs))"
    by (simp add: k_def min_def)
  ultimately show ?case unfolding step using same by (auto simp: k_def rx1_def min_def split: if_splits)
qed

text \<open>One batch of completions, and then a sequence of batches.\<close>

fun read_step :: "(u64 \<Rightarrow> bytes) \<Rightarrow> size_t \<Rightarrow> ibv_wc list \<Rightarrow> (size_t \<times> bytes) \<times> chunk_ptr list \<times> chunk_heap \<Rightarrow>
    fault + (size_t \<times> bytes) \<times> chunk_ptr list \<times> chunk_heap" where
  "read_step body len b (rd, rx, h) = read_responses b len (rd, rx, arrive body b h)"

interpretation readloop: completion_loop "\<lambda>f r st. read_again f (scripted body E) (cq\<lparr>cq_cq := Some q\<rparr>) len r st"
  "read_step body len" "\<lambda>w. snd (ibv_req_notify_cq (ib_verbs E) q w)"
  for body :: "u64 \<Rightarrow> bytes" and E :: "'w ib_env" and cq q len
proof unfold_locales
  fix b :: "ibv_wc list" and st st' f r w rest
  assume b: "b \<noteq> []" and "read_step body len b st = Inr st'"
  then show "read_again (Suc f) (scripted body E) (cq\<lparr>cq_cq := Some q\<rparr>) len r st (w, b # rest)
      = read_again f (scripted body E) (cq\<lparr>cq_cq := Some q\<rparr>) len r st' (w, rest)"
    by (cases st) (simp add: poll_cq_def prog_simps deliver_arrive)
next
  fix f st w rest
  show "read_again (Suc f) (scripted body E) (cq\<lparr>cq_cq := Some q\<rparr>) len False st (w, [] # rest)
      = read_again f (scripted body E) (cq\<lparr>cq_cq := Some q\<rparr>) len True st (snd (ibv_req_notify_cq (ib_verbs E) q w), rest)"
    by (cases st) (simp add: poll_cq_def rearm_notify_def prog_simps watch_simps)
next
  fix f st w
  show "read_again (Suc f) (scripted body E) (cq\<lparr>cq_cq := Some q\<rparr>) len True st (w, []) = (Inr st, (w, []))"
    by (cases st) (simp add: poll_cq_def prog_simps)
qed

lemma arrivals_ok_append:
  "arrivals_ok body h (xs @ ys) \<longleftrightarrow> arrivals_ok body h xs \<and> arrivals_ok body h ys \<and> wc_wr_id ` set xs \<inter> wc_wr_id ` set ys = {}"
  by (auto simp: arrivals_ok_def)

lemma arrivals_ok_cong:
  "(\<And>p. p \<in> wc_wr_id ` set ys \<Longrightarrow> h' p = h p) \<Longrightarrow> arrivals_ok body h' ys = arrivals_ok body h ys"
  unfolding arrivals_ok_def using arrival_ok_cong [of h' _ h body] by (intro conj_cong ball_cong refl) auto

lemma read_step_ok:
  assumes ok: "arrivals_ok body h b" and len: "unat len < 2 ^ 63" "unat read \<le> unat len"
  shows "\<exists>read' rx' h'. read_step body len b ((read, buf), rx, h)
      = Inr ((read', buf @ take (unat len - unat read) (messages body b)), rx', h')
    \<and> unat read' = min (unat len) (unat read + length (messages body b))
    \<and> (\<forall>p. p \<notin> wc_wr_id ` set b \<longrightarrow> h' p = h p)
    \<and> (unat read + length (messages body b) < unat len \<longrightarrow> rx' = rx)"
proof -
  have d: "distinct (map wc_wr_id b)" using ok by (simp add: arrivals_ok_def)
  have "\<forall>wc \<in> set b. filled body (arrive body b h) wc"
    using ok by (auto simp: arrivals_ok_def arrive_eq intro!: arrived_filled)
  from read_responses_ok [OF this d len] show ?thesis by (simp add: arrive_eq [OF d])
qed

lemma process_read_step:
  assumes "arrivals_ok body h (concat bs)" and "unat len < 2 ^ 63" and "unat read \<le> unat len"
  shows "\<exists>read' rx' h'. process (read_step body len) bs ((read, buf), rx, h)
      = Inr ((read', buf @ take (unat len - unat read) (messages body (concat bs))), rx', h')
    \<and> unat read' = min (unat len) (unat read + length (messages body (concat bs)))
    \<and> (unat read + length (messages body (concat bs)) < unat len \<longrightarrow> rx' = rx)"
  using assms(1,3)
proof (induction bs arbitrary: read buf rx h)
  case Nil
  then show ?case by (simp add: min_absorb2)
next
  case (Cons b bs)
  have ok: "arrivals_ok body h b" "arrivals_ok body h (concat bs)" "wc_wr_id ` set b \<inter> wc_wr_id ` set (concat bs) = {}"
    using Cons.prems(1) by (simp_all add: arrivals_ok_append)
  obtain read1 rx1 h1 where one: "read_step body len b ((read, buf), rx, h)
      = Inr ((read1, buf @ take (unat len - unat read) (messages body b)), rx1, h1)"
    and r1: "unat read1 = min (unat len) (unat read + length (messages body b))"
    and h1: "\<forall>p. p \<notin> wc_wr_id ` set b \<longrightarrow> h1 p = h p" and x1: "unat read + length (messages body b) < unat len \<longrightarrow> rx1 = rx"
    using read_step_ok [OF ok(1) assms(2) Cons.prems(2)] by blast
  have "h1 p = h p" if "p \<in> wc_wr_id ` set (concat bs)" for p using ok(3) h1 that by blast
  then have "arrivals_ok body h1 (concat bs)" using ok(2) arrivals_ok_cong [of "concat bs" h1 h body] by blast
  then obtain read' rx' h' where two: "process (read_step body len) bs
        ((read1, buf @ take (unat len - unat read) (messages body b)), rx1, h1)
      = Inr ((read', (buf @ take (unat len - unat read) (messages body b))
          @ take (unat len - unat read1) (messages body (concat bs))), rx', h')"
    and r2: "unat read' = min (unat len) (unat read1 + length (messages body (concat bs)))"
    and x2: "unat read1 + length (messages body (concat bs)) < unat len \<longrightarrow> rx' = rx1"
    using Cons.IH [of h1 read1 "buf @ take (unat len - unat read) (messages body b)" rx1] r1 by auto
  have "take (unat len - unat read) (messages body b) @ take (unat len - unat read1) (messages body (concat bs))
      = take (unat len - unat read) (messages body (concat (b # bs)))"
    using Cons.prems(2) by (simp add: r1 min_def)
  moreover have "unat read' = min (unat len) (unat read + length (messages body (concat (b # bs))))"
    by (simp add: r2 r1 min_def)
  moreover have "unat read + length (messages body (concat (b # bs))) < unat len \<longrightarrow> rx' = rx" using x1 x2 by (simp add: r1)
  ultimately show ?case using one two by (simp del: read_step.simps)
qed

text \<open>A poll that keeps failing keeps the loop going.\<close>

lemma read_again_spins:
  assumes "\<And>w. \<exists>e w'. ibv_poll_cq (ib_verbs E) q 16 w = (Poll_error e, w')" and "cq_cq cq = Some q"
  shows "fst (read_again fuel E cq len re st w) = Inl Out_of_fuel"
proof (induction fuel arbitrary: st w re)
  case 0
  then show ?case by (simp add: prog_simps)
next
  case (Suc fuel)
  obtain rd rx h where st: "st = (rd, rx, h)" by (cases st)
  obtain e w' where "ibv_poll_cq (ib_verbs E) q 16 w = (Poll_error e, w')" using assms(1) by blast
  then show ?case using assms(2) Suc.IH by (simp add: st poll_cq_def prog_simps)
qed

text \<open>
  A chunk that is left over keeps nothing but its cursor: what is behind it is handed out up to the
  end of the chunk, however long the message was, and then the whole chunk is handed out again.
\<close>

lemma read_buffers_repeats:
  assumes "h p = Some c" and "chunk_wf c" and "chunk_room c < unat len" and "unat len' = unat (ck_bytes c)"
  shows "\<exists>n h1 n' h2. read_buffers [p] len 0 [] h = Inr ((n, drop (unat (ck_offset c)) (ck_data c)), h1)
    \<and> read_buffers [p] len' 0 [] h1 = Inr ((n', ck_data c), h2)"
proof -
  have l: "length (ck_data c) = unat (ck_bytes c)" using assms(2) by (simp add: chunk_wf_def)
  have wf1: "chunk_wf (c\<lparr>ck_offset := 0\<rparr>)" using assms(2) by (simp add: chunk_wf_def)
  have first: "chunk_read len c = Inr ((of_nat (chunk_room c), drop (unat (ck_offset c)) (ck_data c)), c\<lparr>ck_offset := 0\<rparr>)"
    using assms(3) l by (simp add: chunk_read_spec [OF assms(2)] chunk_room_def min_absorb2)
  have "\<exists>n c'. chunk_read len' (c\<lparr>ck_offset := 0\<rparr>) = Inr ((n, ck_data c), c')"
    using assms(4) l by (simp add: chunk_read_spec [OF wf1] chunk_room_def)
  then show ?thesis using first assms(1) by (auto simp: Let_def)
qed

text \<open>A run of \<open>read\<close> that finds the given batches of completions.\<close>

lemma cs_read_run:
  assumes "wait_cq_event fuel (scripted body E) (cs_cc s) (w, bs1 @ [] # bs2) = (Inr cc, (w1, bs1 @ [] # bs2))"
    and "arrivals_ok body (mm_heap (ibx_mm ib)) (concat (bs1 @ [] # bs2))" and "[] \<notin> set bs1" and "[] \<notin> set bs2"
    and "rx_buffers s = []" and "cq_cq (cs_cq s) = Some q" and "unat len < 2 ^ 63" and "length bs1 + length bs2 + 1 < fuel"
  shows "\<exists>n rx' h' w'. cs_read fuel (scripted body E) ib s len (w, bs1 @ [] # bs2)
      = (Inr ((n, take (unat len) (messages body (concat (bs1 @ bs2)))), (set_channel cc s)\<lparr>rx_buffers := rx'\<rparr>,
          ib\<lparr>ibx_mm := (ibx_mm ib)\<lparr>mm_heap := h'\<rparr>\<rparr>), (w', []))
    \<and> unat n = min (unat len) (length (messages body (concat (bs1 @ bs2))))
    \<and> (length (messages body (concat (bs1 @ bs2))) < unat len \<longrightarrow> rx' = [])"
proof -
  let ?m = "messages body (concat (bs1 @ bs2))"
  have cq: "(cs_cq s)\<lparr>cq_cq := Some q\<rparr> = cs_cq s" using assms(6) by simp
  have ok: "arrivals_ok body (mm_heap (ibx_mm ib)) (concat (bs1 @ bs2))" using assms(2) by simp
  obtain n rx' h' where st: "process (read_step body len) (bs1 @ bs2) ((0, []), [], mm_heap (ibx_mm ib))
      = Inr ((n, take (unat len) ?m), rx', h')"
    and n: "unat n = min (unat len) (length ?m)" and rx: "length ?m < unat len \<longrightarrow> rx' = []"
    using process_read_step [OF ok assms(7), of 0 "[]" "[]"] by auto
  obtain w' where run: "read_again fuel (scripted body E) (cs_cq s) len False ((0, []), [], mm_heap (ibx_mm ib)) (w1, bs1 @ [] # bs2)
      = (Inr ((n, take (unat len) ?m), rx', h'), (w', []))"
    using readloop.empties [OF assms(3,4) st assms(8), where E = E and cq = "cs_cq s" and q = q and w = w1]
    unfolding cq by (rule that)
  have "cs_read fuel (scripted body E) ib s len (w, bs1 @ [] # bs2)
      = (Inr ((n, take (unat len) ?m), (set_channel cc s)\<lparr>rx_buffers := rx'\<rparr>, ib\<lparr>ibx_mm := (ibx_mm ib)\<lparr>mm_heap := h'\<rparr>\<rparr>), (w', []))"
    by (simp only: cs_read_def prog_simps assms(1,5) run read_buffers.simps fst_conv snd_conv sum.case prod.case)
  then show ?thesis using n rx by blast
qed

section \<open>Properties\<close>
text \<open>
  C5. A read returns what has arrived, in order. Let an event come and let the completions be polled in any
  batches, before and after the notification is rearmed, each for a chunk of its own that holds a
  message of its length. If nothing was left over, \<open>read\<close> returns (with fuel for two more polls
  than there are batches), and the caller's buffer holds the concatenation of the messages, up to the
  number of bytes that were asked for; the result is the number of bytes stored. If less has arrived
  than was asked for, nothing is left over.
\<close>
theorem read_delivers:
  assumes "wait_cq_event fuel (scripted body E) (cs_cc s) (w, bs1 @ [] # bs2) = (Inr cc, (w1, bs1 @ [] # bs2))"
    and "arrivals_ok body (mm_heap (ibx_mm ib)) (concat (bs1 @ [] # bs2))" and "[] \<notin> set bs1" and "[] \<notin> set bs2"
    and "rx_buffers s = []" and "cq_cq (cs_cq s) = Some q" and "unat len < 2 ^ 63" and "length bs1 + length bs2 + 1 < fuel"
  shows "\<exists>n buf s' ib' w'. cs_read fuel (scripted body E) ib s len (w, bs1 @ [] # bs2) = (Inr ((n, buf), s', ib'), (w', []))
    \<and> buf = take (unat len) (messages body (concat (bs1 @ bs2))) \<and> unat n = length buf
    \<and> (length (messages body (concat (bs1 @ bs2))) < unat len \<longrightarrow> rx_buffers s' = [])"
  using cs_read_run [OF assms] by (fastforce simp: min.commute [of "unat len"])

definition arrival_wc :: "u64 \<Rightarrow> u32 \<Rightarrow> ibv_wc" where
  "arrival_wc p n = \<lparr>wc_wr_id = p, wc_status = IBV_WC_SUCCESS, wc_byte_len = n\<rparr>"

definition sample_body :: "u64 \<Rightarrow> bytes" where
  "sample_body p = (if p = 100 then ''hello'' else ''abc'')"

lemma read_delivers_witness:
  "\<exists>n s' ib' w'. cs_read (Suc (Suc (Suc (Suc 0)))) (scripted sample_body sample_ib_env) sample_infiniband sample_socket 7
      (0, [[arrival_wc 100 5], [], [arrival_wc 101 3]]) = (Inr ((n, ''helloab''), s', ib'), (w', [])) \<and> unat n = 7"
proof -
  let ?s = "[[arrival_wc 100 5]] @ [] # [[arrival_wc 101 3]]"
  have wait: "wait_cq_event (Suc (Suc (Suc (Suc 0)))) (scripted sample_body sample_ib_env) (cs_cc sample_socket) (0, ?s)
      = (Inr (sample_channel\<lparr>need_ack := 1\<rparr>), (0, ?s))"
    by (simp add: get_cq_event_def sample_socket_def sample_channel_def MAX_ACK_EVENT_def Let_def prog_simps watch_simps sample_sel)
  have ok: "arrivals_ok sample_body (mm_heap (ibx_mm sample_infiniband)) (concat ?s)"
    by (simp add: arrivals_ok_def arrival_ok_def arrival_wc_def sample_body_def sample_infiniband_def sample_ib_chunk_def chunk_wf_def)
  have s: "rx_buffers sample_socket = []" "cq_cq (cs_cq sample_socket) = Some 6" by (simp_all add: sample_socket_def sample_cq_def)
  have m: "messages sample_body (concat ([[arrival_wc 100 5]] @ [[arrival_wc 101 3]])) = ''helloabc''"
    by (simp add: arrival_wc_def sample_body_def)
  have "take (unat (7 :: size_t)) ''helloabc'' = ''helloab''" by simp
  with read_delivers [OF wait ok _ _ s, of 7] show ?thesis unfolding m by fastforce
qed

end
