(* ===== verification/RdmaStack.thy ===== *)
theory RdmaStack
  imports SocketSend SocketRead
begin

text \<open>
  The network stack on top of the sockets: \<open>RDMAServerSocketImpl\<close>, \<open>RDMAWorker\<close> and \<open>RDMAStack\<close> of
  \<open>rdma/RDMAStack.h\<close>, \<open>rdma/RDMAStack.cc\<close> and \<open>rdma/RDMAServerSocketImpl.cc\<close>. The transmit queue of the
  worker that the stack picks for a new queue pair is an argument, as are the uninitialised locals.
\<close>

section \<open>Server sockets\<close>

record server_socket =
  server_setup_socket :: int
  ss_sa :: entity_addr

text \<open>The constructor leaves the descriptor uninitialised.\<close>

definition new_server_socket :: "int \<Rightarrow> entity_addr \<Rightarrow> server_socket" where
  "new_server_socket junk sa = \<lparr>server_setup_socket = junk, ss_sa = sa\<rparr>"

definition ss_listen :: "'w ib_env \<Rightarrow> entity_addr \<Rightarrow> server_socket \<Rightarrow> ('w, int \<times> server_socket) prog" where
  "ss_listen E sa s =
     bnd (call (ib_socket E)) (\<lambda>fd.
     let s = s\<lparr>server_setup_socket := fd\<rparr>;
         err = bnd (call (ib_close E fd)) (\<lambda>_. ret (- 1, s\<lparr>server_setup_socket := - 1\<rparr>)) in
     if fd = - 1 then ret (- 1, s)
     else
       bnd (call (ib_setsockopt E fd)) (\<lambda>rc.
       if rc < 0 then err
       else bnd (call (ib_bind E fd sa)) (\<lambda>rc. if rc < 0 then err else ret (0, s))))"

text \<open>
  \<open>accept\<close>: the result, the new socket and the address that is reported for it. The results of
  \<open>send_udp_msg\<close> and \<open>activate\<close> do not stop it. \<open>junk k\<close> are the uninitialised locals of the iteration that
  has \<open>k\<close> more to go.
\<close>

fun ss_accept :: "nat \<Rightarrow> 'w ib_env \<Rightarrow> endian \<Rightarrow> (nat \<Rightarrow> syn_junk \<times> ibsynmsg) \<Rightarrow> infiniband \<Rightarrow> completion_queue option \<Rightarrow>
    server_socket \<Rightarrow> ('w, int \<times> (connected_socket \<times> entity_addr) option) prog" where
  "ss_accept 0 E e junk ib tx s = fail Out_of_fuel"
| "ss_accept (Suc fuel) E e junk ib tx s =
     bnd (recv_udp_msg E e (fst (junk fuel)) (server_setup_socket s) (snd (junk fuel))) (\<lambda>(r, msg, addr).
     if r < 0 then ret (- 1, None)
     else if r > 0 then ss_accept fuel E e junk ib tx s
     else
       bnd (deref addr) (\<lambda>a.
       bnd (new_connected_socket E ib tx msg) (\<lambda>server.
       bnd (send_udp_msg E e (fst (junk fuel)) (server_setup_socket s) (my_msg server) a) (\<lambda>r.
       bnd (activate E ib server) (\<lambda>(_, server).
       ret (r, Some (server, ss_sa s)))))))"

section \<open>Workers\<close>

record worker =
  client_setup_socket :: int
  tx_cq :: "completion_queue option"
  tx_cc :: completion_channel

definition worker_listen :: "'w ib_env \<Rightarrow> int \<Rightarrow> entity_addr \<Rightarrow> ('w, int \<times> server_socket option) prog" where
  "worker_listen E junk sa =
     bnd (ss_listen E sa (new_server_socket junk sa)) (\<lambda>(r, p).
     if r < 0 then ret (r, None) else ret (0, Some p))"

text \<open>\<open>connect\<close> with one argument: failures are only reported.\<close>

definition worker_connect_setup :: "'w ib_env \<Rightarrow> worker \<Rightarrow> entity_addr \<Rightarrow> ('w, worker) prog" where
  "worker_connect_setup E wk addr =
     bnd (call (ib_socket E)) (\<lambda>fd.
     let wk = wk\<lparr>client_setup_socket := fd\<rparr> in
     if fd = - 1 then ret wk else bnd (call (ib_connect E fd addr)) (\<lambda>_. ret wk))"

text \<open>
  \<open>connect\<close>: the message received is stored into the local that held the message sent; a result greater
  than zero of \<open>recv_udp_msg\<close> (nothing valid arrived) is treated like zero.
\<close>

definition worker_connect :: "'w ib_env \<Rightarrow> endian \<Rightarrow> syn_junk \<Rightarrow> syn_junk \<Rightarrow> infiniband \<Rightarrow> completion_queue option \<Rightarrow>
    worker \<Rightarrow> entity_addr \<Rightarrow> ('w, int \<times> connected_socket option \<times> worker) prog" where
  "worker_connect E e j1 j2 ib tx wk addr =
     bnd (new_connected_socket E ib tx syn_zero) (\<lambda>p.
     bnd (worker_connect_setup E wk addr) (\<lambda>wk.
     bnd (send_udp_msg E e j1 (client_setup_socket wk) (my_msg p) addr) (\<lambda>r.
     if r < 0 then ret (r, None, wk)
     else
       bnd (recv_udp_msg E e j2 (client_setup_socket wk) (my_msg p)) (\<lambda>(r, msg, _).
       if r < 0 then ret (r, None, wk)
       else
         bnd (activate E ib (set_peer_msg msg p)) (\<lambda>(r, p).
         bnd (c_assert (r = 0)) (\<lambda>_.
         bnd (cs_fd p) (\<lambda>_.
         ret (0, Some p, wk))))))))"

text \<open>\<open>initialize\<close>; a missing channel is used, and a missing queue is kept as a null pointer.\<close>

definition worker_initialize :: "'w ib_env \<Rightarrow> infiniband \<Rightarrow> worker \<Rightarrow> ('w, worker) prog" where
  "worker_initialize E ib wk =
     bnd (create_comp_channel E (ibx_device ib)) (\<lambda>c.
     bnd (create_comp_queue E (ibx_device ib) (ibx_max_cqe ib) c) (\<lambda>q.
     bnd (deref (case q of None \<Rightarrow> c | Some q \<Rightarrow> cq_channel q)) (\<lambda>cc.
     bnd (deref (cc_channel cc)) (\<lambda>ch.
     bnd (call (ib_file_event E (channel_fd ch))) (\<lambda>_.
     ret (wk\<lparr>tx_cc := cc, tx_cq := q\<rparr>))))))"

text \<open>\<open>handle_tx_event\<close>: the completed chunks go back to the memory manager.\<close>

fun return_responses :: "ibv_wc list \<Rightarrow> memory_manager \<Rightarrow> fault + memory_manager" where
  "return_responses [] mm = Inr mm"
| "return_responses (wc # wcs) mm =
     (if wc_status wc \<noteq> IBV_WC_SUCCESS then Inl Assert_failed
      else sbnd (return_channel (wc_wr_id wc) mm) (return_responses wcs))"

fun tx_again :: "nat \<Rightarrow> 'w ib_env \<Rightarrow> completion_queue \<Rightarrow> bool \<Rightarrow> memory_manager \<Rightarrow> ('w, memory_manager) prog" where
  "tx_again 0 E cq rearmed mm = fail Out_of_fuel"
| "tx_again (Suc fuel) E cq rearmed mm =
     bnd (poll_cq E cq 16) (\<lambda>(n, wcs).
     bnd (pure_prog (return_responses wcs mm)) (\<lambda>mm.
     if n \<noteq> 0 then tx_again fuel E cq rearmed mm
     else if \<not> rearmed then bnd (rearm_notify E cq) (\<lambda>_. tx_again fuel E cq True mm)
     else ret mm))"

definition handle_tx_event :: "nat \<Rightarrow> 'w ib_env \<Rightarrow> infiniband \<Rightarrow> worker \<Rightarrow> ('w, infiniband \<times> worker) prog" where
  "handle_tx_event fuel E ib wk =
     bnd (get_cq_event E (tx_cc wk)) (\<lambda>(got, cc).
     let wk = wk\<lparr>tx_cc := cc\<rparr> in
     if \<not> got then ret (ib, wk)
     else
       bnd (deref (tx_cq wk)) (\<lambda>cq.
       bnd (tx_again fuel E cq False (ibx_mm ib)) (\<lambda>mm.
       ret (ib\<lparr>ibx_mm := mm\<rparr>, wk))))"

section \<open>The stack\<close>

record rdma_stack =
  coreids :: "int list"
  threads :: "handle list"
  rs_infiniband :: infiniband

text \<open>The configured cores; \<open>strtol\<close> gives a number and an error message, empty for success.\<close>

fun parse_coreids :: "(string \<Rightarrow> int \<times> string) \<Rightarrow> string list \<Rightarrow> int list" where
  "parse_coreids strtol [] = []"
| "parse_coreids strtol (c # cs) =
     (if snd (strtol c) = [] then fst (strtol c) # parse_coreids strtol cs else parse_coreids strtol cs)"

text \<open>
  The constructor up to the list of cores. Its last loop hands the \<open>Infiniband\<close> pointer to the
  workers with \<open>set_ib\<close>; here the operations of a worker take the shared object as an argument.
\<close>

definition new_rdma_stack :: "'w ib_env \<Rightarrow> (string \<Rightarrow> int \<times> string) \<Rightarrow> string list \<Rightarrow> ('w, rdma_stack) prog" where
  "new_rdma_stack E strtol corestrs =
     bnd (create_infiniband E ''mlx4_0'') (\<lambda>ib.
     ret \<lparr>coreids = parse_coreids strtol corestrs, threads = [], rs_infiniband = ib\<rparr>)"

text \<open>The index is computed in the unsigned type of \<open>size()\<close>.\<close>

definition get_cpuid :: "rdma_stack \<Rightarrow> int \<Rightarrow> int" where
  "get_cpuid st i =
     (if coreids st = [] then - 1
      else coreids st ! unat ((of_int i :: size_t) mod of_nat (length (coreids st))))"

text \<open>Starting the threads of the workers, and waiting for them.\<close>

fun spawn_workers :: "'w ib_env \<Rightarrow> handle list \<Rightarrow> rdma_stack \<Rightarrow> ('w, rdma_stack) prog" where
  "spawn_workers E [] st = ret st"
| "spawn_workers E (func # funcs) st =
     bnd (call (ib_thread E func)) (\<lambda>t. spawn_workers E funcs (st\<lparr>threads := threads st @ [t]\<rparr>))"

fun join_all :: "'w ib_env \<Rightarrow> handle list \<Rightarrow> ('w, unit) prog" where
  "join_all E [] = ret ()"
| "join_all E (t # ts) = bnd (call (ib_join E t)) (\<lambda>_. join_all E ts)"

definition join_workers :: "'w ib_env \<Rightarrow> rdma_stack \<Rightarrow> ('w, rdma_stack) prog" where
  "join_workers E st = bnd (join_all E (threads st)) (\<lambda>_. ret (st\<lparr>threads := []\<rparr>))"

section \<open>Threads of the workers\<close>

datatype thread_event = Started handle | Joined handle

definition thread_watched :: "'w ib_env \<Rightarrow> ('w \<times> thread_event list) ib_env" where
  "thread_watched E = (lift_ib (lift_verbs (ib_verbs E)) E)\<lparr>
     ib_thread := (\<lambda>func (w, g). case ib_thread E func w of (t, w') \<Rightarrow> (t, (w', g @ [Started t]))),
     ib_join := (\<lambda>t. logging_call [Joined t] (ib_join E t))\<rparr>"

lemma spawn_workers_starts:
  "\<exists>ts w'. spawn_workers (thread_watched E) funcs st (w, g)
      = (Inr (st\<lparr>threads := threads st @ ts\<rparr>), (w', g @ map Started ts)) \<and> length ts = length funcs"
proof (induction funcs arbitrary: st w g)
  case Nil
  then show ?case by (simp add: prog_simps)
next
  case (Cons func funcs)
  obtain t w1 where t: "ib_thread E func w = (t, w1)" by fastforce
  obtain ts w' where "spawn_workers (thread_watched E) funcs (st\<lparr>threads := threads st @ [t]\<rparr>) (w1, g @ [Started t])
      = (Inr (st\<lparr>threads := threads st @ t # ts\<rparr>), (w', g @ map Started (t # ts)))" "length ts = length funcs"
    using Cons.IH [of "st\<lparr>threads := threads st @ [t]\<rparr>" w1 "g @ [Started t]"] by auto
  then have "spawn_workers (thread_watched E) (func # funcs) st (w, g)
      = (Inr (st\<lparr>threads := threads st @ t # ts\<rparr>), (w', g @ map Started (t # ts)))"
    using t by (simp add: thread_watched_def prog_simps)
  then show ?case using \<open>length ts = length funcs\<close> by (intro exI [of _ "t # ts"]) auto
qed

lemma join_all_joins: "\<exists>w'. join_all (thread_watched E) ts (w, g) = (Inr (), (w', g @ map Joined ts))"
proof (induction ts arbitrary: w g)
  case (Cons t ts)
  show ?case using Cons.IH [of "snd (ib_join E t w)" "g @ [Joined t]"] by (simp add: thread_watched_def prog_simps watch_simps)
qed (simp add: prog_simps)

text \<open>One thread is started for each function, and each thread is joined exactly once, in the order they were started.\<close>

lemma spawn_join:
  assumes "threads st = []"
  shows "\<exists>ts w'. bnd (spawn_workers (thread_watched E) funcs st) (join_workers (thread_watched E)) (w, g)
    = (Inr st, (w', g @ map Started ts @ map Joined ts)) \<and> length ts = length funcs"
proof -
  obtain ts w1 where s: "spawn_workers (thread_watched E) funcs st (w, g) = (Inr (st\<lparr>threads := ts\<rparr>), (w1, g @ map Started ts))"
    "length ts = length funcs" using spawn_workers_starts [of E funcs st w g] assms by auto
  obtain w2 where "join_all (thread_watched E) ts (w1, g @ map Started ts) = (Inr (), (w2, (g @ map Started ts) @ map Joined ts))"
    using join_all_joins [of E ts w1 "g @ map Started ts"] by (elim exE) (rule that)
  moreover have "st\<lparr>threads := []\<rparr> = st" using assms by simp
  ultimately show ?thesis using s by (auto simp: join_workers_def prog_simps)
qed

section \<open>Returned transmit buffers\<close>

interpretation txloop: completion_loop "\<lambda>f r mm. tx_again f (scripted body E) (cq\<lparr>cq_cq := Some q\<rparr>) r mm"
  return_responses "\<lambda>w. snd (ibv_req_notify_cq (ib_verbs E) q w)"
  for body :: "u64 \<Rightarrow> bytes" and E :: "'w ib_env" and cq q
  by unfold_locales (simp_all add: poll_cq_def rearm_notify_def prog_simps watch_simps)

abbreviation send_grown :: "memory_manager \<Rightarrow> cluster \<Rightarrow> chunk_ptr list \<Rightarrow> memory_manager" where
  "send_grown mm sd ps \<equiv> mm\<lparr>mm_send := Some (sd\<lparr>free_chunks := free_chunks sd @ ps\<rparr>)\<rparr>"

lemma return_responses_ok:
  assumes "mm_send mm = Some sd" and "\<forall>wc \<in> set wcs. wc_status wc = IBV_WC_SUCCESS"
  shows "return_responses wcs mm = Inr (send_grown mm sd (map wc_wr_id wcs))"
  using assms by (induction wcs arbitrary: mm sd) (simp_all add: return_channel_def take_back_def)

lemma process_return_responses:
  assumes "mm_send mm = Some sd" and "\<forall>wc \<in> set (concat bs). wc_status wc = IBV_WC_SUCCESS"
  shows "process return_responses bs mm = Inr (send_grown mm sd (map wc_wr_id (concat bs)))"
  using assms
proof (induction bs arbitrary: mm sd)
  case Nil
  then show ?case by simp
next
  case (Cons b bs)
  have "return_responses b mm = Inr (send_grown mm sd (map wc_wr_id b))"
    using Cons.prems by (intro return_responses_ok) auto
  then show ?case using Cons by simp
qed

lemma tx_again_spins:
  assumes "\<And>w. \<exists>e w'. ibv_poll_cq (ib_verbs E) q 16 w = (Poll_error e, w')" and "cq_cq cq = Some q"
  shows "fst (tx_again fuel E cq re mm w) = Inl Out_of_fuel"
proof (induction fuel arbitrary: mm w re)
  case 0
  then show ?case by (simp add: prog_simps)
next
  case (Suc fuel)
  obtain e w' where "ibv_poll_cq (ib_verbs E) q 16 w = (Poll_error e, w')" using assms(1) by blast
  then show ?case using assms(2) Suc.IH by (simp add: poll_cq_def prog_simps)
qed

section \<open>Connecting and accepting\<close>

text \<open>The exchange of messages does not touch queue pairs.\<close>

lemma ghost_free_inject_failure: "ghost_free (inject_failure (lift_ib V E) r)"
  by (simp add: inject_failure_def)

lemma ghost_free_send_try: "ghost_free (send_try k (lift_ib V E) e j sd im peer)"
proof (induction k)
  case 0
  then show ?case by (subst send_try.simps) (auto intro!: ghost_free_bnd ghost_free_inject_failure)
next
  case (Suc k)
  then show ?case by (subst send_try.simps) (auto intro!: ghost_free_bnd ghost_free_inject_failure)
qed

lemma ghost_free_send_udp_msg: "ghost_free (send_udp_msg (lift_ib V E) e j sd im peer)"
  by (auto simp: send_udp_msg_def intro!: ghost_free_bnd ghost_free_send_try)

lemma ghost_free_recv_udp_msg: "ghost_free (recv_udp_msg (lift_ib V E) e j sd im)"
  unfolding recv_udp_msg_def by (auto intro!: ghost_free_bnd ghost_free_inject_failure split: prod.split)

lemma ghost_free_worker_connect_setup: "ghost_free (worker_connect_setup (lift_ib V E) wk addr)"
  unfolding worker_connect_setup_def Let_def by (auto intro!: ghost_free_bnd)

text \<open>What activating a new socket leaves behind.\<close>

definition socket_state_ok :: "qp_watch \<Rightarrow> connected_socket \<Rightarrow> bool" where
  "socket_state_ok g s \<longleftrightarrow> all_legal g \<and> (\<exists>h. qpo_qp (cs_qp s) = Some h \<and>
     (cs_connected s = Some 1 \<and> qp_states g (qp_handle h) = IBV_QPS_RTS
      \<or> cs_connected s = None \<and> qp_states g (qp_handle h) \<in> {IBV_QPS_INIT, IBV_QPS_RTR}))"

lemma activate_new_socket:
  assumes "new_connected_socket (lift_ib (qp_watched V) E) ib tx im (w, g) = (Inr s, (w1, g1))" and "all_legal g"
    and "activate (lift_ib (qp_watched V) E) ib (set_peer_msg peer s) (w2, g1) = (Inr (r, s'), (w', g'))"
  shows "socket_state_ok g' s' \<and> (r = 0 \<longleftrightarrow> cs_connected s' = Some 1)"
proof -
  obtain h where h: "qpo_qp (cs_qp s) = Some h" "qp_states g1 (qp_handle h) = IBV_QPS_INIT" "all_legal g1" "cs_connected s = None"
    using new_connected_socket_init [OF assms(1,2)] by blast
  have same: "cs_qp (set_peer_msg peer s) = cs_qp s" "cs_connected (set_peer_msg peer s) = None"
    using h by (simp_all add: set_peer_msg_def)
  have "all_legal g'" "r = 0 \<and> qp_states g' (qp_handle h) = IBV_QPS_RTS
      \<or> r = - 1 \<and> qp_states g' (qp_handle h) \<in> {IBV_QPS_INIT, IBV_QPS_RTR}"
    using stackup.bringup [of "(ib, set_peer_msg peer s)" g1 V E w2] h same assms(3) by auto
  then show ?thesis
    using h same activate_connected [OF assms(3)] by (auto simp: socket_state_ok_def)
qed

lemma set_peer_msg_same: "peer_msg s = im \<Longrightarrow> set_peer_msg im s = s"
  by (auto simp: set_peer_msg_def)

text \<open>
  \<open>accept\<close> hands out a socket whether or not it was activated, and reports the address the server
  listens on as the peer's.
\<close>

lemma accept_outcome:
  assumes "ss_accept fuel (lift_ib (qp_watched V) E) e junk ib tx ss (w, g) = (Inr (r, Some (s, out)), (w', g'))" and "all_legal g"
  shows "out = ss_sa ss \<and> socket_state_ok g' s"
  using assms
proof (induction fuel arbitrary: w g)
  case 0
  then show ?case by (simp add: fail_Inr_iff)
next
  case (Suc fuel)
  let ?E = "lift_ib (qp_watched V) E"
  obtain r1 msg a w1 g1 where recv: "recv_udp_msg ?E e (fst (junk fuel)) (server_setup_socket ss) (snd (junk fuel)) (w, g)
      = (Inr (r1, msg, a), (w1, g1))"
    and rest: "r1 > 0 \<and> ss_accept fuel ?E e junk ib tx ss (w1, g1) = (Inr (r, Some (s, out)), (w', g'))
      \<or> r1 = 0 \<and> (\<exists>p w2 g2 p1 r2 w3 g3 r3. new_connected_socket ?E ib tx msg (w1, g1) = (Inr p, (w2, g2))
          \<and> send_udp_msg ?E e (fst (junk fuel)) (server_setup_socket ss) (my_msg p) p1 (w2, g2) = (Inr r2, (w3, g3))
          \<and> activate ?E ib p (w3, g3) = (Inr (r3, s), (w', g')) \<and> out = ss_sa ss)"
    using Suc.prems(1) by (fastforce simp: run_iffs split: if_splits)
  have g1: "g1 = g" using ghost_freeD [OF ghost_free_recv_udp_msg recv] .
  from rest show ?case
  proof
    assume "r1 > 0 \<and> ss_accept fuel ?E e junk ib tx ss (w1, g1) = (Inr (r, Some (s, out)), (w', g'))"
    then show ?thesis using Suc.IH [of w1 g1] Suc.prems(2) g1 by simp
  next
    assume "r1 = 0 \<and> (\<exists>p w2 g2 p1 r2 w3 g3 r3. new_connected_socket ?E ib tx msg (w1, g1) = (Inr p, (w2, g2))
          \<and> send_udp_msg ?E e (fst (junk fuel)) (server_setup_socket ss) (my_msg p) p1 (w2, g2) = (Inr r2, (w3, g3))
          \<and> activate ?E ib p (w3, g3) = (Inr (r3, s), (w', g')) \<and> out = ss_sa ss)"
    then obtain p w2 g2 p1 r2 w3 g3 r3 where new: "new_connected_socket ?E ib tx msg (w1, g) = (Inr p, (w2, g2))"
      and send: "send_udp_msg ?E e (fst (junk fuel)) (server_setup_socket ss) (my_msg p) p1 (w2, g2) = (Inr r2, (w3, g3))"
      and act: "activate ?E ib p (w3, g3) = (Inr (r3, s), (w', g'))" and out: "out = ss_sa ss"
      unfolding g1 by blast
    have "g3 = g2" using ghost_freeD [OF ghost_free_send_udp_msg send] .
    moreover have "set_peer_msg msg p = p"
      using new_connected_socket_init [OF new Suc.prems(2)] by (intro set_peer_msg_same) blast
    ultimately show ?thesis
      using activate_new_socket [OF new Suc.prems(2), of msg w3 r3 s w' g'] act out by simp
  qed
qed

section \<open>Cores\<close>

text \<open>Workers are spread over the configured cores in turn; no index is out of range, whatever the number.\<close>

lemma get_cpuid_cases:
  assumes "length (coreids st) < 2 ^ 64"
  shows "get_cpuid st i \<in> insert (- 1) (set (coreids st))"
    and "coreids st \<noteq> [] \<Longrightarrow> 0 \<le> i \<Longrightarrow> i < 2 ^ 31 \<Longrightarrow> get_cpuid st i = coreids st ! (nat i mod length (coreids st))"
proof -
  have l: "unat (of_nat (length (coreids st)) :: size_t) = length (coreids st)" using assms by (simp add: unat_of_nat)
  then show "get_cpuid st i \<in> insert (- 1) (set (coreids st))"
    by (auto simp: get_cpuid_def unat_mod)
  assume "coreids st \<noteq> []" and "0 \<le> i" and "i < 2 ^ 31"
  moreover from this have "unat (of_int i :: size_t) = nat i" by (simp add: unsigned_of_int take_bit_int_eq_self)
  ultimately show "get_cpuid st i = coreids st ! (nat i mod length (coreids st))"
    using l by (simp add: get_cpuid_def unat_mod)
qed

text \<open>
  Completed sends give their chunks back. When a transmit event comes and the completions are polled
  in any batches, before and after rearming, \<open>handle_tx_event\<close> returns (with fuel for two more polls than
  there are batches) and every chunk has been appended, in order, to the cluster \<open>send\<close>; nothing else
  of the memory manager changes, in particular not the cluster that \<open>get_tx_buffers\<close> takes from.
\<close>
lemma tx_event_returns_chunks:
  assumes "get_cq_event (scripted body E) (tx_cc wk) (w, bs1 @ [] # bs2) = (Inr (True, cc), (w1, bs1 @ [] # bs2))"
    and "tx_cq wk = Some cq" and "cq_cq cq = Some q" and "mm_send (ibx_mm ib) = Some sd"
    and "\<forall>wc \<in> set (concat (bs1 @ bs2)). wc_status wc = IBV_WC_SUCCESS"
    and "[] \<notin> set bs1" and "[] \<notin> set bs2" and "length bs1 + length bs2 + 1 < fuel"
  shows "\<exists>w'. handle_tx_event fuel (scripted body E) ib wk (w, bs1 @ [] # bs2)
    = (Inr (ib\<lparr>ibx_mm := send_grown (ibx_mm ib) sd (map wc_wr_id (concat (bs1 @ bs2)))\<rparr>, wk\<lparr>tx_cc := cc\<rparr>), (w', []))"
proof -
  have cq: "cq\<lparr>cq_cq := Some q\<rparr> = cq" using assms(3) by simp
  obtain w' where "tx_again fuel (scripted body E) cq False (ibx_mm ib) (w1, bs1 @ [] # bs2)
      = (Inr (send_grown (ibx_mm ib) sd (map wc_wr_id (concat (bs1 @ bs2)))), (w', []))"
    using txloop.empties [OF assms(6,7) process_return_responses [OF assms(4,5)] assms(8), where E = E and cq = cq and q = q and w = w1]
    unfolding cq by (rule that)
  then have "handle_tx_event fuel (scripted body E) ib wk (w, bs1 @ [] # bs2)
      = (Inr (ib\<lparr>ibx_mm := send_grown (ibx_mm ib) sd (map wc_wr_id (concat (bs1 @ bs2)))\<rparr>, wk\<lparr>tx_cc := cc\<rparr>), (w', []))"
    using assms(1,2) by (simp add: handle_tx_event_def Let_def prog_simps)
  then show ?thesis by blast
qed

section \<open>Properties\<close>

text \<open>
  C7. A connection that \<open>connect\<close> reports as made is ready to send. In every environment, if
  \<open>RDMAWorker::connect\<close> hands out a socket, its queue pair went through legal transitions only and is in
  RTS, and the socket says it is connected.
\<close>
theorem connect_ready:
  assumes "worker_connect (lift_ib (qp_watched V) E) e j1 j2 ib tx wk addr (w, g) = (Inr (r, Some p, wk'), (w', g'))"
    and "all_legal g"
  shows "r = 0 \<and> all_legal g' \<and> cs_connected p = Some 1
    \<and> (\<exists>h. qpo_qp (cs_qp p) = Some h \<and> qp_states g' (qp_handle h) = IBV_QPS_RTS)"
proof -
  let ?E = "lift_ib (qp_watched V) E"
  obtain s w1 g1 wk1 w2 g2 r1 w3 g3 r2 msg a w4 g4 where
    new: "new_connected_socket ?E ib tx syn_zero (w, g) = (Inr s, (w1, g1))"
    and conn: "worker_connect_setup ?E wk addr (w1, g1) = (Inr wk1, (w2, g2))"
    and send: "send_udp_msg ?E e j1 (client_setup_socket wk1) (my_msg s) addr (w2, g2) = (Inr r1, (w3, g3))"
    and recv: "recv_udp_msg ?E e j2 (client_setup_socket wk1) (my_msg s) (w3, g3) = (Inr (r2, msg, a), (w4, g4))"
    and act: "activate ?E ib (set_peer_msg msg s) (w4, g4) = (Inr (0, p), (w', g'))" and r: "r = 0"
    using assms(1) unfolding worker_connect_def cs_fd_def by (fastforce simp: run_iffs split: if_splits)
  have "g4 = g1"
    using ghost_freeD [OF ghost_free_worker_connect_setup conn] ghost_freeD [OF ghost_free_send_udp_msg send]
      ghost_freeD [OF ghost_free_recv_udp_msg recv] by simp
  with activate_new_socket [OF new assms(2), of msg w4 0 p w' g'] act r show ?thesis
    by (auto simp: socket_state_ok_def)
qed

definition answering_env :: "nat ib_env" where
  "answering_env = sample_ib_env\<lparr>ib_recvfrom := (\<lambda>sd n w. ((56, syn_wire sample_syn, 8), w))\<rparr>"

lemma answering_env_sel:
  "ib_getfl answering_env = ib_getfl sample_ib_env" "ib_setfl_nonblock answering_env = ib_setfl_nonblock sample_ib_env"
  "ib_lrand48 answering_env = ib_lrand48 sample_ib_env" "ib_socket answering_env = ib_socket sample_ib_env"
  "ib_connect answering_env = ib_connect sample_ib_env" "ib_sendto answering_env = ib_sendto sample_ib_env"
  "ib_inject answering_env = False" "ib_recvfrom answering_env = (\<lambda>sd n w. ((56, syn_wire sample_syn, 8), w))"
  by (simp_all add: answering_env_def sample_sel)

definition sample_worker :: worker where
  "sample_worker = \<lparr>client_setup_socket = - 1, tx_cq = Some sample_cq, tx_cc = sample_channel\<rparr>"

lemma connect_ready_witness:
  "\<exists>p wk' w' g'. worker_connect (lift_ib (qp_watched sample_verbs) answering_env) Little sample_syn_junk sample_syn_junk
      sample_infiniband (Some sample_cq) sample_worker 8 (50, fresh_watch) = (Inr (0, Some p, wk'), (w', g'))
    \<and> cs_connected p = Some 1 \<and> all_legal g'"
proof -
  let ?E = "lift_ib (qp_watched sample_verbs) answering_env"
  have recv: "gid_ok (im_gid im) \<Longrightarrow> recv_udp_msg ?E Little sample_syn_junk 3 im s
      = (Inr (0, sample_syn, Some 8), s)" for im s
    using recv_udp_msg_wire [OF sample_syn_ok(1) _ sample_syn_ok(3), of im 3 ?E s 8 s Little]
    by (cases s) (simp add: answering_env_sel watch_simps)
  have send: "gid_ok (im_gid im) \<Longrightarrow> send_udp_msg ?E Little sample_syn_junk 3 im 8 s = (Inr 0, s)" for im s
    using send_udp_msg_whole [OF _ sample_syn_ok(3), of im 3 ?E 8 s Little]
    by (cases s) (simp add: answering_env_sel sample_sel watch_simps length_syn_wire syn_size_56)
  have gid: "gid_ok gid_zero" by (simp add: gid_ok_def gid_zero_def)
  have "\<exists>p wk' w' g'. worker_connect ?E Little sample_syn_junk sample_syn_junk sample_infiniband (Some sample_cq) sample_worker 8
      (50, fresh_watch) = (Inr (0, Some p, wk'), (w', g'))"
    by (simp add: worker_connect_def worker_connect_setup_def new_connected_socket_def create_queue_pair_def
        create_comp_channel_def cc_init_def set_nonblocking_def create_comp_queue_def cq_init_def new_queue_pair_def qp_init_def
        get_lid_def get_gid_def cs_fd_def activate_def set_peer_msg_def sample_infiniband_def sample_port_def sample_cq_def
        Let_def prog_simps watch_simps answering_env_sel sample_sel recv send gid)
  then obtain p wk' w' g' where run: "worker_connect ?E Little sample_syn_junk sample_syn_junk sample_infiniband (Some sample_cq)
      sample_worker 8 (50, fresh_watch) = (Inr (0, Some p, wk'), (w', g'))" by blast
  have "all_legal fresh_watch" by (simp add: fresh_watch_def)
  from connect_ready [OF run this] run show ?thesis by blast
qed

lemma tx_event_returns_chunks_witness:
  "\<exists>w'. handle_tx_event (Suc (Suc (Suc (Suc 0)))) (scripted sample_body sample_ib_env) sample_infiniband sample_worker
      (0, [[arrival_wc 100 0], [], [arrival_wc 101 0]])
    = (Inr (sample_infiniband\<lparr>ibx_mm := (ibx_mm sample_infiniband)\<lparr>mm_send := Some \<lparr>chunk_size = 8, free_chunks = [100, 101]\<rparr>\<rparr>\<rparr>,
            sample_worker\<lparr>tx_cc := sample_channel\<lparr>need_ack := 1\<rparr>\<rparr>), (w', []))"
proof -
  let ?s = "[[arrival_wc 100 0]] @ [] # [[arrival_wc 101 0]]"
  have ev: "get_cq_event (scripted sample_body sample_ib_env) (tx_cc sample_worker) (0, ?s)
      = (Inr (True, sample_channel\<lparr>need_ack := 1\<rparr>), (0, ?s))"
    by (simp add: get_cq_event_def sample_worker_def sample_channel_def MAX_ACK_EVENT_def Let_def prog_simps watch_simps sample_sel)
  have wk: "tx_cq sample_worker = Some sample_cq" "cq_cq sample_cq = Some 6"
    "mm_send (ibx_mm sample_infiniband) = Some \<lparr>chunk_size = 8, free_chunks = []\<rparr>"
    by (simp_all add: sample_worker_def sample_cq_def sample_infiniband_def)
  from tx_event_returns_chunks [OF ev wk, of "Suc (Suc (Suc (Suc 0)))"] show ?thesis by (simp add: arrival_wc_def)
qed

end
