(* ===== verification/StackTransfer.thy ===== *)
theory StackTransfer
  imports RdmaStack
begin

text \<open>
  The two ends of a connection of the network stack put together: what one end hands to \<open>send\<close> is what the other end
  gets from \<open>read\<close>, and the chunks of a message that has been sent come back to the memory manager. Between
  the ends is the adapter, of which only what a reliable connection promises is used.
\<close>

section \<open>The network\<close>

text \<open>
  A reliable connection delivers each posted message once, whole and in order: the \<open>i\<close>-th completion of a receive is
  for a chunk that holds what the \<open>i\<close>-th request sent from the memory of its chunk.
\<close>

definition carried :: "chunk_heap \<Rightarrow> ibv_send_wr list \<Rightarrow> (u64 \<Rightarrow> bytes) \<Rightarrow> ibv_wc list \<Rightarrow> bool" where
  "carried h wrs body wcs \<longleftrightarrow> map (\<lambda>wc. body (wc_wr_id wc)) wcs = map (wr_payload h) wrs"

text \<open>Each posted request is completed once, in any order.\<close>

definition completed :: "ibv_send_wr list \<Rightarrow> ibv_wc list \<Rightarrow> bool" where
  "completed wrs wcs \<longleftrightarrow> mset (map wc_wr_id wcs) = mset (map swr_id wrs) \<and> (\<forall>wc \<in> set wcs. wc_status wc = IBV_WC_SUCCESS)"

text \<open>What a sender needs: a connected socket and enough empty chunks for \<open>bl\<close>.\<close>

definition can_send :: "infiniband \<Rightarrow> cluster \<Rightarrow> connected_socket \<Rightarrow> bytes list \<Rightarrow> bool" where
  "can_send ib cl s bl \<longleftrightarrow> (let len = sum_list (map length bl) in
     pool_fresh (ibx_mm ib) cl \<and> qpo_qp (cs_qp s) \<noteq> None \<and> 0 < len \<and> len < 2 ^ 63
     \<and> len div unat (chunk_size cl) + 1 < 2 ^ 32 \<and> len \<le> length (free_chunks cl) * unat (chunk_size cl))"

lemma can_send_run:
  assumes "can_send ib cl s bl" and "cs_send (lift_ib (send_logged V) E) ib s bl (w, []) = (Inr (r, bl', ib'), (w', wrs))"
  obtains cl' h' where "ib' = ib\<lparr>ibx_mm := (ibx_mm ib)\<lparr>mm_channel := Some cl', mm_heap := h'\<rparr>\<rparr>"
    and "free_chunks cl = free_chunks cl' @ rev (map swr_id wrs)" and "concat (map (wr_payload h') wrs) = concat bl"
proof -
  define len where "len = sum_list (map length bl)"
  obtain qp where pool: "pool_fresh (ibx_mm ib) cl" and qp: "qpo_qp (cs_qp s) = Some qp"
    and l: "0 < len" "len < 2 ^ 63" "len div unat (chunk_size cl) + 1 < 2 ^ 32" "len \<le> length (free_chunks cl) * unat (chunk_size cl)"
    using assms(1) by (auto simp: can_send_def Let_def len_def)
  obtain r1 b1 w1 ps cl' h' where run: "cs_send (lift_ib (send_logged V) E) ib s bl (w, []) =
       (Inr (r1, b1, ib\<lparr>ibx_mm := (ibx_mm ib)\<lparr>mm_channel := Some cl', mm_heap := h'\<rparr>\<rparr>), (w1, map (\<lambda>p. chunk_wr p (chunk_of h' p)) ps))"
    and "free_chunks cl = free_chunks cl' @ rev ps" "keeps (mm_heap (ibx_mm ib)) h' ps" "gathered h' ps = concat bl"
    by (rule cs_send_run [OF pool qp len_def l])
  moreover have "map swr_id (map (\<lambda>p. chunk_wr p (chunk_of h' p)) ps) = ps" by (simp add: chunk_wr_def o_def)
  ultimately show ?thesis using that [of h' cl'] posted_payload(2) assms(2) by auto
qed

section \<open>An example\<close>

text \<open>The message ''hello world'', in two buffers and an empty one, sent from a pool of two chunks of eight bytes.\<close>

definition hello_wo :: chunk where
  "hello_wo = (sample_ib_chunk 4104)\<lparr>ck_data := ''hello wo'', ck_offset := 8\<rparr>"

definition rld :: chunk where
  "rld = (sample_ib_chunk 4096)\<lparr>ck_data := ''rld-----'', ck_offset := 3\<rparr>"

definition sent_infiniband :: infiniband where
  "sent_infiniband = sample_infiniband\<lparr>ibx_mm := (ibx_mm sample_infiniband)\<lparr>mm_channel := Some \<lparr>chunk_size = 8, free_chunks = []\<rparr>,
     mm_heap := [100 \<mapsto> rld, 101 \<mapsto> hello_wo]\<rparr>\<rparr>"

lemma sample_scatter:
  assumes "h 101 = Some (sample_ib_chunk 4104)" and "h 100 = Some (sample_ib_chunk 4096)"
  shows "scatter_all [''hello'', [], '' world''] [101, 100] h = Inr ([100], h(101 \<mapsto> hello_wo, 100 \<mapsto> rld))"
proof -
  define hello where "hello = (sample_ib_chunk 4104)\<lparr>ck_data := ''hello---'', ck_offset := 5\<rparr>"
  have w: "chunk_write ''hello'' (sample_ib_chunk 4104) = Inr (5, hello)" "chunk_write '' world'' hello = Inr (3, hello_wo)"
    "chunk_write ''rld'' (sample_ib_chunk 4096) = Inr (3, rld)"
    by (simp_all add: chunk_write_def chunk_left_def memcpy_at_def sample_ib_chunk_def hello_def hello_wo_def rld_def)
  have f: "\<not> chunk_full hello" "chunk_full hello_wo" "\<not> chunk_full rld"
    by (simp_all add: chunk_full_def sample_ib_chunk_def hello_def hello_wo_def rld_def)
  show ?thesis using assms by (simp add: w f)
qed

lemma sample_send:
  "cs_send (lift_ib (send_logged sample_verbs) sample_ib_env) sample_infiniband sample_socket [''hello'', [], '' world''] (0, [])
    = (Inr (11, [], sent_infiniband), (0, [chunk_wr 101 hello_wo, chunk_wr 100 rld]))"
proof -
  define ib1 where "ib1 = sample_infiniband\<lparr>ibx_mm := (ibx_mm sample_infiniband)\<lparr>mm_channel := Some \<lparr>chunk_size = 8, free_chunks = []\<rparr>\<rparr>\<rparr>"
  have pop: "pop_chunks 2 [] [100, 101 :: chunk_ptr] = ([101, 100], [])" by (simp add: numeral_2_eq_2)
  have tx: "get_tx_buffers 11 sample_infiniband = Inr ([101, 100], ib1)"
    by (simp add: get_tx_buffers_def get_channel_buffers_def get_buffers_def chunk_count_def sample_infiniband_def ib1_def pop)
  have h: "mm_heap (ibx_mm ib1) = [100 \<mapsto> sample_ib_chunk 4096, 101 \<mapsto> sample_ib_chunk 4104]"
    by (simp add: ib1_def sample_infiniband_def)
  then have sc: "scatter_all [''hello'', [], '' world''] [101, 100] (mm_heap (ibx_mm ib1)) = Inr ([100], [100 \<mapsto> rld, 101 \<mapsto> hello_wo])"
    using sample_scatter [of "mm_heap (ibx_mm ib1)"] by (simp add: fun_upd_twist)
  have "ib1\<lparr>ibx_mm := (ibx_mm ib1)\<lparr>mm_heap := [100 \<mapsto> rld, 101 \<mapsto> hello_wo]\<rparr>\<rparr> = sent_infiniband" by (simp add: ib1_def sent_infiniband_def)
  moreover have "qpo_qp (cs_qp sample_socket) = Some \<lparr>qp_handle = 30, qp_num = 21\<rparr>" by (simp add: sample_socket_def sample_queue_pair_def)
  ultimately show ?thesis by (simp add: cs_send_def Let_def tx sc prog_simps watch_simps sample_sel del: scatter_all.simps)
qed

lemma sample_can_send: "can_send sample_infiniband \<lparr>chunk_size = 8, free_chunks = [100, 101]\<rparr> sample_socket [''hello'', [], '' world'']"
  using sample_pool_fresh by (simp add: can_send_def sample_socket_def sample_queue_pair_def)

section \<open>Properties\<close>

text \<open>
  C1. Bytes written at one end of a connection are read at the other. If \<open>send\<close> is called with enough empty chunks and the
  adapters carry the requests it has posted, then a \<open>read\<close> at the other end that finds the completions, in whatever
  batches, returns the concatenation of the sender's buffers, up to the number of bytes it was asked for, however the
  buffers were cut into chunks.
\<close>
theorem transfer_end_to_end:
  assumes "can_send ib cl s bl" and "cs_send (lift_ib (send_logged V) E) ib s bl (w, []) = (Inr (r, bl', ib'), (w', wrs))"
    and "carried (mm_heap (ibx_mm ib')) wrs body (concat (bs1 @ bs2))"
    and "wait_cq_event fuel (scripted body E2) (cs_cc s2) (v, bs1 @ [] # bs2) = (Inr cc, (v1, bs1 @ [] # bs2))"
    and "arrivals_ok body (mm_heap (ibx_mm ib2)) (concat (bs1 @ [] # bs2))" and "[] \<notin> set bs1" and "[] \<notin> set bs2"
    and "rx_buffers s2 = []" and "cq_cq (cs_cq s2) = Some q" and "unat len < 2 ^ 63" and "length bs1 + length bs2 + 1 < fuel"
  shows "\<exists>n s2' ib2' v'. cs_read fuel (scripted body E2) ib2 s2 len (v, bs1 @ [] # bs2)
      = (Inr ((n, take (unat len) (concat bl)), s2', ib2'), (v', [])) \<and> unat n = min (unat len) (length (concat bl))"
proof -
  obtain h' where "mm_heap (ibx_mm ib') = h'" "concat (map (wr_payload h') wrs) = concat bl"
    by (rule can_send_run [OF assms(1,2)]) auto
  then have "messages body (concat (bs1 @ bs2)) = concat bl" using assms(3) by (simp add: carried_def)
  then show ?thesis using cs_read_run [OF assms(4-11)] by fastforce
qed

lemma transfer_end_to_end_witness:
  "\<exists>n s2' ib2' v'. cs_read (Suc (Suc (Suc (Suc 0)))) (scripted (\<lambda>p. if p = 100 then ''hello wo'' else ''rld'') sample_ib_env) sample_infiniband
      sample_socket 10 (0, [[arrival_wc 100 8], [], [arrival_wc 101 3]]) = (Inr ((n, ''hello worl''), s2', ib2'), (v', [])) \<and> unat n = length ''hello worl''"
proof -
  let ?s = "[[arrival_wc 100 8]] @ [] # [[arrival_wc 101 3]]" and ?b = "\<lambda>p :: u64. if p = 100 then ''hello wo'' else ''rld''"
  have "carried (mm_heap (ibx_mm sent_infiniband)) [chunk_wr 101 hello_wo, chunk_wr 100 rld] ?b (concat ([[arrival_wc 100 8]] @ [[arrival_wc 101 3]]))"
    by (simp add: carried_def arrival_wc_def wr_payload_def chunk_wr_def sent_infiniband_def hello_wo_def rld_def)
  moreover have "wait_cq_event (Suc (Suc (Suc (Suc 0)))) (scripted ?b sample_ib_env) (cs_cc sample_socket) (0, ?s)
      = (Inr (sample_channel\<lparr>need_ack := 1\<rparr>), (0, ?s))"
    by (simp add: get_cq_event_def sample_socket_def sample_channel_def MAX_ACK_EVENT_def Let_def prog_simps watch_simps sample_sel)
  moreover have "arrivals_ok ?b (mm_heap (ibx_mm sample_infiniband)) (concat ?s)"
    by (simp add: arrivals_ok_def arrival_ok_def arrival_wc_def sample_infiniband_def sample_ib_chunk_def chunk_wf_def)
  moreover have "rx_buffers sample_socket = []" "cq_cq (cs_cq sample_socket) = Some 6" by (simp_all add: sample_socket_def sample_cq_def)
  moreover have "take (unat (10 :: size_t)) (concat [''hello'', [], '' world'']) = ''hello worl''" by simp
  ultimately show ?thesis
    using transfer_end_to_end [OF sample_can_send sample_send, of ?b "[[arrival_wc 100 8]]" "[[arrival_wc 101 3]]"
      "Suc (Suc (Suc (Suc 0)))" sample_ib_env sample_socket 0 "sample_channel\<lparr>need_ack := 1\<rparr>" 0 sample_infiniband 6 10] by simp
qed

text \<open>
  C14. Sending does not lose chunks: when the completions of a message come in, in any order and in any batches, the
  chunks that the memory manager has free in the clusters \<open>channel\<close> and \<open>send\<close> together are those it had free before the
  message was sent. (They have moved from \<open>channel\<close> to \<open>send\<close>, from which nothing takes them.)
\<close>
theorem send_conserves_chunks:
  assumes "can_send ib cl s bl" and "cs_send (lift_ib (send_logged V) E) ib s bl (w, []) = (Inr (r, bl', ib'), (w', wrs))"
    and "completed wrs (concat (bs1 @ bs2))" and "mm_send (ibx_mm ib) = Some sd"
    and "get_cq_event (scripted body E2) (tx_cc wk) (v, bs1 @ [] # bs2) = (Inr (True, cc), (v1, bs1 @ [] # bs2))"
    and "tx_cq wk = Some cq" and "cq_cq cq = Some q" and "[] \<notin> set bs1" and "[] \<notin> set bs2" and "length bs1 + length bs2 + 1 < fuel"
  shows "\<exists>ib'' wk' v' cl' sd'. handle_tx_event fuel (scripted body E2) ib' wk (v, bs1 @ [] # bs2) = (Inr (ib'', wk'), (v', []))
    \<and> mm_channel (ibx_mm ib'') = Some cl' \<and> mm_send (ibx_mm ib'') = Some sd'
    \<and> mset (free_chunks cl') + mset (free_chunks sd') = mset (free_chunks cl) + mset (free_chunks sd)"
proof -
  obtain cl' h' where ib': "ib' = ib\<lparr>ibx_mm := (ibx_mm ib)\<lparr>mm_channel := Some cl', mm_heap := h'\<rparr>\<rparr>"
    and free: "free_chunks cl = free_chunks cl' @ rev (map swr_id wrs)"
    by (rule can_send_run [OF assms(1,2)])
  have sd: "mm_send (ibx_mm ib') = Some sd" using assms(4) by (simp add: ib')
  have ok: "\<forall>wc \<in> set (concat (bs1 @ bs2)). wc_status wc = IBV_WC_SUCCESS" using assms(3) by (simp add: completed_def)
  have "mset (map wc_wr_id (concat (bs1 @ bs2))) = mset (map swr_id wrs)" using assms(3) by (simp add: completed_def)
  then have "mset (free_chunks cl') + mset (free_chunks sd @ map wc_wr_id (concat (bs1 @ bs2))) = mset (free_chunks cl) + mset (free_chunks sd)"
    by (simp add: free)
  then show ?thesis
    using tx_event_returns_chunks [OF assms(5-7) sd ok assms(8-10)] by (fastforce simp: ib')
qed

lemma send_conserves_chunks_witness:
  "\<exists>ib'' wk' v' cl' sd'. handle_tx_event (Suc (Suc (Suc (Suc 0)))) (scripted sample_body sample_ib_env) sent_infiniband sample_worker
      (0, [[arrival_wc 100 0], [], [arrival_wc 101 0]]) = (Inr (ib'', wk'), (v', []))
    \<and> mm_channel (ibx_mm ib'') = Some cl' \<and> mm_send (ibx_mm ib'') = Some sd'
    \<and> mset (free_chunks cl') + mset (free_chunks sd') = {#100, 101#}"
proof -
  let ?s = "[[arrival_wc 100 0]] @ [] # [[arrival_wc 101 0]]"
  have all: "completed [chunk_wr 101 hello_wo, chunk_wr 100 rld] (concat ([[arrival_wc 100 0]] @ [[arrival_wc 101 0]]))"
    by (simp add: completed_def arrival_wc_def chunk_wr_def)
  have ev: "get_cq_event (scripted sample_body sample_ib_env) (tx_cc sample_worker) (0, ?s)
      = (Inr (True, sample_channel\<lparr>need_ack := 1\<rparr>), (0, ?s))"
    by (simp add: get_cq_event_def sample_worker_def sample_channel_def MAX_ACK_EVENT_def Let_def prog_simps watch_simps sample_sel)
  have wk: "tx_cq sample_worker = Some sample_cq" "cq_cq sample_cq = Some 6"
    and sd: "mm_send (ibx_mm sample_infiniband) = Some \<lparr>chunk_size = 8, free_chunks = []\<rparr>"
    by (simp_all add: sample_worker_def sample_cq_def sample_infiniband_def)
  from send_conserves_chunks [OF sample_can_send sample_send all sd ev wk, of "Suc (Suc (Suc (Suc 0)))"]
  show ?thesis by (simp add: add_mset_commute)
qed

end
