(* ===== verification/Spec2Isabelle.thy ===== *)
theory Spec2Isabelle
  imports BenchDriver BlockDrivers StackTransfer
begin

text \<open>
  A verification library for an RDMA messaging program. The repository has two parts that do not
  call each other:

  \<^item> \<open>debug/\<close>: a C library for one RDMA connection (\<open>rdma_socket.c\<close> with \<open>pingpong.c\<close> and
    \<open>huge_page.c\<close>), a C++ session class on top of it (\<open>rdma_session.cpp\<close>, \<open>rdma_portal.cpp\<close>) and
    four programs that use it (\<open>xx.cpp\<close>, \<open>cpyread.cpp\<close>, \<open>regread.cpp\<close>, \<open>migration.cpp\<close>);
  \<^item> \<open>rdma/\<close>: a network stack for a message-passing server (devices, protection domain, chunks of
    registered memory, queue pairs, connected and server sockets, workers).

  \<^bold>\<open>How the code is modelled.\<close> Every routine with effects is a program \<open>('w, 'a) prog\<close> (theory
  Prelude): a function from the state \<open>'w\<close> of everything outside the sources to a value or a
  fault, and a new outside state. A fault is a failed \<open>assert\<close>, undefined behaviour (a null
  pointer, a write past a buffer), or a loop cut off by its fuel. The verbs library, the operating
  system and the allocator are records of entry points (\<open>'w verbs\<close>, \<open>'w sys\<close>, \<open>'w mem_sys\<close>)
  that the definitions take as parameters; nothing is assumed about them except where a theorem
  says so. Since programs are generic in \<open>'w\<close>, a theorem can run them in an environment that
  carries a ghost beside an arbitrary one: the ledger of open objects (Ledger), the state of a
  queue pair (QueuePairSpec), the messages written to a socket (SocketExchange), the live blocks of
  memory (HugePage), the log of posted work requests (RdmaSession, SocketSend) and of stores and writes (BenchDriver).

  \<^bold>\<open>Theories.\<close>
  \<^item> Prelude, CFormat: programs, faults, words, memory copies; \<open>printf\<close> and \<open>sscanf\<close> for the
    directives the sources use, with the locale \<open>record_codec\<close> of fixed-width text records.
  \<^item> Verbs, Ledger, SampleEnv: the boundary, the accounting of what is open (locale
    \<open>lifecycle\<close>), and one concrete environment for closed instances.
  \<^item> Pingpong: \<open>debug/pingpong.c\<close>. A GID printed by one host is read back by any other.
  \<^item> HugePage: \<open>debug/huge_page.c\<close>. The rounded size covers the request unless it wraps; what is
    taken is released by the matching call (locale \<open>block_allocator\<close>); a pointer that is handed out lies inside a live
    block and is the start of none.
  \<^item> SocketContext: structures and life of a connection context (\<open>init_rdma_context\<close>,
    \<open>rdma_close_ctx\<close>, \<open>rdma_reg_mr\<close>, \<open>get_device\<close>). For every path, told apart by what the
    environment did not give (\<open>init_stage\<close>), what it leaves open is stated; two paths leak.
  \<^item> QueuePairSpec, SocketExchange: the legal transitions of a reliable-connection queue pair
    (locale \<open>rc_bringup\<close>), the exchange of connection data and \<open>create_context\<close>. The exchange succeeds exactly when
    its steps do, and the two ends learn each other's data.
  \<^item> SocketOps: posting and \<open>rdma_query_cq\<close>; its model takes the number of polls it may make, and
    the lemmas say that one more than the number of empty polls is enough.
  \<^item> SessionBuffers, SessionTable, RdmaSession: \<open>rdma_session.cpp\<close> and \<open>rdma_portal.cpp\<close>:
    reassembly from the ring of receive buffers, the table of slices (whose local arrays are a byte too small), bulk
    transfer, and \<open>close\<close>, which passes a huge-page pointer to \<open>free\<close>.
  \<^item> Patterns, BenchDriver: \<open>xx.cpp\<close>. The client sends its test data whole and in order; the server's check accepts
    exactly what the client's loop makes (locale \<open>run_filler\<close>), but the server never gets to it.
  \<^item> BlockDrivers: \<open>cpyread.cpp\<close>, \<open>regread.cpp\<close> and \<open>migration.cpp\<close>. \<open>migration\<close> hands its whole input to the peer; \<open>regread\<close>
    publishes the keys of its block but overruns the memory for them by a byte; \<open>cpyread\<close> gives up after one block.
  \<^item> StackEnv: the boundary of \<open>rdma/\<close> (\<open>'w ib_env\<close>), with \<open>lift_ib\<close> to put a ghost beside it.
  \<^item> MemoryManager: chunks, clusters and the manager of \<open>rdma/Infiniband.h\<close>. Chunks live on an
    explicit heap, since clusters, sockets and work requests share them by pointer; the locale \<open>pool\<close>
    is the contract of a cluster. Writing and reading stay inside a chunk; filling a cluster ends and
    gives well-formed chunks; transmit buffers are never replenished, and a request for 0 bytes lends out all of them.
  \<^item> ResourceManager: \<open>rdma/ResourceManager.h\<close>: devices and their ports.
  \<^item> SynMessage: the handshake datagrams (\<open>send_udp_msg\<close>, \<open>recv_udp_msg\<close> of \<open>rdma/Infiniband.cc\<close>).
  \<^item> Infiniband: completion channels and queues, queue pairs and the \<open>Infiniband\<close> object. Events are
    acknowledged without loss; a new queue pair is in INIT.
  \<^item> CompletionLoop: the loop that empties a completion queue, as the locale \<open>completion_loop\<close>.
  \<^item> ConnectedSocket, SocketSend, SocketRead: \<open>rdma/RDMAConnectedSocketImpl.cc\<close>. A socket comes up
    by legal transitions (\<open>rc_bringup\<close> again); \<open>send\<close> posts the message whole; \<open>read\<close> delivers what has
    arrived.
  \<^item> RdmaStack: \<open>rdma/RDMAServerSocketImpl.cc\<close>, \<open>rdma/RDMAStack.cc\<close> and \<open>rdma/RDMAStack.h\<close>. A socket that is handed
    out is ready; completed chunks go back; each thread that is started is joined once.
  \<^item> StackTransfer: both ends together. What one end sends the other reads, and no chunk is lost on the way.

  \<^bold>\<open>Fuel.\<close> Polling and waiting loops take the number of iterations they may make. The loops of \<open>read\<close>
  and \<open>handle_tx_event\<close> make one poll per batch of completions and two empty ones, and the theorems
  assume no more; a poll that keeps failing makes them run forever (\<open>read_again_spins\<close>,
  \<open>tx_again_spins\<close>). \<open>Cluster::add\<close> and the copying loop of \<open>send\<close> get fuel that is proved enough.
  In the programs of \<open>debug/\<close> the sending loop of \<open>xx\<close> needs one unit per message, \<open>collect\<close> one more than the bytes it
  reads, the loop of \<open>migration\<close> one more than the bytes of input, \<open>reg_memory\<close> one more than the pieces; the theorems
  assume no more. The loops of the server of \<open>xx\<close> and of \<open>cpyread\<close> are shown never to end and to end at once.

  \<^bold>\<open>Shared memory.\<close> What the adapter writes is an argument or an entry point of the environment. In
  \<open>rdma/\<close> a received message reaches its chunk when its completion is polled.

  \<^bold>\<open>Not modelled.\<close> Diagnostic output, timing (but for the failure of the clock) and the parsing of the command
  lines of the programs; what runs inside the threads of the stack's workers, whose event loop is not part of the
  repository; members that are declared and never defined (\<open>to_reset\<close>, \<open>to_dead\<close>, \<open>post_bufs\<close>), and \<open>send_blocking\<close>
  and \<open>roce_name\<close>, which are called and not even declared, as parameters. \<open>register_rx_tx\<close> runs off its end without a
  result that nobody uses; the model lets it return.
\<close>

end
